(* ===== verification/Prelude.thy ===== *)
theory Prelude
  imports Main "HOL-Library.Sublist"
begin

text \<open>
  Shared vocabulary of the development: Rust strings as lists of Unicode scalar values with their
  UTF-8 encoding, the string functions of the standard library that the sources call
  (\<open>trim\<close>, \<open>lines\<close>, \<open>split\<close>, \<open>join\<close>, \<open>strip_prefix\<close>, \<open>from_utf8_lossy\<close>),
  saturating integer arithmetic, and the two contracts that several components share: a log that
  keeps at most a fixed number of entries, and a machine whose steps keep an invariant.
\<close>

named_theorems str_simps \<open>evaluation of the modelled string functions\<close>
named_theorems inv_intros \<open>operations that keep a component's invariant\<close>

section \<open>Runes, strings and bytes\<close>

type_synonym rune = nat
type_synonym rstr = "rune list"
type_synonym bytes = "nat list"

text \<open>\<^verbatim>\<open>char\<close> holds a Unicode scalar value: a code point that is not a surrogate.\<close>

definition valid_rune :: "rune \<Rightarrow> bool" where
  "valid_rune r \<longleftrightarrow> r < 55296 \<or> (57344 \<le> r \<and> r < 1114112)"

definition valid_str :: "rstr \<Rightarrow> bool" where
  "valid_str s = list_all valid_rune s"

lemma valid_str_simps [simp]:
  "valid_str []" "valid_str (r # s) \<longleftrightarrow> valid_rune r \<and> valid_str s"
  "valid_str (s @ t) \<longleftrightarrow> valid_str s \<and> valid_str t"
  by (auto simp: valid_str_def)

text \<open>Literals of the source, written as HOL strings.\<close>

definition lit :: "string \<Rightarrow> rstr" where
  "lit s = map of_char s"

lemma lit_simps [str_simps]: "lit [] = []" "lit (c # s) = of_char c # lit s"
  by (simp_all add: lit_def)

lemma lit_append: "lit (s @ t) = lit s @ lit t"
  by (simp add: lit_def)

lemma of_char_less_256: "(of_char c :: nat) < 256"
  by (cases c) (simp split: if_splits)

lemma valid_str_lit [simp]: "valid_str (lit s)"
proof (induction s)
  case (Cons c s)
  have "valid_rune (of_char c)" unfolding valid_rune_def using of_char_less_256 [of c] by linarith
  with Cons show ?case by (simp add: lit_simps)
qed (simp add: lit_simps)

text \<open>Length of a rune and of a string in UTF-8 (\<^verbatim>\<open>char::len_utf8\<close>, \<^verbatim>\<open>str::len\<close>).\<close>

definition len_utf8 :: "rune \<Rightarrow> nat" where
  "len_utf8 r = (if r < 128 then 1 else if r < 2048 then 2 else if r < 65536 then 3 else 4)"

lemma len_utf8_bounds: "1 \<le> len_utf8 r" "len_utf8 r \<le> 4"
  by (simp_all add: len_utf8_def)

fun str_len :: "rstr \<Rightarrow> nat" where
  "str_len [] = 0"
| "str_len (r # s) = len_utf8 r + str_len s"

lemma str_len_append [simp]: "str_len (s @ t) = str_len s + str_len t"
  by (induction s) auto

lemma length_le_str_len: "length s \<le> str_len s"
  by (induction s) (auto simp: len_utf8_def)

section \<open>UTF-8\<close>

definition encode_rune :: "rune \<Rightarrow> bytes" where
  "encode_rune r =
     (if r < 128 then [r]
      else if r < 2048 then [192 + r div 64, 128 + r mod 64]
      else if r < 65536 then [224 + r div 4096, 128 + r div 64 mod 64, 128 + r mod 64]
      else [240 + r div 262144, 128 + r div 4096 mod 64, 128 + r div 64 mod 64, 128 + r mod 64])"

definition as_bytes :: "rstr \<Rightarrow> bytes" where
  "as_bytes s = concat (map encode_rune s)"

lemma as_bytes_simps [simp]: "as_bytes [] = []" "as_bytes (r # s) = encode_rune r @ as_bytes s"
  by (simp_all add: as_bytes_def)

lemma as_bytes_append [simp]: "as_bytes (s @ t) = as_bytes s @ as_bytes t"
  by (induction s) auto

lemma length_encode_rune: "length (encode_rune r) = len_utf8 r"
  by (simp add: encode_rune_def len_utf8_def)

lemma length_as_bytes: "length (as_bytes s) = str_len s"
  by (induction s) (auto simp: length_encode_rune)

text \<open>
  \<^verbatim>\<open>String::from_utf8_lossy\<close>: every maximal invalid prefix of a sequence becomes one
  replacement character \<open>U+FFFD\<close>, and decoding goes on behind it.
\<close>

abbreviation cont :: "nat \<Rightarrow> bool" where
  "cont b \<equiv> 128 \<le> b \<and> b < 192"

definition second_of_3 :: "nat \<Rightarrow> nat \<Rightarrow> bool" where
  "second_of_3 b c \<longleftrightarrow>
     (if b = 224 then 160 \<le> c \<and> c < 192 else if b = 237 then 128 \<le> c \<and> c < 160 else cont c)"

definition second_of_4 :: "nat \<Rightarrow> nat \<Rightarrow> bool" where
  "second_of_4 b c \<longleftrightarrow>
     (if b = 240 then 144 \<le> c \<and> c < 192 else if b = 244 then 128 \<le> c \<and> c < 144 else cont c)"

definition replacement :: rune where
  "replacement = 65533"

fun from_utf8_lossy :: "bytes \<Rightarrow> rstr" where
  "from_utf8_lossy [] = []"
| "from_utf8_lossy (b # bs) =
     (if b < 128 then b # from_utf8_lossy bs
      else if 194 \<le> b \<and> b < 224 then
        (case bs of
           c # cs \<Rightarrow> if cont c then ((b - 192) * 64 + (c - 128)) # from_utf8_lossy cs
                     else replacement # from_utf8_lossy bs
         | [] \<Rightarrow> [replacement])
      else if 224 \<le> b \<and> b < 240 then
        (case bs of
           c # cs \<Rightarrow>
             if second_of_3 b c then
               (case cs of
                  d # ds \<Rightarrow>
                    if cont d then
                      ((b - 224) * 4096 + (c - 128) * 64 + (d - 128)) # from_utf8_lossy ds
                    else replacement # from_utf8_lossy cs
                | [] \<Rightarrow> [replacement])
             else replacement # from_utf8_lossy bs
         | [] \<Rightarrow> [replacement])
      else if 240 \<le> b \<and> b < 245 then
        (case bs of
           c # cs \<Rightarrow>
             if second_of_4 b c then
               (case cs of
                  d # ds \<Rightarrow>
                    if cont d then
                      (case ds of
                         e # es \<Rightarrow>
                           if cont e then
                             ((b - 240) * 262144 + (c - 128) * 4096 + (d - 128) * 64 + (e - 128))
                               # from_utf8_lossy es
                           else replacement # from_utf8_lossy ds
                       | [] \<Rightarrow> [replacement])
                    else replacement # from_utf8_lossy cs
                | [] \<Rightarrow> [replacement])
             else replacement # from_utf8_lossy bs
         | [] \<Rightarrow> [replacement])
      else replacement # from_utf8_lossy bs)"

declare from_utf8_lossy.simps(2) [simp del]

lemma from_utf8_lossy_ascii [simp]: "b < 128 \<Longrightarrow> from_utf8_lossy (b # bs) = b # from_utf8_lossy bs"
  by (simp add: from_utf8_lossy.simps(2))

lemma decode_rune2:
  assumes "128 \<le> r" "r < 2048"
  shows "from_utf8_lossy (encode_rune r @ bs) = r # from_utf8_lossy bs"
proof -
  have "2 \<le> r div 64" "r div 64 < 32" using assms by auto
  moreover have "r div 64 * 64 + r mod 64 = r" by simp
  ultimately show ?thesis using assms by (simp add: encode_rune_def from_utf8_lossy.simps(2))
qed

lemma decode_rune3:
  assumes "2048 \<le> r" "r < 65536" "valid_rune r"
  shows "from_utf8_lossy (encode_rune r @ bs) = r # from_utf8_lossy bs"
proof -
  define q a c d where "q = r div 64" and "a = q div 64" and "c = q mod 64" and "d = r mod 64"
  have "r = q * 64 + d" "q = a * 64 + c" by (simp_all add: q_def a_def c_def d_def)
  then have r: "r = a * 4096 + c * 64 + d" by simp
  have c: "c < 64" and d: "d < 64" by (simp_all add: c_def d_def)
  have enc: "encode_rune r = [224 + a, 128 + c, 128 + d]"
    using assms by (simp add: encode_rune_def q_def a_def c_def d_def div_mult2_eq [symmetric])
  have "a < 16" using assms(2) r by linarith
  moreover have "second_of_3 (224 + a) (128 + c)"
    using assms r c d by (auto simp: second_of_3_def valid_rune_def)
  ultimately show ?thesis using c d by (simp add: enc from_utf8_lossy.simps(2) r [symmetric])
qed

lemma decode_rune4:
  assumes "65536 \<le> r" "valid_rune r"
  shows "from_utf8_lossy (encode_rune r @ bs) = r # from_utf8_lossy bs"
proof -
  define q p a c d e where "q = r div 64" and "p = q div 64" and "a = p div 64" and "c = p mod 64"
    and "d = q mod 64" and "e = r mod 64"
  have "r = q * 64 + e" "q = p * 64 + d" "p = a * 64 + c"
    by (simp_all add: q_def p_def a_def c_def d_def e_def)
  then have r: "r = a * 262144 + c * 4096 + d * 64 + e" by simp
  have lt: "c < 64" "d < 64" "e < 64" by (simp_all add: c_def d_def e_def)
  have bound: "r < 1114112" using assms by (simp add: valid_rune_def)
  have enc: "encode_rune r = [240 + a, 128 + c, 128 + d, 128 + e]"
    using assms
    by (simp add: encode_rune_def q_def p_def a_def c_def d_def e_def div_mult2_eq [symmetric])
  have "a < 5" using bound r by linarith
  moreover have "second_of_4 (240 + a) (128 + c)"
    using assms(1) bound r lt by (auto simp: second_of_4_def)
  ultimately show ?thesis using lt by (simp add: enc from_utf8_lossy.simps(2) r [symmetric])
qed

lemma decode_rune:
  "valid_rune r \<Longrightarrow> from_utf8_lossy (encode_rune r @ bs) = r # from_utf8_lossy bs"
  using decode_rune2 [of r bs] decode_rune3 [of r bs] decode_rune4 [of r bs]
  by (cases "r < 128") (auto simp: encode_rune_def not_less le_less_linear)

lemma from_utf8_lossy_as_bytes: "valid_str s \<Longrightarrow> from_utf8_lossy (as_bytes s) = s"
  by (induction s) (auto simp: decode_rune)

text \<open>\<^verbatim>\<open>String::from_utf8\<close>: the text, if the bytes are UTF-8.\<close>

definition from_utf8 :: "bytes \<Rightarrow> rstr option" where
  "from_utf8 b = (let s = from_utf8_lossy b in if as_bytes s = b then Some s else None)"

lemma from_utf8_as_bytes: "valid_str s \<Longrightarrow> from_utf8 (as_bytes s) = Some s"
  by (simp add: from_utf8_def from_utf8_lossy_as_bytes)

section \<open>String functions of the standard library\<close>

text \<open>\<^verbatim>\<open>char::is_whitespace\<close>: the Unicode property \<open>White_Space\<close>.\<close>

definition is_whitespace :: "rune \<Rightarrow> bool" where
  "is_whitespace c \<longleftrightarrow>
     (9 \<le> c \<and> c \<le> 13) \<or> c = 32 \<or> c = 133 \<or> c = 160 \<or> c = 5760 \<or> (8192 \<le> c \<and> c \<le> 8202)
     \<or> c = 8232 \<or> c = 8233 \<or> c = 8239 \<or> c = 8287 \<or> c = 12288"

definition trim_start :: "rstr \<Rightarrow> rstr" where
  "trim_start s = dropWhile is_whitespace s"

definition trim_end :: "rstr \<Rightarrow> rstr" where
  "trim_end s = rev (dropWhile is_whitespace (rev s))"

definition trim :: "rstr \<Rightarrow> rstr" where
  "trim s = trim_end (trim_start s)"

lemma trim_end_Nil [simp]: "trim_end [] = []" and trim_start_Nil [simp]: "trim_start [] = []"
  and trim_Nil [simp]: "trim [] = []"
  by (simp_all add: trim_end_def trim_start_def trim_def)

lemma trim_end_idem: "trim_end (trim_end s) = trim_end s"
  by (simp add: trim_end_def)

lemma dropWhile_all_append: "\<forall>d \<in> set vs. P d \<Longrightarrow> dropWhile P (vs @ ys) = dropWhile P ys"
  by (induction vs) auto

lemma trim_end_cong_trim:
  assumes "trim_end s = trim_end t"
  shows "trim s = trim t"
proof -
  have swap: "trim u = trim_start (trim_end u)" for u
  proof (cases "\<forall>c \<in> set u. is_whitespace c")
    case True
    then have ws: "dropWhile is_whitespace u = []" "dropWhile is_whitespace (rev u) = []" by simp_all
    show ?thesis unfolding trim_def trim_start_def trim_end_def ws by simp
  next
    case False
    then obtain us c vs where u: "u = us @ c # vs" "\<not> is_whitespace c" "\<forall>d \<in> set vs. is_whitespace d"
      using split_list_last_prop [of u "\<lambda>c. \<not> is_whitespace c"] by auto
    have "dropWhile is_whitespace (rev vs @ c # rev us) = c # rev us"
      using u(2,3) by (subst dropWhile_all_append) auto
    then have "trim_end u = us @ [c]" by (simp add: trim_end_def u(1))
    moreover have "dropWhile is_whitespace u = dropWhile is_whitespace (us @ [c]) @ vs"
      using u(1,2) by (simp add: dropWhile_append)
    moreover have "\<exists>ws. dropWhile is_whitespace (us @ [c]) = ws @ [c]"
      using u(2) by (induction us) auto
    moreover have "dropWhile is_whitespace (rev vs @ c # rev ws) = c # rev ws" for ws
      using u(2,3) by (subst dropWhile_all_append) auto
    ultimately show ?thesis by (auto simp: trim_def trim_start_def trim_end_def)
  qed
  show ?thesis by (simp add: swap assms)
qed

text \<open>\<^verbatim>\<open>str::strip_prefix\<close> and \<^verbatim>\<open>str::starts_with\<close> / \<^verbatim>\<open>ends_with\<close>.\<close>

definition starts_with :: "'a list \<Rightarrow> 'a list \<Rightarrow> bool" where
  "starts_with s p = (take (length p) s = p)"

definition strip_prefix :: "'a list \<Rightarrow> 'a list \<Rightarrow> 'a list option" where
  "strip_prefix s p = (if starts_with s p then Some (drop (length p) s) else None)"

definition ends_with :: "'a list \<Rightarrow> 'a list \<Rightarrow> bool" where
  "ends_with s p = starts_with (rev s) (rev p)"

lemma strip_prefix_iff: "strip_prefix s p = Some t \<longleftrightarrow> s = p @ t"
  by (auto simp: strip_prefix_def starts_with_def) (metis append_take_drop_id)

lemma strip_prefix_append [simp]: "strip_prefix (p @ t) p = Some t"
  by (simp add: strip_prefix_iff)

lemma strip_prefix_None: "strip_prefix s p = None \<longleftrightarrow> \<not> prefix p s"
  by (metis not_Some_eq prefixE prefixI strip_prefix_iff)

text \<open>\<^verbatim>\<open>Iterator::position\<close>, \<^verbatim>\<open>str::find\<close>, \<^verbatim>\<open>str::rfind\<close> (indices in characters) and \<^verbatim>\<open>str::strip_suffix\<close>.\<close>

fun position :: "('a \<Rightarrow> bool) \<Rightarrow> 'a list \<Rightarrow> nat option" where
  "position P [] = None"
| "position P (x # xs) = (if P x then Some 0 else map_option Suc (position P xs))"

fun find_sub :: "'a list \<Rightarrow> 'a list \<Rightarrow> nat option" where
  "find_sub p [] = (if p = [] then Some 0 else None)"
| "find_sub p (x # s) = (if starts_with (x # s) p then Some 0 else map_option Suc (find_sub p s))"

fun rfind_sub :: "'a list \<Rightarrow> 'a list \<Rightarrow> nat option" where
  "rfind_sub p [] = (if p = [] then Some 0 else None)"
| "rfind_sub p (x # s) =
     (case rfind_sub p s of
        Some i \<Rightarrow> Some (Suc i)
      | None \<Rightarrow> if starts_with (x # s) p then Some 0 else None)"

definition strip_suffix :: "'a list \<Rightarrow> 'a list \<Rightarrow> 'a list option" where
  "strip_suffix s p = (if ends_with s p then Some (take (length s - length p) s) else None)"

lemma position_None: "position P xs = None \<longleftrightarrow> (\<forall>x \<in> set xs. \<not> P x)"
  by (induction xs) auto

lemma position_append:
  "(\<forall>x \<in> set pre. \<not> P x) \<Longrightarrow> P y \<Longrightarrow> position P (pre @ y # post) = Some (length pre)"
  by (induction pre) auto

lemma strip_suffix_append [simp]: "strip_suffix (s @ p) p = Some s"
  by (simp add: strip_suffix_def ends_with_def starts_with_def)

text \<open>\<^verbatim>\<open>str::replace\<close> for a pattern that is not empty: non-overlapping occurrences from the left.\<close>

function replace_all :: "'a list \<Rightarrow> 'a list \<Rightarrow> 'a list \<Rightarrow> 'a list" where
  "replace_all pat r [] = []"
| "replace_all pat r (c # s) =
     (if pat \<noteq> [] \<and> prefix pat (c # s) then r @ replace_all pat r (drop (length pat) (c # s))
      else c # replace_all pat r s)"
  by pat_completeness auto

termination replace_all
  by (relation "measure (\<lambda>(pat, r, s). length s)") (auto simp: neq_Nil_conv)

text \<open>\<^verbatim>\<open>str::split\<close> on one character: never empty.\<close>

fun split_on :: "'a \<Rightarrow> 'a list \<Rightarrow> 'a list list" where
  "split_on c [] = [[]]"
| "split_on c (x # xs) =
     (if x = c then [] # split_on c xs
      else (case split_on c xs of [] \<Rightarrow> [[x]] | l # ls \<Rightarrow> (x # l) # ls))"

fun join :: "'a list \<Rightarrow> 'a list list \<Rightarrow> 'a list" where
  "join sep [] = []"
| "join sep [l] = l"
| "join sep (l # m # ls) = l @ sep @ join sep (m # ls)"

lemma split_on_ne [simp]: "split_on c s \<noteq> []"
  by (cases s) (auto split: list.splits)

lemma split_on_no_sep: "l \<in> set (split_on c s) \<Longrightarrow> c \<notin> set l"
  by (induction s arbitrary: l) (auto split: list.splits if_splits)

lemma join_Cons_ne: "ls \<noteq> [] \<Longrightarrow> join sep (l # ls) = l @ sep @ join sep ls"
  by (cases ls) auto

lemma join_split_on: "join [c] (split_on c s) = s"
proof (induction s)
  case (Cons x s)
  then obtain l ls where "split_on c s = l # ls" by (meson neq_Nil_conv split_on_ne)
  with Cons show ?case by (cases ls) auto
qed simp

lemma split_on_append:
  assumes "c \<notin> set l"
  shows "split_on c (l @ c # s) = l # split_on c s"
  using assms by (induction l) auto

lemma split_on_id: "c \<notin> set l \<Longrightarrow> split_on c l = [l]"
  by (induction l) auto

lemma split_on_join:
  assumes "ls \<noteq> []" "\<And>l. l \<in> set ls \<Longrightarrow> c \<notin> set l"
  shows "split_on c (join [c] ls) = ls"
  using assms by (induction "[c]" ls rule: join.induct) (auto simp: split_on_id split_on_append)

text \<open>
  \<^verbatim>\<open>str::lines\<close>: the pieces ended by a newline, less one carriage return before it; a last
  piece without newline is a line of its own unless it is empty.
\<close>

definition strip_cr :: "rstr \<Rightarrow> rstr" where
  "strip_cr l = (if l \<noteq> [] \<and> last l = 13 then butlast l else l)"

definition lines :: "rstr \<Rightarrow> rstr list" where
  "lines s =
     (let ps = split_on 10 s
      in map strip_cr (butlast ps) @ (if last ps = [] then [] else [last ps]))"

text \<open>Decimal digits (the \<^verbatim>\<open>Display\<close> form of an unsigned integer).\<close>

fun show_nat :: "nat \<Rightarrow> rstr" where
  "show_nat n = (if n < 10 then [48 + n] else show_nat (n div 10) @ [48 + n mod 10])"

declare show_nat.simps [simp del]

lemma show_nat_ne [simp]: "show_nat n \<noteq> []"
  by (subst show_nat.simps) simp

lemma show_nat_digits: "\<forall>c \<in> set (show_nat n). 48 \<le> c \<and> c < 58"
proof (induction n rule: show_nat.induct)
  case (1 n)
  then show ?case by (subst show_nat.simps) auto
qed

text \<open>
  \<^verbatim>\<open>str::parse\<close> for an unsigned integer of \<open>w\<close> bits (an optional plus sign, then digits, no
  overflow) and for a \<^verbatim>\<open>bool\<close>.
\<close>

definition is_digit :: "rune \<Rightarrow> bool" where
  "is_digit c \<longleftrightarrow> 48 \<le> c \<and> c < 58"

definition digits_value :: "rstr \<Rightarrow> nat" where
  "digits_value s = foldl (\<lambda>n c. 10 * n + (c - 48)) 0 s"

definition parse_unsigned :: "nat \<Rightarrow> rstr \<Rightarrow> nat option" where
  "parse_unsigned w s =
     (let ds = (case s of c # cs \<Rightarrow> if c = 43 then cs else s | [] \<Rightarrow> [])
      in if ds \<noteq> [] \<and> list_all is_digit ds \<and> digits_value ds < 2 ^ w
         then Some (digits_value ds) else None)"

definition parse_bool :: "rstr \<Rightarrow> bool option" where
  "parse_bool s =
     (if s = lit ''true'' then Some True else if s = lit ''false'' then Some False else None)"

lemma digits_value_snoc [simp]: "digits_value (s @ [c]) = 10 * digits_value s + (c - 48)"
  by (simp add: digits_value_def)

lemma digits_value_show_nat: "digits_value (show_nat n) = n"
proof (induction n rule: show_nat.induct)
  case (1 n)
  then show ?case by (subst show_nat.simps) (auto simp: digits_value_def)
qed

lemma parse_unsigned_bound: "parse_unsigned w s = Some n \<Longrightarrow> n < 2 ^ w"
  by (auto simp: parse_unsigned_def Let_def split: if_splits)

lemma parse_show_nat:
  assumes "n < 2 ^ w"
  shows "parse_unsigned w (show_nat n) = Some n"
proof -
  obtain c cs where s: "show_nat n = c # cs" by (cases "show_nat n") auto
  have dig: "list_all is_digit (show_nat n)"
    using show_nat_digits [of n] by (simp add: list_all_iff is_digit_def)
  then have "c \<noteq> 43" by (simp add: s is_digit_def)
  with assms dig show ?thesis
    using digits_value_show_nat [of n] by (simp add: parse_unsigned_def s)
qed

section \<open>Times and durations\<close>

text \<open>\<^verbatim>\<open>Duration\<close> and \<^verbatim>\<open>Instant\<close> in nanoseconds; \<^verbatim>\<open>duration_since\<close> is the truncated difference.\<close>

type_synonym duration = nat
type_synonym instant = nat

definition from_secs :: "nat \<Rightarrow> duration" where
  "from_secs n = n * 1000000000"

definition from_millis :: "nat \<Rightarrow> duration" where
  "from_millis n = n * 1000000"

definition as_millis :: "duration \<Rightarrow> nat" where
  "as_millis d = d div 1000000"

section \<open>Saturating and checked integers\<close>

definition sat_add :: "nat \<Rightarrow> nat \<Rightarrow> nat \<Rightarrow> nat" where
  "sat_add w a b = min (a + b) (2 ^ w - 1)"

definition checked_mul :: "nat \<Rightarrow> nat \<Rightarrow> nat \<Rightarrow> nat option" where
  "checked_mul w a b = (if a * b < 2 ^ w then Some (a * b) else None)"

lemma sat_add_bound: "sat_add w a b < 2 ^ w"
  by (simp add: sat_add_def min_less_iff_disj)

lemma sat_add_ge: "a < 2 ^ w \<Longrightarrow> a \<le> sat_add w a b"
  by (simp add: sat_add_def)

lemma sat_add_exact: "a + b < 2 ^ w \<Longrightarrow> sat_add w a b = a + b"
  by (simp add: sat_add_def)


section \<open>Contracts shared by several components\<close>

text \<open>
  A log that appends at the back and keeps only the newest \<open>cap\<close> entries. The event queue's
  \<^verbatim>\<open>push_capped\<close>, the goal history, the goal decisions and the circuit breaker's window are such
  logs.
\<close>

definition newest :: "nat \<Rightarrow> 'a list \<Rightarrow> 'a list" where
  "newest n xs = drop (length xs - n) xs"

lemma length_newest [simp]: "length (newest n xs) = min n (length xs)"
  by (simp add: newest_def)

lemma newest_id: "length xs \<le> n \<Longrightarrow> newest n xs = xs"
  by (simp add: newest_def)

lemma newest_0 [simp]: "newest 0 xs = []"
  by (simp add: newest_def)

lemma suffix_newest: "suffix (newest n xs) xs"
  by (simp add: newest_def suffix_drop)

lemma sorted_newest: "sorted (map f xs) \<Longrightarrow> sorted (map f (newest n xs))"
  by (simp add: newest_def drop_map [symmetric] sorted_wrt_drop)

lemma newest_append_newest: "newest n (newest n xs @ ys) = newest n (xs @ ys)"
proof -
  have "drop (k - n) (drop (l - n) xs) = drop (l + m - n) xs"
    if "l = length xs" "k = min n l + m" for k l m
    using that by (simp add: min_def) (metis add.commute)
  then show ?thesis by (cases "length xs \<le> n") (simp_all add: newest_def)
qed

locale capped_log =
  fixes push :: "'a list \<Rightarrow> 'a \<Rightarrow> 'a list"
    and cap :: nat
  assumes push_newest: "length xs \<le> cap \<Longrightarrow> push xs x = newest cap (xs @ [x])"
begin

lemma push_length: "length xs \<le> cap \<Longrightarrow> length (push xs x) \<le> cap"
  by (simp add: push_newest)

lemma push_all:
  "length xs \<le> cap \<Longrightarrow> foldl push xs ys = newest cap (xs @ ys)"
proof (induction ys arbitrary: xs)
  case Nil
  then show ?case by (simp add: newest_id)
next
  case (Cons y ys)
  then have "foldl push (push xs y) ys = newest cap (push xs y @ ys)" by (simp add: push_length)
  with Cons.prems show ?case by (simp add: push_newest newest_append_newest)
qed

lemma push_all_length: "length xs \<le> cap \<Longrightarrow> length (foldl push xs ys) \<le> cap"
  by (simp add: push_all)

lemma push_all_suffix: "length xs \<le> cap \<Longrightarrow> suffix (foldl push xs ys) (xs @ ys)"
  by (simp add: push_all suffix_newest)

end

text \<open>A deterministic machine whose step keeps an invariant.\<close>

locale invariant_machine =
  fixes step :: "'s \<Rightarrow> 'e \<Rightarrow> 's"
    and inv :: "'s \<Rightarrow> bool"
  assumes step_inv: "inv s \<Longrightarrow> inv (step s e)"
begin

lemma run_inv: "inv s \<Longrightarrow> inv (foldl step s es)"
  by (induction es arbitrary: s) (auto intro: step_inv)

end

end
