(* ===== verification/Window.thy ===== *)
theory Window
  imports Prelude Complex_Main
begin

text \<open>
  The circuit breaker's sliding window (\<^verbatim>\<open>ds-circuit-breaker/src/window.rs\<close>): a bounded queue of
  timestamped samples with an incremental count of the failures in it, and the failure rate in
  double precision. An \<^verbatim>\<open>Instant\<close> and a \<^verbatim>\<open>Duration\<close> are counts of nanoseconds. A \<^verbatim>\<open>usize\<close> wraps
  at 64 bits, so an underflow of the counter would show.
\<close>


section \<open>Double precision\<close>

text \<open>
  An \<^verbatim>\<open>f64\<close> is a rational, an infinity or NaN. The only arithmetic the crate does on it is the
  quotient of two counts \<open>0 < b\<close>, \<open>a \<le> b < 2^53\<close>, rounded to nearest, ties to even, with a
  53-bit mantissa; no subnormal number can come out of it.
\<close>

datatype f64 = Fin rat | PosInf | NegInf | NaN

fun f64_ge :: "f64 \<Rightarrow> f64 \<Rightarrow> bool" where
  "f64_ge (Fin x) (Fin y) = (y \<le> x)"
| "f64_ge NaN _ = False"
| "f64_ge _ NaN = False"
| "f64_ge PosInf _ = True"
| "f64_ge _ NegInf = True"
| "f64_ge _ _ = False"

function norm_shift :: "nat \<Rightarrow> nat \<Rightarrow> nat" where
  "norm_shift a b = (if a = 0 \<or> b \<le> a then 0 else Suc (norm_shift (2 * a) b))"
  by pat_completeness auto
termination
  by (relation "measure (\<lambda>(a, b). b - a)") auto

declare norm_shift.simps [simp del]

definition round_half_even :: "nat \<Rightarrow> nat \<Rightarrow> nat" where
  "round_half_even p q =
     (let d = p div q; r = p mod q
      in if 2 * r < q \<or> (2 * r = q \<and> even d) then d else d + 1)"

definition div_f64 :: "nat \<Rightarrow> nat \<Rightarrow> f64" where
  "div_f64 a b =
     (let k = norm_shift a b
      in Fin (of_nat (round_half_even (a * 2 ^ (k + 52)) b) / 2 ^ (k + 52)))"

lemma round_half_even_bounds: "p div q \<le> round_half_even p q" "round_half_even p q \<le> p div q + 1"
  by (simp_all add: round_half_even_def Let_def)

lemma norm_shift_bound: "0 < a \<Longrightarrow> a < b \<Longrightarrow> a * 2 ^ norm_shift a b < 2 * b"
proof (induction a b rule: norm_shift.induct)
  case (1 a b)
  show ?case
  proof (cases "2 * a < b")
    case True
    with "1.IH" "1.prems" have "2 * a * 2 ^ norm_shift (2 * a) b < 2 * b" by simp
    with "1.prems" show ?thesis by (subst norm_shift.simps) (simp add: ac_simps)
  next
    case False
    then have "norm_shift (2 * a) b = 0" by (subst norm_shift.simps) simp
    with "1.prems" show ?thesis by (subst norm_shift.simps) simp
  qed
qed

lemma norm_shift_small: "2 * a < b \<Longrightarrow> 0 < a \<Longrightarrow> 2 \<le> norm_shift a b"
  by (subst norm_shift.simps, subst norm_shift.simps) simp

lemma norm_shift_big: "b \<le> 2 * a \<Longrightarrow> norm_shift a b \<le> 1"
  by (subst norm_shift.simps, subst norm_shift.simps) simp

lemma div_f64_0 [simp]: "div_f64 0 b = Fin 0"
  by (auto simp: div_f64_def round_half_even_def norm_shift.simps Let_def)

text \<open>The rounded quotient reaches one half exactly when the exact one does.\<close>

lemma div_f64_half_ge:
  assumes "0 < b" "b \<le> 2 * a"
  shows "f64_ge (div_f64 a b) (Fin (1 / 2))"
proof -
  define k where "k = norm_shift a b"
  define m where "m = round_half_even (a * 2 ^ (k + 52)) b"
  have k: "k \<le> 1" using assms norm_shift_big k_def by simp
  have "b \<le> a * 2 ^ k"
  proof (cases "b \<le> a")
    case True
    then show ?thesis by (metis le_trans mult_le_mono2 nat_mult_1_right one_le_numeral one_le_power)
  next
    case False
    moreover from assms have "0 < a" by simp
    ultimately have "k = Suc (norm_shift (2 * a) b)" unfolding k_def by (subst norm_shift.simps) simp
    with k assms show ?thesis by simp
  qed
  then have "b * 2 ^ 52 \<le> a * 2 ^ (k + 52)" by (simp add: power_add)
  then have "2 ^ 52 \<le> a * 2 ^ (k + 52) div b"
    using assms(1) by (metis div_le_mono nonzero_mult_div_cancel_left neq0_conv)
  then have m: "2 ^ 52 \<le> m" unfolding m_def using round_half_even_bounds(1) le_trans by blast
  have "(1 / 2 :: rat) * 2 ^ (k + 52) \<le> 2 ^ 52"
    using k by (cases k) (auto simp: power_add)
  also have "\<dots> \<le> of_nat m" using m by (metis of_nat_le_iff of_nat_numeral of_nat_power)
  finally show ?thesis
    by (simp add: div_f64_def Let_def k_def [symmetric] m_def [symmetric] field_simps)
qed

lemma div_f64_half_less:
  assumes "2 * a < b" "b \<le> 2 ^ 52"
  shows "\<not> f64_ge (div_f64 a b) (Fin (1 / 2))"
proof (cases "a = 0")
  case True
  then show ?thesis by simp
next
  case False
  define k where "k = norm_shift a b"
  define m where "m = round_half_even (a * 2 ^ (k + 52)) b"
  have k: "2 \<le> k" using assms False norm_shift_small k_def by simp
  have lt: "a * 2 ^ k < 2 * b" using assms False norm_shift_bound k_def by simp
  have "m < 2 ^ (k + 51)"
  proof (cases "k = 2")
    case True
    have "2 * a \<le> b - 1" using assms by simp
    then have "a * 2 ^ (k + 52) \<le> (b - 1) * 2 ^ 53" using True by (simp add: power_add)
    also have "\<dots> \<le> b * (2 ^ 53 - 2)"
      using assms by (simp add: algebra_simps diff_mult_distrib)
    finally have "a * 2 ^ (k + 52) div b \<le> 2 ^ 53 - 2"
      by (metis div_le_mono div_mult_self_is_m gr_zeroI mult.commute mult_is_0 not_less0 assms(1))
    then have "m \<le> 2 ^ 53 - 1" unfolding m_def using round_half_even_bounds(2) [of "a * 2 ^ (k + 52)" b]
      by simp
    with True show ?thesis by simp
  next
    case False
    have "a * 2 ^ (k + 52) < 2 ^ 53 * b" using lt by (simp add: power_add)
    then have "a * 2 ^ (k + 52) div b < 2 ^ 53" by (simp add: less_mult_imp_div_less)
    then have "m \<le> 2 ^ 53" unfolding m_def using round_half_even_bounds(2) [of "a * 2 ^ (k + 52)" b]
      by simp
    also have "\<dots> < 2 ^ (k + 51)" using False k by (intro power_strict_increasing) auto
    finally show ?thesis .
  qed
  then have "m * 2 < 2 ^ (k + 52)" by (simp add: power_add)
  then have "(of_nat (m * 2) :: rat) < of_nat (2 ^ (k + 52))" by (simp only: of_nat_less_iff)
  then have "\<not> (2 :: rat) ^ (k + 52) \<le> of_nat m * 2" by (simp only: of_nat_mult of_nat_power) simp
  then show ?thesis
    by (simp add: div_f64_def Let_def k_def [symmetric] m_def [symmetric] field_simps)
qed


section \<open>The window\<close>

definition MAX_WINDOW_ENTRIES :: nat where
  "MAX_WINDOW_ENTRIES = 10000"

record sliding_window =
  entries :: "(instant \<times> bool) list"
  failures :: nat

definition window_new :: sliding_window where
  "window_new = \<lparr>entries = [], failures = 0\<rparr>"

definition usize_dec :: "nat \<Rightarrow> nat" where
  "usize_dec n = (n + 2 ^ 64 - 1) mod 2 ^ 64"

definition usize_inc :: "nat \<Rightarrow> nat" where
  "usize_inc n = (n + 1) mod 2 ^ 64"

definition window_push :: "bool \<Rightarrow> instant \<Rightarrow> sliding_window \<Rightarrow> sliding_window" where
  "window_push is_failure at_time w =
     (let w1 = (if MAX_WINDOW_ENTRIES \<le> length (entries w) then
                  (case entries w of
                     (_, was_failure) # rest \<Rightarrow>
                       \<lparr>entries = rest,
                        failures = (if was_failure then usize_dec (failures w) else failures w)\<rparr>
                   | [] \<Rightarrow> w)
                else w)
      in \<lparr>entries = entries w1 @ [(at_time, is_failure)],
          failures = (if is_failure then usize_inc (failures w1) else failures w1)\<rparr>)"

fun evict_loop :: "instant \<Rightarrow> (instant \<times> bool) list \<Rightarrow> nat \<Rightarrow> sliding_window" where
  "evict_loop cutoff [] f = \<lparr>entries = [], failures = f\<rparr>"
| "evict_loop cutoff ((ts, was_failure) # es) f =
     (if ts < cutoff then evict_loop cutoff es (if was_failure then usize_dec f else f)
      else \<lparr>entries = (ts, was_failure) # es, failures = f\<rparr>)"

definition window_evict :: "duration \<Rightarrow> instant \<Rightarrow> sliding_window \<Rightarrow> sliding_window" where
  "window_evict window now w =
     (if now < window then w else evict_loop (now - window) (entries w) (failures w))"

definition window_error_rate :: "sliding_window \<Rightarrow> f64" where
  "window_error_rate w =
     (if entries w = [] then Fin 0 else div_f64 (failures w) (length (entries w)))"

definition sample_count :: "sliding_window \<Rightarrow> nat" where
  "sample_count w = length (entries w)"

definition window_clear :: "sliding_window \<Rightarrow> sliding_window" where
  "window_clear w = \<lparr>entries = [], failures = 0\<rparr>"

section \<open>The incremental count is the count\<close>

definition count_failures :: "(instant \<times> bool) list \<Rightarrow> nat" where
  "count_failures es = length (filter snd es)"

definition wf_window :: "sliding_window \<Rightarrow> bool" where
  "wf_window w \<longleftrightarrow> length (entries w) \<le> MAX_WINDOW_ENTRIES \<and> failures w = count_failures (entries w)"

lemma count_failures_simps [simp]:
  "count_failures [] = 0"
  "count_failures (e # es) = (if snd e then 1 else 0) + count_failures es"
  "count_failures (es @ fs) = count_failures es + count_failures fs"
  by (simp_all add: count_failures_def)

lemma count_failures_le: "count_failures es \<le> length es"
  by (simp add: count_failures_def)

lemma usize_dec_Suc [simp]: "n < 2 ^ 64 - 1 \<Longrightarrow> usize_dec (Suc n) = n"
  by (simp add: usize_dec_def)

lemma usize_inc_small [simp]: "n < 2 ^ 64 - 1 \<Longrightarrow> usize_inc n = Suc n"
  by (simp add: usize_inc_def)

lemma wf_window_new [inv_intros]: "wf_window window_new"
  and wf_window_clear [inv_intros]: "wf_window (window_clear w)"
  by (simp_all add: wf_window_def window_new_def window_clear_def)

lemma entries_push:
  "length (entries w) \<le> MAX_WINDOW_ENTRIES \<Longrightarrow>
   entries (window_push b t w) = newest MAX_WINDOW_ENTRIES (entries w @ [(t, b)])"
  by (auto simp: window_push_def newest_def Let_def MAX_WINDOW_ENTRIES_def split: list.splits)

lemma wf_window_push [inv_intros]:
  assumes "wf_window w"
  shows "wf_window (window_push b t w)"
proof -
  have len: "length (entries w) \<le> 10000" and f: "failures w = count_failures (entries w)"
    using assms by (simp_all add: wf_window_def MAX_WINDOW_ENTRIES_def)
  have small: "count_failures (entries w) < 2 ^ 64 - 1"
    using count_failures_le [of "entries w"] len by simp
  have "failures (window_push b t w) = count_failures (entries (window_push b t w))"
    using f small by (auto simp: window_push_def Let_def split: list.splits)
  moreover have "length (entries (window_push b t w)) \<le> MAX_WINDOW_ENTRIES"
    using len by (simp add: entries_push MAX_WINDOW_ENTRIES_def)
  ultimately show ?thesis by (simp add: wf_window_def)
qed

lemma evict_loop_spec:
  "count_failures es < 2 ^ 64 - 1 \<Longrightarrow>
   evict_loop cutoff es (count_failures es) =
     \<lparr>entries = dropWhile (\<lambda>e. fst e < cutoff) es,
      failures = count_failures (dropWhile (\<lambda>e. fst e < cutoff) es)\<rparr>"
proof (induction es)
  case (Cons e es)
  then show ?case by (cases e) auto
qed simp

lemma window_evict_spec:
  assumes "wf_window w"
  shows "entries (window_evict d now w) =
           (if now < d then entries w else dropWhile (\<lambda>e. fst e < now - d) (entries w))"
    and "wf_window (window_evict d now w)"
proof -
  have len: "length (entries w) \<le> 10000" and f: "failures w = count_failures (entries w)"
    using assms by (simp_all add: wf_window_def MAX_WINDOW_ENTRIES_def)
  have "count_failures (entries w) < 2 ^ 64 - 1"
    using count_failures_le [of "entries w"] len by simp
  note spec = evict_loop_spec [OF this, of "now - d"]
  show "entries (window_evict d now w) =
          (if now < d then entries w else dropWhile (\<lambda>e. fst e < now - d) (entries w))"
    by (simp add: window_evict_def f spec)
  show "wf_window (window_evict d now w)"
    using assms len length_dropWhile_le [of "\<lambda>e. fst e < now - d" "entries w"]
    by (auto simp: wf_window_def window_evict_def f spec MAX_WINDOW_ENTRIES_def)
qed

lemmas wf_window_evict [inv_intros] = window_evict_spec(2)

text \<open>Under a monotone clock the queue is sorted by time, and eviction keeps the recent samples.\<close>

lemma dropWhile_sorted_filter:
  "sorted (map fst es) \<Longrightarrow> dropWhile (\<lambda>e. fst e < c) es = filter (\<lambda>e. c \<le> fst e) es"
proof (induction es)
  case (Cons e es)
  show ?case
  proof (cases "fst e < c")
    case True
    with Cons show ?thesis by simp
  next
    case False
    with Cons.prems have "filter (\<lambda>e. c \<le> fst e) es = es" by (force simp: filter_id_conv)
    with False show ?thesis by simp
  qed
qed simp

lemma evict_recent:
  assumes "wf_window w" "sorted (map fst (entries w))"
  shows "entries (window_evict d now w) = filter (\<lambda>e. now \<le> fst e + d) (entries w)"
proof (cases "now < d")
  case True
  then show ?thesis by (simp add: window_evict_spec(1) [OF assms(1)] less_imp_le_nat trans_le_add2)
next
  case False
  then have "(\<lambda>e. now - d \<le> fst e) = (\<lambda>e :: instant \<times> bool. now \<le> fst e + d)"
    by (auto simp: fun_eq_iff)
  with False show ?thesis
    by (simp add: window_evict_spec(1) [OF assms(1)] dropWhile_sorted_filter assms(2))
qed

text \<open>The entries of the window are a capped log.\<close>

interpretation window_log:
  capped_log "\<lambda>es e. entries (window_push (snd e) (fst e) \<lparr>entries = es, failures = count_failures es\<rparr>)"
    MAX_WINDOW_ENTRIES
  by unfold_locales (simp add: entries_push)

text \<open>The rate reaches one half exactly when at least half of the samples failed.\<close>

lemma error_rate_half:
  assumes "wf_window w"
  shows "f64_ge (window_error_rate w) (Fin (1 / 2)) \<longleftrightarrow>
           entries w \<noteq> [] \<and> length (entries w) \<le> 2 * count_failures (entries w)"
proof (cases "entries w = []")
  case True
  then show ?thesis by (simp add: window_error_rate_def)
next
  case False
  have "length (entries w) \<le> 2 ^ 52"
    using assms by (simp add: wf_window_def MAX_WINDOW_ENTRIES_def)
  then show ?thesis
    using False assms div_f64_half_ge [of "length (entries w)" "failures w"]
      div_f64_half_less [of "failures w" "length (entries w)"]
    by (auto simp: window_error_rate_def wf_window_def not_le [symmetric])
qed

end
