(* ===== verification/BreakerConfig.thy ===== *)
theory BreakerConfig
  imports Window
begin

text \<open>
  Tuning of the circuit breaker and of HTTP retries (\<^verbatim>\<open>ds-circuit-breaker/src/config.rs\<close>,
  \<^verbatim>\<open>retry_policy.rs\<close>): the two presets, loading from environment variables and the
  classification of response codes.
\<close>

section \<open>Breaker configuration\<close>

record breaker_config =
  window_duration :: duration
  min_samples :: nat
  error_rate_threshold :: f64
  open_duration :: duration
  half_open_max_probes :: nat
  failure_codes :: "nat set"
  enabled :: bool

definition DEFAULT_FAILURE_CODES :: "nat list" where
  "DEFAULT_FAILURE_CODES = [429, 500, 502, 503, 504]"

definition default_failure_codes :: "nat set" where
  "default_failure_codes = set DEFAULT_FAILURE_CODES"

definition config_server :: breaker_config where
  "config_server =
     \<lparr>window_duration = from_secs 60, min_samples = 10, error_rate_threshold = Fin (1 / 2),
      open_duration = from_secs 10, half_open_max_probes = 1,
      failure_codes = default_failure_codes, enabled = True\<rparr>"

definition config_client :: breaker_config where
  "config_client =
     \<lparr>window_duration = from_secs 60, min_samples = 5, error_rate_threshold = Fin (1 / 2),
      open_duration = from_secs 60, half_open_max_probes = 1,
      failure_codes = {401}, enabled = True\<rparr>"

text \<open>\<^verbatim>\<open>lookup_or\<close> is generic in a \<^verbatim>\<open>FromStr\<close> type; its parser is an argument here.\<close>

definition lookup_or :: "(rstr \<Rightarrow> 'a option) \<Rightarrow> (rstr \<Rightarrow> rstr option) \<Rightarrow> rstr \<Rightarrow> 'a \<Rightarrow> 'a" where
  "lookup_or parse get key dflt =
     (case get key of
        Some v \<Rightarrow> (case parse v of Some parsed \<Rightarrow> parsed | None \<Rightarrow> dflt)
      | None \<Rightarrow> dflt)"

definition parse_failure_codes :: "rstr \<Rightarrow> nat set" where
  "parse_failure_codes s = set (List.map_filter (\<lambda>c. parse_unsigned 16 (trim c)) (split_on 44 s))"

definition from_lookup_with_prefix ::
  "(rstr \<Rightarrow> f64 option) \<Rightarrow> rstr \<Rightarrow> (rstr \<Rightarrow> rstr option) \<Rightarrow> breaker_config" where
  "from_lookup_with_prefix parse_f64 pre get =
     (let key = (\<lambda>k. pre @ lit k);
          codes = (case get (key ''FAILURE_CODES'') of
                     Some raw \<Rightarrow>
                       (let codes = parse_failure_codes raw
                        in if codes = {} then default_failure_codes else codes)
                   | None \<Rightarrow> default_failure_codes)
      in \<lparr>window_duration = from_secs (lookup_or (parse_unsigned 64) get (key ''WINDOW_SECS'') 60),
          min_samples = lookup_or (parse_unsigned 64) get (key ''MIN_SAMPLES'') 10,
          error_rate_threshold = lookup_or parse_f64 get (key ''ERROR_RATE_THRESHOLD'') (Fin (1 / 2)),
          open_duration = from_secs (lookup_or (parse_unsigned 64) get (key ''OPEN_DURATION_SECS'') 10),
          half_open_max_probes =
            max (lookup_or (parse_unsigned 64) get (key ''HALF_OPEN_MAX_PROBES'') 1) 1,
          failure_codes = codes,
          enabled = lookup_or parse_bool get (key ''ENABLED'') True\<rparr>)"

definition is_failure_status :: "breaker_config \<Rightarrow> nat \<Rightarrow> bool" where
  "is_failure_status c status \<longleftrightarrow> status \<in> failure_codes c"

lemma default_failure_codes_ne: "default_failure_codes \<noteq> {}"
  by (simp add: default_failure_codes_def DEFAULT_FAILURE_CODES_def)

lemma parse_failure_codes_u16: "c \<in> parse_failure_codes s \<Longrightarrow> c < 65536"
  using parse_unsigned_bound [of 16 _ c] by (auto simp: parse_failure_codes_def map_filter_def)

section \<open>Retry policy\<close>

datatype disposition = Retryable | AuthRefresh | Terminal

record retry_policy =
  retryable :: "nat list"
  auth_refresh :: "nat list"
  terminal :: "nat list"
  default_disposition :: disposition

definition classify :: "retry_policy \<Rightarrow> nat \<Rightarrow> disposition option" where
  "classify p status =
     (if 200 \<le> status \<and> status < 300 then None
      else if status \<in> set (auth_refresh p) then Some AuthRefresh
      else if status \<in> set (terminal p) then Some Terminal
      else if status \<in> set (retryable p) \<or> (500 \<le> status \<and> status < 600) then Some Retryable
      else Some (default_disposition p))"

definition should_retry :: "retry_policy \<Rightarrow> nat \<Rightarrow> bool" where
  "should_retry p status \<longleftrightarrow> classify p status = Some Retryable"

definition policy_server :: retry_policy where
  "policy_server = \<lparr>retryable = [429], auth_refresh = [], terminal = [], default_disposition = Terminal\<rparr>"

definition policy_client_storage :: retry_policy where
  "policy_client_storage =
     \<lparr>retryable = [], auth_refresh = [401], terminal = [400, 403, 404],
      default_disposition = Retryable\<rparr>"

end
