(* ===== verification/Breaker.thy ===== *)
theory Breaker
  imports BreakerConfig
begin

text \<open>
  The circuit breaker itself (\<^verbatim>\<open>ds-circuit-breaker/src/breaker.rs\<close>, \<^verbatim>\<open>state.rs\<close>,
  \<^verbatim>\<open>observer.rs\<close>, \<^verbatim>\<open>registry.rs\<close>). The atomics and the locked window are the fields of one
  record. Every method takes the clock readings it makes, \<open>clk 0\<close>, \<open>clk 1\<close>, \dots, and returns the
  calls it makes to the observer, in order. \<open>check\<close> takes in addition \<open>env\<close>: \<open>env 0\<close> is what
  other threads do to the shared fields between its loads and its compare-and-swap, \<open>env 1\<close> what
  they do between a failed compare-and-swap and the reload; both are the identity in a
  single-threaded run.
\<close>

section \<open>State\<close>

datatype breaker_state = Closed | Open | HalfOpen

datatype outcome = Success | Failure

datatype breaker_open = BreakerOpen (retry_after: duration)

fun as_u8 :: "breaker_state \<Rightarrow> nat" where
  "as_u8 Closed = 0"
| "as_u8 Open = 1"
| "as_u8 HalfOpen = 2"

definition from_u8 :: "nat \<Rightarrow> breaker_state" where
  "from_u8 v = (if v = 0 then Closed else if v = 1 then Open else if v = 2 then HalfOpen else Closed)"

datatype observation =
    StateChange breaker_state breaker_state string
  | ProbeAdmission bool
  | OnOutcome outcome breaker_state

record breaker =
  config :: breaker_config
  state_u8 :: nat
  baseline :: instant
  opened_at_millis :: nat
  half_open_probes :: nat
  probe_claimed_at_millis :: nat
  is_open_fast :: bool
  window :: sliding_window

type_synonym clock = "nat \<Rightarrow> instant"
type_synonym interference = "nat \<Rightarrow> breaker \<Rightarrow> breaker"
type_synonym check_result = "(breaker_open + unit) \<times> breaker \<times> observation list"

section \<open>Operations\<close>

definition with_clock :: "breaker_config \<Rightarrow> instant \<Rightarrow> breaker" where
  "with_clock cfg now =
     \<lparr>config = cfg\<lparr>half_open_max_probes := max (half_open_max_probes cfg) 1\<rparr>,
      state_u8 = as_u8 Closed, baseline = now, opened_at_millis = 0, half_open_probes = 0,
      probe_claimed_at_millis = 0, is_open_fast = False, window = window_new\<rparr>"

definition state :: "breaker \<Rightarrow> breaker_state" where
  "state b = from_u8 (state_u8 b)"

definition is_open :: "breaker \<Rightarrow> bool" where
  "is_open b = is_open_fast b"

definition elapsed_millis :: "breaker \<Rightarrow> instant \<Rightarrow> nat" where
  "elapsed_millis b now = as_millis (now - baseline b) mod 2 ^ 64"

definition trip :: "breaker_state \<Rightarrow> string \<Rightarrow> instant \<Rightarrow> breaker \<Rightarrow> breaker \<times> observation list" where
  "trip prev reason now b =
     (b\<lparr>state_u8 := as_u8 Open, opened_at_millis := elapsed_millis b now,
        half_open_probes := 0, is_open_fast := True\<rparr>,
      if prev \<noteq> Open then [StateChange prev Open reason] else [])"

definition close_breaker :: "breaker_state \<Rightarrow> string \<Rightarrow> breaker \<Rightarrow> breaker \<times> observation list" where
  "close_breaker prev reason b =
     (b\<lparr>state_u8 := as_u8 Closed, window := window_clear (window b),
        half_open_probes := 0, is_open_fast := False\<rparr>,
      if prev \<noteq> Closed then [StateChange prev Closed reason] else [])"

definition HALF_OPEN_PROBE_BACKOFF :: duration where
  "HALF_OPEN_PROBE_BACKOFF = from_millis 50"

text \<open>
  The compare-and-swap on the claim time is the last step of a call; it succeeds when no other
  thread has moved the claim since it was loaded, which \<open>cas\<close> says.
\<close>

definition try_half_open_probe :: "bool \<Rightarrow> instant \<Rightarrow> breaker \<Rightarrow> check_result" where
  "try_half_open_probe cas t b =
     (let now = elapsed_millis b t;
          prev = half_open_probes b
      in if prev < half_open_max_probes (config b) then
           (Inr (), b\<lparr>half_open_probes := usize_inc prev, probe_claimed_at_millis := now\<rparr>,
            [ProbeAdmission True])
         else
           let b1 = b\<lparr>half_open_probes := usize_dec (usize_inc prev)\<rparr>;
               lease_millis = as_millis (open_duration (config b)) mod 2 ^ 64;
               claimed = probe_claimed_at_millis b
           in if lease_millis \<le> now - claimed \<and> cas then
                (Inr (), b1\<lparr>probe_claimed_at_millis := now\<rparr>, [ProbeAdmission True])
              else
                (Inl (BreakerOpen (min HALF_OPEN_PROBE_BACKOFF (open_duration (config b)))), b1,
                 [ProbeAdmission False]))"

definition check_open :: "interference \<Rightarrow> bool \<Rightarrow> clock \<Rightarrow> breaker \<Rightarrow> check_result" where
  "check_open env cas clk b =
     (let opened = opened_at_millis b;
          now = elapsed_millis b (clk 0);
          elapsed = from_millis (now - opened)
      in if open_duration (config b) \<le> elapsed then
           let b1 = env 0 b
           in if state_u8 b1 = as_u8 Open then
                (let b2 = b1\<lparr>state_u8 := as_u8 HalfOpen, is_open_fast := False\<rparr>;
                     (r, b3, obs) = try_half_open_probe cas (clk 1) b2
                 in (r, b3, StateChange Open HalfOpen ''open_elapsed'' # obs))
              else
                let b2 = env 1 b1
                in (case state b2 of
                      Closed \<Rightarrow> (Inr (), b2, [])
                    | HalfOpen \<Rightarrow> try_half_open_probe cas (clk 1) b2
                    | Open \<Rightarrow>
                        (Inl (BreakerOpen (open_duration (config b2) -
                                from_millis (elapsed_millis b2 (clk 1) - opened_at_millis b2))),
                         b2, []))
         else (Inl (BreakerOpen (open_duration (config b) - elapsed)), b, []))"

definition check :: "interference \<Rightarrow> bool \<Rightarrow> clock \<Rightarrow> breaker \<Rightarrow> check_result" where
  "check env cas clk b =
     (if \<not> enabled (config b) then (Inr (), b, [])
      else (case state b of
              Closed \<Rightarrow> (Inr (), b, [])
            | Open \<Rightarrow> check_open env cas clk b
            | HalfOpen \<Rightarrow> try_half_open_probe cas (clk 0) b))"

definition add_sample :: "bool \<Rightarrow> instant \<Rightarrow> breaker \<Rightarrow> breaker" where
  "add_sample is_failure now b =
     b\<lparr>window := window_evict (window_duration (config b)) now (window_push is_failure now (window b))\<rparr>"

definition record_outcome :: "clock \<Rightarrow> outcome \<Rightarrow> breaker \<Rightarrow> breaker \<times> observation list" where
  "record_outcome clk out b =
     (if \<not> enabled (config b) then (b, [])
      else
        let is_failure = (out = Failure);
            now = clk 0;
            prev_state = state b;
            (b', obs) =
              (case prev_state of
                 Closed \<Rightarrow>
                   (let b1 = add_sample is_failure now b;
                        should_trip =
                          min_samples (config b) \<le> sample_count (window b1) \<and>
                          f64_ge (window_error_rate (window b1)) (error_rate_threshold (config b))
                    in if should_trip then trip prev_state ''trip'' (clk 1) b1 else (b1, []))
               | HalfOpen \<Rightarrow>
                   (if is_failure then trip prev_state ''probe_failure'' (clk 1) b
                    else close_breaker prev_state ''probe_success'' b)
               | Open \<Rightarrow> (add_sample is_failure now b, []))
        in (b', obs @ [OnOutcome out (state b')]))"

definition error_rate :: "clock \<Rightarrow> breaker \<Rightarrow> f64 \<times> breaker" where
  "error_rate clk b =
     (let w = window_evict (window_duration (config b)) (clk 0) (window b)
      in (window_error_rate w, b\<lparr>window := w\<rparr>))"

definition force_half_open :: "breaker \<Rightarrow> breaker \<times> observation list" where
  "force_half_open b =
     (let prev = state b
      in (b\<lparr>state_u8 := as_u8 HalfOpen, is_open_fast := False, half_open_probes := 0\<rparr>,
          if prev \<noteq> HalfOpen then [StateChange prev HalfOpen ''force_half_open''] else []))"

section \<open>Registry\<close>

text \<open>
  A handle is a reference to a breaker in a store, as an \<^verbatim>\<open>Arc\<close> is; \<open>next_ref\<close> is the next
  fresh reference.
\<close>

record registry =
  reg_config :: breaker_config
  breakers :: "rstr \<rightharpoonup> nat"
  store :: "nat \<rightharpoonup> breaker"
  next_ref :: nat

definition registry_new :: "breaker_config \<Rightarrow> registry" where
  "registry_new cfg = \<lparr>reg_config = cfg, breakers = Map.empty, store = Map.empty, next_ref = 0\<rparr>"

definition registry_get :: "instant \<Rightarrow> rstr \<Rightarrow> registry \<Rightarrow> nat option \<times> registry" where
  "registry_get now key r =
     (if \<not> enabled (reg_config r) then (None, r)
      else (case breakers r key of
              Some cb \<Rightarrow> (Some cb, r)
            | None \<Rightarrow>
                (let cb = next_ref r
                 in (Some cb, r\<lparr>breakers := (breakers r)(key \<mapsto> cb),
                                 store := (store r)(cb \<mapsto> with_clock (reg_config r) now),
                                 next_ref := Suc cb\<rparr>))))"


section \<open>The invariant\<close>

definition breaker_inv :: "breaker \<Rightarrow> bool" where
  "breaker_inv b \<longleftrightarrow>
     state_u8 b \<le> 2 \<and> (is_open_fast b \<longleftrightarrow> state_u8 b = 1) \<and> wf_window (window b)
     \<and> 1 \<le> half_open_max_probes (config b) \<and> half_open_max_probes (config b) < 2 ^ 64
     \<and> (state b \<noteq> HalfOpen \<longrightarrow> half_open_probes b = 0)
     \<and> half_open_probes b \<le> half_open_max_probes (config b)"

lemma from_u8_as_u8 [simp]: "from_u8 (as_u8 s) = s"
  by (cases s) (simp_all add: from_u8_def)

lemma from_u8_simps [simp]: "from_u8 0 = Closed" "from_u8 (Suc 0) = Open" "from_u8 2 = HalfOpen"
  by (simp_all add: from_u8_def)

lemma state_eq_iff: "breaker_inv b \<Longrightarrow> state b = s \<longleftrightarrow> state_u8 b = as_u8 s"
  by (cases s) (auto simp: breaker_inv_def state_def from_u8_def)

lemma usize_dec_inc [simp]: "n < 2 ^ 64 \<Longrightarrow> usize_dec (usize_inc n) = n"
proof (cases "n = 2 ^ 64 - 1")
  case True
  then show ?thesis by (simp add: usize_inc_def usize_dec_def)
next
  case False
  assume "n < 2 ^ 64"
  with False have "n < 2 ^ 64 - 1" by simp
  then show ?thesis by simp
qed

lemma breaker_inv_with_clock [inv_intros]:
  "half_open_max_probes cfg < 2 ^ 64 \<Longrightarrow> breaker_inv (with_clock cfg t)"
  by (simp add: breaker_inv_def with_clock_def state_def wf_window_new)

lemma breaker_inv_trip [inv_intros]: "breaker_inv b \<Longrightarrow> breaker_inv (fst (trip prev reason t b))"
  by (simp add: breaker_inv_def trip_def)

lemma breaker_inv_close [inv_intros]: "breaker_inv b \<Longrightarrow> breaker_inv (fst (close_breaker prev reason b))"
  by (simp add: breaker_inv_def close_breaker_def wf_window_clear)

lemma breaker_inv_add_sample [inv_intros]: "breaker_inv b \<Longrightarrow> breaker_inv (add_sample f t b)"
  by (simp add: breaker_inv_def add_sample_def state_def wf_window_push wf_window_evict)

lemma breaker_inv_error_rate [inv_intros]: "breaker_inv b \<Longrightarrow> breaker_inv (snd (error_rate clk b))"
  by (simp add: breaker_inv_def error_rate_def Let_def state_def wf_window_evict)

lemma breaker_inv_force_half_open [inv_intros]:
  "breaker_inv b \<Longrightarrow> breaker_inv (fst (force_half_open b))"
  by (simp add: breaker_inv_def force_half_open_def Let_def)

lemma probe_frame:
  "state_u8 (fst (snd (try_half_open_probe cas t b))) = state_u8 b"
  "window (fst (snd (try_half_open_probe cas t b))) = window b"
  "is_open_fast (fst (snd (try_half_open_probe cas t b))) = is_open_fast b"
  "config (fst (snd (try_half_open_probe cas t b))) = config b"
  by (simp_all add: try_half_open_probe_def Let_def)

lemma breaker_inv_probe [inv_intros]:
  assumes "breaker_inv b" "state b = HalfOpen"
  shows "breaker_inv (fst (snd (try_half_open_probe cas t b)))"
proof -
  have "half_open_probes (fst (snd (try_half_open_probe cas t b))) \<le> half_open_max_probes (config b)"
    using assms by (auto simp: breaker_inv_def try_half_open_probe_def Let_def)
  with assms show ?thesis by (simp add: breaker_inv_def probe_frame state_def)
qed

lemma breaker_inv_half_open [inv_intros]:
  "breaker_inv b \<Longrightarrow> breaker_inv (b\<lparr>state_u8 := as_u8 HalfOpen, is_open_fast := False\<rparr>)"
  by (auto simp: breaker_inv_def state_def)

lemma breaker_inv_check_open:
  assumes "breaker_inv b" "\<And>b i. breaker_inv b \<Longrightarrow> breaker_inv (env i b)"
  shows "breaker_inv (fst (snd (check_open env cas clk b)))"
proof -
  let ?b1 = "env 0 b" and ?b2 = "env 1 (env 0 b)"
  let ?h = "?b1\<lparr>state_u8 := as_u8 HalfOpen, is_open_fast := False\<rparr>"
  have h: "breaker_inv ?h" "state ?h = HalfOpen"
    using assms breaker_inv_half_open by (auto simp: state_def)
  have "breaker_inv (fst (snd (try_half_open_probe cas (clk 1) ?h)))"
    using h by (rule breaker_inv_probe)
  moreover have "breaker_inv ?b2" using assms by blast
  ultimately show ?thesis
    using assms breaker_inv_probe [of ?b2 cas "clk 1"]
    by (auto simp: check_open_def Let_def split: prod.splits breaker_state.splits)
qed

lemma breaker_inv_check [inv_intros]:
  assumes "breaker_inv b" "\<And>b i. breaker_inv b \<Longrightarrow> breaker_inv (env i b)"
  shows "breaker_inv (fst (snd (check env cas clk b)))"
  using assms breaker_inv_check_open [OF assms] breaker_inv_probe [OF assms(1)]
  by (auto simp: check_def split: breaker_state.splits)

lemma breaker_inv_record [inv_intros]:
  assumes "breaker_inv b"
  shows "breaker_inv (fst (record_outcome clk out b))"
  using assms
  by (auto simp: record_outcome_def Let_def intro!: breaker_inv_trip breaker_inv_close
      breaker_inv_add_sample split: breaker_state.splits prod.splits dest!: arg_cong [where f = fst])

text \<open>
  A run of the breaker. A \<open>check\<close> carries the operations that other threads complete in its two
  gaps, so a run covers lost compare-and-swap races as well.
\<close>

datatype breaker_op =
    OpCheck "breaker_op list" "breaker_op list" bool clock
  | OpRecord clock outcome
  | OpErrorRate clock
  | OpForceHalfOpen

fun breaker_step :: "breaker \<Rightarrow> breaker_op \<Rightarrow> breaker" where
  "breaker_step b (OpCheck before after cas clk) =
     fst (snd (check (\<lambda>i c. if i = 0 then foldl breaker_step c before else foldl breaker_step c after)
                cas clk b))"
| "breaker_step b (OpRecord clk out) = fst (record_outcome clk out b)"
| "breaker_step b (OpErrorRate clk) = snd (error_rate clk b)"
| "breaker_step b OpForceHalfOpen = fst (force_half_open b)"

lemma foldl_inv: "P b \<Longrightarrow> (\<And>c x. x \<in> set xs \<Longrightarrow> P c \<Longrightarrow> P (f c x)) \<Longrightarrow> P (foldl f b xs)"
  by (induction xs arbitrary: b) auto

lemma breaker_inv_step: "breaker_inv b \<Longrightarrow> breaker_inv (breaker_step b op)"
proof (induction b op rule: breaker_step.induct)
  case (1 b before after cas clk)
  then show ?case
    by (auto intro!: breaker_inv_check foldl_inv [where P = breaker_inv])
qed (auto intro: inv_intros)

interpretation breaker_machine: invariant_machine breaker_step breaker_inv
  by unfold_locales (rule breaker_inv_step)

end
