(* ===== verification/BreakerProps.thy ===== *)
theory BreakerProps
  imports Breaker
begin

text \<open>
  What the circuit breaker promises: when it trips, how long it sheds traffic, that it always
  recovers, how many probes it lets through, and that the registry hands out one breaker per key.
\<close>

section \<open>Reachable breakers\<close>



section \<open>Tripping\<close>

text \<open>With the threshold one half of both presets, a closed breaker that records an outcome
  trips exactly when, of the samples of the last \<open>window_duration\<close> (among the newest 10000, the
  new one included), there are at least \<open>min_samples\<close> and at least half failed; otherwise it stays
  closed with just these samples. The rate is compared in double precision, with its rounding.\<close>

theorem record_trips_iff_half_failed:
  fixes b clk out
  assumes "breaker_inv b" "enabled (config b)" "state b = Closed"
    and "error_rate_threshold (config b) = Fin (1 / 2)"
    and "sorted (map fst (entries (window b)))" "\<forall>e \<in> set (entries (window b)). fst e \<le> clk 0"
  defines "recent \<equiv> filter (\<lambda>e. clk 0 \<le> fst e + window_duration (config b))
             (newest 10000 (entries (window b) @ [(clk 0, out = Failure)]))"
    and "b' \<equiv> fst (record_outcome clk out b)"
  shows "state b' = (if min_samples (config b) \<le> length recent \<and>
                        length recent \<le> 2 * count_failures recent then Open else Closed)
     \<and> entries (window b') = recent"
proof -
  let ?w = "window_push (out = Failure) (clk 0) (window b)"
  let ?b1 = "add_sample (out = Failure) (clk 0) b"
  have wf: "wf_window (window b)" using assms(1) by (simp add: breaker_inv_def)
  have es: "entries ?w = newest 10000 (entries (window b) @ [(clk 0, out = Failure)])"
    using wf by (simp add: entries_push wf_window_def MAX_WINDOW_ENTRIES_def)
  have "sorted (map fst (entries (window b) @ [(clk 0, out = Failure)]))"
    using assms(5,6) by (simp add: sorted_append)
  then have "sorted (map fst (entries ?w))"
    unfolding es by (rule sorted_newest)
  then have rec: "entries (window ?b1) = recent"
    by (simp add: add_sample_def evict_recent wf_window_push [OF wf] es recent_def)
  have "(clk 0, out = Failure) \<in> set (entries ?w)"
    by (simp add: es newest_def)
  then have "(clk 0, out = Failure) \<in> set recent" by (simp add: recent_def es)
  then have ne: "recent \<noteq> []" by auto
  have "wf_window (window ?b1)"
    by (simp add: add_sample_def wf_window_push wf wf_window_evict)
  from error_rate_half [OF this] have half:
    "f64_ge (window_error_rate (window ?b1)) (Fin (1 / 2)) \<longleftrightarrow> length recent \<le> 2 * count_failures recent"
    by (simp add: rec ne)
  have st: "state ?b1 = Closed" using assms(3) by (simp add: add_sample_def state_def)
  show ?thesis
    using assms(2,3,4) half rec st
    by (auto simp: b'_def record_outcome_def Let_def trip_def state_def sample_count_def
        split: prod.splits)
qed

definition sick_breaker :: breaker where
  "sick_breaker =
     (with_clock (config_client\<lparr>min_samples := 2\<rparr>) 0)
       \<lparr>window := \<lparr>entries = [(1, False), (70000000000, True)], failures = 1\<rparr>\<rparr>"

lemma record_trips_iff_half_failed_witness:
  "state (fst (record_outcome (\<lambda>_. 90000000000) Failure sick_breaker)) = Open"
proof -
  have "breaker_inv sick_breaker"
    by (simp add: breaker_inv_def sick_breaker_def with_clock_def wf_window_def state_def
        config_client_def MAX_WINDOW_ENTRIES_def)
  moreover have "enabled (config sick_breaker)" "state sick_breaker = Closed"
    "error_rate_threshold (config sick_breaker) = Fin (1 / 2)"
    "sorted (map fst (entries (window sick_breaker)))"
    "\<forall>e \<in> set (entries (window sick_breaker)). fst e \<le> (\<lambda>_. 90000000000) (0 :: nat)"
    by (simp_all add: sick_breaker_def with_clock_def config_client_def state_def)
  ultimately show ?thesis
    using record_trips_iff_half_failed [of sick_breaker "\<lambda>_. 90000000000" Failure]
    by (simp add: sick_breaker_def with_clock_def config_client_def from_secs_def newest_def)
qed

section \<open>Shedding and recovering\<close>

lemma ms_diff_less:
  assumes "t \<le> t'" "t' - t + 1000000 \<le> d"
  shows "from_millis (as_millis (t' - s) - as_millis (t - s)) < d"
proof -
  define x y where "x = t - s" and "y = t' - s"
  have xy: "x \<le> y" "y - x \<le> t' - t" using assms(1) by (auto simp: x_def y_def)
  have "y div 1000000 * 1000000 \<le> y" by simp
  moreover have "x < x div 1000000 * 1000000 + 1000000"
    by (metis div_mult_mod_eq add_strict_left_mono mod_less_divisor zero_less_numeral)
  ultimately have "(y div 1000000 - x div 1000000) * 1000000 < y - x + 1000000"
    unfolding diff_mult_distrib using xy(1) by linarith
  also have "\<dots> \<le> d" using xy(2) assms(2) by linarith
  finally show ?thesis by (simp add: from_millis_def as_millis_def x_def y_def)
qed

text \<open>Once tripped, the breaker rejects every \<open>check\<close> for the whole cool-down (less the one
  millisecond of its clock's resolution): the caller is told to wait a positive time of at most
  \<open>open_duration\<close>, and the breaker does not change.\<close>

theorem open_breaker_sheds:
  fixes b t clk prev reason
  assumes "enabled (config b)" "t \<le> clk 0" "clk 0 - t + 1000000 \<le> open_duration (config b)"
    and "as_millis (clk 0 - baseline b) < 2 ^ 64"
  defines "b' \<equiv> fst (trip prev reason t b)"
  shows "\<exists>d. check env cas clk b' = (Inl (BreakerOpen d), b', []) \<and> 0 < d \<and> d \<le> open_duration (config b)"
proof -
  have "as_millis (t - baseline b) \<le> as_millis (clk 0 - baseline b)"
    using assms(2) by (simp add: as_millis_def div_le_mono diff_le_mono)
  with assms(4) have "from_millis (elapsed_millis b' (clk 0) - opened_at_millis b') < open_duration (config b)"
    using ms_diff_less [OF assms(2,3), of "baseline b"]
    by (simp add: b'_def trip_def elapsed_millis_def)
  moreover have "state b' = Open" "config b' = config b"
    by (simp_all add: b'_def trip_def state_def)
  ultimately show ?thesis
    using assms(1) by (auto simp: check_def check_open_def Let_def)
qed

lemma open_breaker_sheds_witness:
  "\<exists>d. check (\<lambda>_ c. c) True (\<lambda>_. 2000000) (fst (trip Closed ''trip'' 1000000 sick_breaker)) =
         (Inl (BreakerOpen d), fst (trip Closed ''trip'' 1000000 sick_breaker), []) \<and>
       0 < d \<and> d \<le> 60000000000"
  using open_breaker_sheds [where b = sick_breaker and t = 1000000 and clk = "\<lambda>_. 2000000"
    and prev = Closed and reason = "''trip''" and env = "\<lambda>_ c. c" and cas = True]
  by (simp add: sick_breaker_def with_clock_def config_client_def from_secs_def as_millis_def)

text \<open>C4: the breaker never strands: once \<open>open_duration\<close> has passed since it tripped, or since the
  last probe slot was claimed in \<open>HalfOpen\<close> (the probe may have been dropped without an outcome),
  the next \<open>check\<close> is admitted as a probe.\<close>

theorem recovery_never_stranded:
  assumes "breaker_inv b" "state b \<noteq> Closed"
    and "open_duration (config b) \<le>
           from_millis (elapsed_millis b (clk 0) -
             (if state b = Open then opened_at_millis b else probe_claimed_at_millis b))"
  shows "fst (check (\<lambda>_ c. c) True clk b) = Inr ()
    \<and> (enabled (config b) \<longrightarrow> state (fst (snd (check (\<lambda>_ c. c) True clk b))) = HalfOpen)"
proof (cases "state b = Open")
  case True
  then have "state_u8 b = 1" "half_open_probes b < half_open_max_probes (config b)"
    using assms(1) state_eq_iff [OF assms(1), of Open] by (auto simp: breaker_inv_def)
  with True assms(3) show ?thesis
    by (auto simp: check_def check_open_def try_half_open_probe_def Let_def state_def)
next
  case False
  then have half: "state b = HalfOpen" using assms(2) by (cases "state b") auto
  have "as_millis (open_duration (config b)) mod 2 ^ 64 \<le> as_millis (open_duration (config b))"
    by simp
  also have "\<dots> \<le> elapsed_millis b (clk 0) - probe_claimed_at_millis b"
    using div_le_mono [OF assms(3), of 1000000] False by (simp add: as_millis_def from_millis_def)
  finally show ?thesis
    using half by (auto simp: check_def try_half_open_probe_def Let_def state_def)
qed

lemma recovery_never_stranded_witness:
  "fst (check (\<lambda>_ c. c) True (\<lambda>_. 60000000000) (fst (trip Closed ''trip'' 0 sick_breaker))) = Inr ()"
proof -
  let ?b = "fst (trip Closed ''trip'' 0 sick_breaker)"
  have "breaker_inv ?b" "state ?b = Open"
    by (simp_all add: breaker_inv_def trip_def sick_breaker_def with_clock_def wf_window_def state_def
        config_client_def MAX_WINDOW_ENTRIES_def)
  then show ?thesis
    using recovery_never_stranded [of ?b "\<lambda>_. 60000000000"]
    by (simp add: sick_breaker_def trip_def with_clock_def config_client_def from_secs_def
        elapsed_millis_def from_millis_def as_millis_def)
qed

text \<open>The outcomes of a row of checks of one breaker, made by one thread.\<close>

fun admissions :: "instant list \<Rightarrow> breaker \<Rightarrow> bool list" where
  "admissions [] b = []"
| "admissions (t # ts) b =
     (case check (\<lambda>_ c. c) True (\<lambda>_. t) b of (r, b', _) \<Rightarrow> (r = Inr ()) # admissions ts b')"

lemma admissions_budget:
  assumes "enabled (config b)" "state b = HalfOpen" "breaker_inv b"
    and "half_open_probes b = 0 \<or> T \<le> probe_claimed_at_millis b"
    and "\<forall>t \<in> set ts. T \<le> elapsed_millis b t \<and>
           elapsed_millis b t < T + as_millis (open_duration (config b)) mod 2 ^ 64"
  shows "admissions ts b =
           replicate (min (length ts) (half_open_max_probes (config b) - half_open_probes b)) True @
           replicate (length ts - (half_open_max_probes (config b) - half_open_probes b)) False"
  using assms
proof (induction ts arbitrary: b)
  case (Cons t ts)
  let ?max = "half_open_max_probes (config b)" and ?p = "half_open_probes b"
  let ?b' = "fst (snd (check (\<lambda>_ c. c) True (\<lambda>_. t) b))"
  have chk: "check (\<lambda>_ c. c) True (\<lambda>_. t) b = try_half_open_probe True t b"
    using Cons.prems(1,2) by (simp add: check_def)
  have frame: "enabled (config ?b')" "state ?b' = HalfOpen" "breaker_inv ?b'" "config ?b' = config b"
    "baseline ?b' = baseline b"
    using Cons.prems(1,2,3) breaker_inv_probe [of b True t]
    by (auto simp: chk probe_frame state_def) (simp add: try_half_open_probe_def Let_def)
  have el: "elapsed_millis ?b' u = elapsed_millis b u" for u by (simp add: elapsed_millis_def frame)
  have lt64: "?max < 2 ^ 64" "?p \<le> ?max" "1 \<le> ?max" using Cons.prems(3) by (auto simp: breaker_inv_def)
  show ?case
  proof (cases "?p < ?max")
    case True
    then have r: "check (\<lambda>_ c. c) True (\<lambda>_. t) b =
        (Inr (), b\<lparr>half_open_probes := Suc ?p, probe_claimed_at_millis := elapsed_millis b t\<rparr>,
         [ProbeAdmission True])"
      using lt64 by (simp add: chk try_half_open_probe_def)
    have "admissions ts ?b' = replicate (min (length ts) (?max - Suc ?p)) True @
           replicate (length ts - (?max - Suc ?p)) False"
      using Cons.IH [of ?b'] Cons.prems(5) frame el by (simp add: r)
    moreover obtain m where "?max - ?p = Suc m" "?max - Suc ?p = m" using True
      by (metis Suc_diff_Suc)
    ultimately show ?thesis by (simp add: r)
  next
    case False
    with lt64 Cons.prems(4) have "T \<le> probe_claimed_at_millis b" "?p = ?max" by auto
    with Cons.prems(5) have "\<not> as_millis (open_duration (config b)) mod 2 ^ 64
        \<le> elapsed_millis b t - probe_claimed_at_millis b" by auto
    then have r: "fst (check (\<lambda>_ c. c) True (\<lambda>_. t) b) \<noteq> Inr ()" "?b' = b"
      using False lt64 by (simp_all add: chk try_half_open_probe_def Let_def)
    have "admissions ts b = replicate (length ts) False"
      using Cons.IH [of b] Cons.prems \<open>?p = ?max\<close> by simp
    with r \<open>?p = ?max\<close> show ?thesis by (auto split: prod.splits)
  qed
qed simp

text \<open>After the cool-down the breaker lets exactly \<open>half_open_max_probes\<close> probes through: of any
  row of checks made within one lease (\<open>open_duration\<close>) without an outcome being recorded, the
  first ones up to that number are admitted and all later ones are rejected.\<close>

theorem probe_budget_exact:
  assumes "enabled (config b)" "state b = HalfOpen" "breaker_inv b" "half_open_probes b = 0"
    and "\<forall>t \<in> set ts. T \<le> elapsed_millis b t \<and>
           elapsed_millis b t < T + as_millis (open_duration (config b)) mod 2 ^ 64"
  shows "admissions ts b =
           replicate (min (length ts) (half_open_max_probes (config b))) True @
           replicate (length ts - half_open_max_probes (config b)) False"
  using admissions_budget [of b T ts] assms by simp

lemma probe_budget_exact_witness:
  "admissions [3000000, 4000000, 5000000] (fst (force_half_open sick_breaker)) = [True, False, False]"
proof -
  let ?b = "fst (force_half_open sick_breaker)"
  have "enabled (config ?b)" "state ?b = HalfOpen" "breaker_inv ?b" "half_open_probes ?b = 0"
    by (simp_all add: breaker_inv_def force_half_open_def sick_breaker_def with_clock_def wf_window_def
        state_def config_client_def MAX_WINDOW_ENTRIES_def Let_def)
  moreover have "half_open_max_probes (config ?b) = 1" "baseline ?b = 0"
    "open_duration (config ?b) = 60000000000"
    by (simp_all add: force_half_open_def Let_def sick_breaker_def with_clock_def config_client_def
        from_secs_def)
  moreover have "replicate 2 False = [False, False]" by (simp add: numeral_2_eq_2)
  ultimately show ?thesis
    using probe_budget_exact [of ?b "[3000000, 4000000, 5000000]" 0]
    by (simp add: elapsed_millis_def as_millis_def)
qed

section \<open>Configuration and registry\<close>

text \<open>Whatever the environment variables hold, the configuration read from them gives a
  consistent breaker: at least one probe slot, a non-empty set of failure codes that fit a
  \<open>u16\<close>.\<close>

theorem config_from_env_usable:
  "breaker_inv (with_clock (from_lookup_with_prefix parse_f64 pre get) t) \<and>
   failure_codes (from_lookup_with_prefix parse_f64 pre get) \<noteq> {} \<and>
   failure_codes (from_lookup_with_prefix parse_f64 pre get) \<subseteq> {..<65536}"
proof -
  have "lookup_or (parse_unsigned 64) get key 1 < 2 ^ 64" for key
    by (auto simp: lookup_or_def split: option.splits dest: parse_unsigned_bound)
  then have "half_open_max_probes (from_lookup_with_prefix parse_f64 pre get) < 2 ^ 64"
    by (simp add: from_lookup_with_prefix_def Let_def)
  then have "breaker_inv (with_clock (from_lookup_with_prefix parse_f64 pre get) t)"
    by (rule breaker_inv_with_clock)
  then show ?thesis
    using default_failure_codes_ne parse_failure_codes_u16
    by (auto simp: from_lookup_with_prefix_def Let_def default_failure_codes_def
        DEFAULT_FAILURE_CODES_def split: option.splits if_splits)
qed

definition registry_inv :: "registry \<Rightarrow> bool" where
  "registry_inv r \<longleftrightarrow>
     inj_on (breakers r) (dom (breakers r)) \<and>
     (\<forall>key cb. breakers r key = Some cb \<longrightarrow> cb < next_ref r \<and> cb \<in> dom (store r))"

lemma registry_inv_get: "registry_inv r \<Longrightarrow> registry_inv (snd (registry_get now key r))"
  by (auto simp: registry_inv_def registry_get_def Let_def inj_on_def split: option.splits) fastforce+

interpretation registry_machine:
  invariant_machine "\<lambda>r e. snd (registry_get (fst e) (snd e) r)" registry_inv
  by unfold_locales (rule registry_inv_get)

lemma registry_get_keeps:
  "breakers r k = Some cb \<Longrightarrow> breakers (snd (registry_get now key r)) k = Some cb"
  by (auto simp: registry_get_def Let_def split: option.splits)

lemma registry_get_config [simp]: "reg_config (snd (registry_get now key r)) = reg_config r"
  by (auto simp: registry_get_def Let_def split: option.splits)

lemma registry_gets_config [simp]:
  "reg_config (foldl (\<lambda>r e. snd (registry_get (fst e) (snd e) r)) r es) = reg_config r"
  by (induction es arbitrary: r) auto

lemma registry_gets_keep:
  "breakers r k = Some cb \<Longrightarrow>
   breakers (foldl (\<lambda>r e. snd (registry_get (fst e) (snd e) r)) r es) k = Some cb"
  by (induction es arbitrary: r) (auto intro: registry_get_keeps)

text \<open>An enabled registry hands out one breaker per key: looking a key up again, whatever other
  keys were looked up in between, gives the same breaker, and different keys give different ones.\<close>

theorem registry_one_breaker_per_key:
  fixes cfg es es' now key now' key'
  assumes "enabled cfg"
  defines "r1 \<equiv> foldl (\<lambda>r e. snd (registry_get (fst e) (snd e) r)) (registry_new cfg) es"
  defines "r2 \<equiv> foldl (\<lambda>r e. snd (registry_get (fst e) (snd e) r)) (snd (registry_get now key r1)) es'"
  shows "\<exists>cb. fst (registry_get now key r1) = Some cb \<and>
     (fst (registry_get now' key' r2) = Some cb \<longleftrightarrow> key' = key)"
proof -
  have "registry_inv (registry_new cfg)" by (simp add: registry_inv_def registry_new_def)
  then have inv1: "registry_inv r1" unfolding r1_def by (rule registry_machine.run_inv)
  have inv2: "registry_inv (snd (registry_get now' key' r2))"
    unfolding r2_def by (intro registry_inv_get registry_machine.run_inv inv1)
  have en1: "enabled (reg_config r1)" "enabled (reg_config r2)"
    using assms(1) by (simp_all add: r1_def r2_def registry_new_def)
  obtain cb where cb: "fst (registry_get now key r1) = Some cb"
    "breakers (snd (registry_get now key r1)) key = Some cb"
    using en1 by (cases "breakers r1 key") (auto simp: registry_get_def Let_def)
  have k2: "breakers r2 key = Some cb" unfolding r2_def by (rule registry_gets_keep) (rule cb)
  obtain cb' where cb': "fst (registry_get now' key' r2) = Some cb'"
    "breakers (snd (registry_get now' key' r2)) key' = Some cb'"
    using en1 by (cases "breakers r2 key'") (auto simp: registry_get_def Let_def)
  have "breakers (snd (registry_get now' key' r2)) key = Some cb" by (rule registry_get_keeps) (rule k2)
  with cb'(2) inv2 have "cb' = cb \<longleftrightarrow> key' = key"
    by (auto simp: registry_inv_def inj_on_def) (metis domI option.sel)
  with cb cb' show ?thesis by auto
qed

lemma registry_one_breaker_per_key_witness:
  "\<exists>cb. fst (registry_get 0 (lit ''a'') (registry_new config_server)) = Some cb \<and>
     fst (registry_get 7 (lit ''a'') (snd (registry_get 0 (lit ''a'') (registry_new config_server)))) = Some cb"
  using registry_one_breaker_per_key [of config_server 0 "lit ''a''" "[]" 7 "lit ''a''" "[]"]
  by (simp add: config_server_def)

end
