(* ===== verification/PatchParser.thy ===== *)
theory PatchParser
  imports Prelude
begin

text \<open>
  The parser of the patch language of the \<open>apply_patch\<close> tool
  (\<^verbatim>\<open>codex/apply_patch/errors.rs\<close>, \<^verbatim>\<open>parser.rs\<close>). A patch is read line by line; every operation
  returns how many lines it consumed. Strings are lists of Unicode scalar values, and slices of
  line arrays are suffixes of lists: that every slice the code takes is in range is part of
  \<open>parser_progress\<close>.
\<close>

section \<open>Errors and syntax trees\<close>

datatype parse_error =
    InvalidPatchError rstr
  | InvalidHunkError (message: rstr) (line_number: nat)

record update_file_chunk =
  change_context :: "rstr option"
  old_lines :: "rstr list"
  new_lines :: "rstr list"
  is_end_of_file :: bool

datatype hunk =
    AddFile rstr rstr
  | DeleteFile rstr
  | UpdateFile rstr "rstr option" "update_file_chunk list"

record parsed_patch =
  hunks :: "hunk list"
  patch :: rstr

datatype parse_mode = Strict | Lenient

section \<open>Markers\<close>

definition BEGIN_PATCH_MARKER :: rstr where
  "BEGIN_PATCH_MARKER = lit ''*** Begin Patch''"

definition END_PATCH_MARKER :: rstr where
  "END_PATCH_MARKER = lit ''*** End Patch''"

definition ADD_FILE_MARKER :: rstr where
  "ADD_FILE_MARKER = lit ''*** Add File: ''"

definition DELETE_FILE_MARKER :: rstr where
  "DELETE_FILE_MARKER = lit ''*** Delete File: ''"

definition UPDATE_FILE_MARKER :: rstr where
  "UPDATE_FILE_MARKER = lit ''*** Update File: ''"

definition MOVE_TO_MARKER :: rstr where
  "MOVE_TO_MARKER = lit ''*** Move to: ''"

definition EOF_MARKER :: rstr where
  "EOF_MARKER = lit ''*** End of File''"

definition CHANGE_CONTEXT_MARKER :: rstr where
  "CHANGE_CONTEXT_MARKER = lit ''@@ ''"

definition EMPTY_CHANGE_CONTEXT_MARKER :: rstr where
  "EMPTY_CHANGE_CONTEXT_MARKER = lit ''@@''"

definition PARSE_IN_STRICT_MODE :: bool where
  "PARSE_IN_STRICT_MODE = False"

lemmas marker_defs = BEGIN_PATCH_MARKER_def END_PATCH_MARKER_def ADD_FILE_MARKER_def
  DELETE_FILE_MARKER_def UPDATE_FILE_MARKER_def MOVE_TO_MARKER_def EOF_MARKER_def
  CHANGE_CONTEXT_MARKER_def EMPTY_CHANGE_CONTEXT_MARKER_def

text \<open>A quoted piece of a message.\<close>

abbreviation quoted :: "rstr \<Rightarrow> rstr" where
  "quoted s \<equiv> [39] @ s @ [39]"

section \<open>Chunks of an update\<close>

definition no_lines_message :: rstr where
  "no_lines_message = lit ''Update hunk does not contain any lines''"

text \<open>
  The loop over the lines of a chunk: \<open>n\<close> is \<^verbatim>\<open>parsed_lines\<close>, \<open>c\<close> the chunk read so far.
\<close>

fun chunk_loop :: "nat \<Rightarrow> rstr list \<Rightarrow> update_file_chunk \<Rightarrow> nat
    \<Rightarrow> parse_error + update_file_chunk \<times> nat" where
  "chunk_loop ln [] c n = Inr (c, n)"
| "chunk_loop ln (line # rest) c n =
     (if line = EOF_MARKER then
        (if n = 0 then Inl (InvalidHunkError no_lines_message (ln + 1))
         else Inr (c\<lparr>is_end_of_file := True\<rparr>, n + 1))
      else (case line of
          [] \<Rightarrow> chunk_loop ln rest
                  (c\<lparr>old_lines := old_lines c @ [[]], new_lines := new_lines c @ [[]]\<rparr>) (n + 1)
        | ch # contents \<Rightarrow>
            if ch = 32 then
              chunk_loop ln rest
                (c\<lparr>old_lines := old_lines c @ [contents], new_lines := new_lines c @ [contents]\<rparr>)
                (n + 1)
            else if ch = 43 then
              chunk_loop ln rest (c\<lparr>new_lines := new_lines c @ [contents]\<rparr>) (n + 1)
            else if ch = 45 then
              chunk_loop ln rest (c\<lparr>old_lines := old_lines c @ [contents]\<rparr>) (n + 1)
            else if n = 0 then
              Inl (InvalidHunkError
                (lit ''Unexpected line found in update hunk: '' @ quoted line @
                 lit ''. Every line should start with '' @ quoted [32] @
                 lit '' (context line), '' @ quoted [43] @ lit '' (added line), or '' @
                 quoted [45] @ lit '' (removed line)'')
                (ln + 1))
            else Inr (c, n)))"

text \<open>The context of a chunk and the number of lines it takes.\<close>

definition chunk_header :: "rstr \<Rightarrow> nat \<Rightarrow> bool \<Rightarrow> parse_error + rstr option \<times> nat" where
  "chunk_header first ln allow_missing_context =
     (if first = EMPTY_CHANGE_CONTEXT_MARKER then Inr (None, 1)
      else case strip_prefix first CHANGE_CONTEXT_MARKER of
             Some ctx \<Rightarrow> Inr (Some ctx, 1)
           | None \<Rightarrow>
               if \<not> allow_missing_context then
                 Inl (InvalidHunkError
                   (lit ''Expected update hunk to start with a @@ context marker, got: '' @
                    quoted first) ln)
               else Inr (None, 0))"

definition empty_chunk :: "rstr option \<Rightarrow> update_file_chunk" where
  "empty_chunk ctx =
     \<lparr>change_context = ctx, old_lines = [], new_lines = [], is_end_of_file = False\<rparr>"

definition parse_update_file_chunk :: "rstr list \<Rightarrow> nat \<Rightarrow> bool
    \<Rightarrow> parse_error + update_file_chunk \<times> nat" where
  "parse_update_file_chunk ls ln allow_missing_context =
     (case ls of
        [] \<Rightarrow> Inl (InvalidHunkError no_lines_message ln)
      | first # _ \<Rightarrow>
          (case chunk_header first ln allow_missing_context of
             Inl e \<Rightarrow> Inl e
           | Inr (ctx, start_index) \<Rightarrow>
               if length ls \<le> start_index then Inl (InvalidHunkError no_lines_message (ln + 1))
               else
                 (case chunk_loop ln (drop start_index ls) (empty_chunk ctx) 0 of
                    Inl e \<Rightarrow> Inl e
                  | Inr (chunk, parsed_lines) \<Rightarrow> Inr (chunk, parsed_lines + start_index))))"

lemma chunk_loop_consumed:
  assumes "chunk_loop ln ls c n = Inr (c', m)" "n = 0 \<longrightarrow> ls \<noteq> []"
  shows "n \<le> m" "0 < m" "m \<le> n + length ls" "change_context c' = change_context c"
proof -
  have "n \<le> m \<and> 0 < m \<and> m \<le> n + length ls \<and> change_context c' = change_context c"
    using assms
    by (induction ln ls c n rule: chunk_loop.induct)
      (force split: if_splits list.splits)+
  then show "n \<le> m" "0 < m" "m \<le> n + length ls" "change_context c' = change_context c"
    by simp_all
qed

lemma chunk_header_lines: "chunk_header first ln allow = Inr (ctx, i) \<Longrightarrow> i \<le> 1"
  by (auto simp: chunk_header_def split: if_splits option.splits)

lemma parse_chunk_consumed:
  assumes "parse_update_file_chunk ls ln allow = Inr (c, n)"
  shows "0 < n" "n \<le> length ls"
proof -
  obtain ctx i m where "i < length ls" "n = m + i"
    and "chunk_loop ln (drop i ls) (empty_chunk ctx) 0 = Inr (c, m)"
    using assms
    by (auto simp: parse_update_file_chunk_def not_le split: list.splits if_splits sum.splits
        prod.splits simp del: chunk_loop.simps)
  then show "0 < n" "n \<le> length ls"
    using chunk_loop_consumed [of ln "drop i ls" "empty_chunk ctx" 0 c m] by auto
qed

section \<open>Hunks\<close>

text \<open>The lines of a new file: those that start with a plus sign.\<close>

fun add_loop :: "rstr list \<Rightarrow> rstr \<Rightarrow> nat \<Rightarrow> rstr \<times> nat" where
  "add_loop [] contents n = (contents, n)"
| "add_loop (l # ls) contents n =
     (case strip_prefix l [43] of
        Some line_to_add \<Rightarrow> add_loop ls (contents @ line_to_add @ [10]) (n + 1)
      | None \<Rightarrow> (contents, n))"

text \<open>The loop over the chunks of an update: \<open>n\<close> is \<^verbatim>\<open>parsed_lines\<close>.\<close>

function (sequential) update_loop :: "nat \<Rightarrow> rstr list \<Rightarrow> nat \<Rightarrow> update_file_chunk list
    \<Rightarrow> parse_error + update_file_chunk list \<times> nat" where
  "update_loop ln [] n chunks = Inr (chunks, n)"
| "update_loop ln (l # ls) n chunks =
     (if trim l = [] then update_loop ln ls (n + 1) chunks
      else if starts_with l (lit ''***'') then Inr (chunks, n)
      else (case parse_update_file_chunk (l # ls) (ln + n) (chunks = []) of
              Inl e \<Rightarrow> Inl e
            | Inr (chunk, chunk_lines) \<Rightarrow>
                update_loop ln (drop chunk_lines (l # ls)) (n + chunk_lines) (chunks @ [chunk])))"
  by pat_completeness auto
termination
proof (relation "measure (\<lambda>(ln, ls, n, chunks). length ls)", goal_cases)
  case (3 ln l ls n chunks r chunk k)
  then show ?case using parse_chunk_consumed(1) [of "l # ls" _ _ chunk k] by force
qed auto

definition parse_one_hunk :: "rstr \<Rightarrow> rstr list \<Rightarrow> nat \<Rightarrow> parse_error + hunk \<times> nat" where
  "parse_one_hunk first rest ln =
     (let first_line = trim first
      in case strip_prefix first_line ADD_FILE_MARKER of
           Some path \<Rightarrow>
             (let (contents, parsed_lines) = add_loop rest [] 1
              in Inr (AddFile path contents, parsed_lines))
         | None \<Rightarrow>
      (case strip_prefix first_line DELETE_FILE_MARKER of
           Some path \<Rightarrow> Inr (DeleteFile path, 1)
         | None \<Rightarrow>
      (case strip_prefix first_line UPDATE_FILE_MARKER of
           Some path \<Rightarrow>
             (let move_path = (case rest of [] \<Rightarrow> None | x # _ \<Rightarrow> strip_prefix x MOVE_TO_MARKER);
                  remaining = (if move_path \<noteq> None then tl rest else rest);
                  parsed = (if move_path \<noteq> None then 2 else 1)
              in case update_loop ln remaining parsed [] of
                   Inl e \<Rightarrow> Inl e
                 | Inr (chunks, parsed_lines) \<Rightarrow>
                     if chunks = [] then
                       Inl (InvalidHunkError
                         (lit ''Update file hunk for path '' @ quoted path @ lit '' is empty'') ln)
                     else Inr (UpdateFile path move_path chunks, parsed_lines))
         | None \<Rightarrow>
             Inl (InvalidHunkError
               (quoted first_line @ lit '' is not a valid hunk header. Valid hunk headers: '' @
                quoted (lit ''*** Add File: {path}'') @ lit '', '' @
                quoted (lit ''*** Delete File: {path}'') @ lit '', '' @
                quoted (lit ''*** Update File: {path}'')) ln))))"

lemma add_loop_consumed: "add_loop ls c n = (c', m) \<Longrightarrow> n \<le> m \<and> m \<le> n + length ls"
  by (induction ls c n rule: add_loop.induct) (force split: option.splits)+

lemma update_loop_consumed:
  "update_loop ln ls n cs = Inr (cs', m) \<Longrightarrow> n \<le> m \<and> m \<le> n + length ls"
proof (induction ln ls n cs rule: update_loop.induct)
  case (2 ln l ls n chunks)
  show ?case
  proof (cases "parse_update_file_chunk (l # ls) (ln + n) (chunks = [])")
    case (Inr r)
    obtain c k where r: "r = (c, k)" by (cases r)
    have "0 < k" "k \<le> length (l # ls)"
      using parse_chunk_consumed [OF Inr [unfolded r]] by simp_all
    with 2 Inr r show ?thesis by (force split: if_splits)
  qed (use 2 in \<open>auto split: if_splits\<close>)
qed simp

lemma parse_one_hunk_consumed:
  assumes "parse_one_hunk first rest ln = Inr (h, n)"
  shows "0 < n" "n \<le> length (first # rest)"
proof -
  have "0 < n \<and> n \<le> Suc (length rest)"
    using assms
    by (auto simp: parse_one_hunk_def Let_def split: option.splits prod.splits sum.splits if_splits
        list.splits simp del: update_loop.simps dest!: add_loop_consumed update_loop_consumed)
  then show "0 < n" "n \<le> length (first # rest)" by simp_all
qed

section \<open>Patches\<close>

definition check_start_and_end_lines_strict :: "rstr option \<Rightarrow> rstr option \<Rightarrow> parse_error + unit" where
  "check_start_and_end_lines_strict first_line last_line =
     (case (map_option trim first_line, map_option trim last_line) of
        (Some f, l) \<Rightarrow>
          if f = BEGIN_PATCH_MARKER \<and> l = Some END_PATCH_MARKER then Inr ()
          else if f \<noteq> BEGIN_PATCH_MARKER then
            Inl (InvalidPatchError
              (lit ''The first line of the patch must be '' @ quoted (lit ''*** Begin Patch'')))
          else
            Inl (InvalidPatchError
              (lit ''The last line of the patch must be '' @ quoted (lit ''*** End Patch'')))
      | (None, _) \<Rightarrow>
          Inl (InvalidPatchError
            (lit ''The last line of the patch must be '' @ quoted (lit ''*** End Patch''))))"

definition check_patch_boundaries_strict :: "rstr list \<Rightarrow> parse_error + unit" where
  "check_patch_boundaries_strict ls =
     (case ls of
        [] \<Rightarrow> check_start_and_end_lines_strict None None
      | first # _ \<Rightarrow> check_start_and_end_lines_strict (Some first) (Some (last ls)))"

definition check_patch_boundaries_lenient :: "rstr list \<Rightarrow> parse_error \<Rightarrow> parse_error + rstr list" where
  "check_patch_boundaries_lenient original_lines err =
     (case original_lines of
        first # second # others \<Rightarrow>
          if (first = lit ''<<EOF'' \<or> first = lit ''<<'' @ quoted (lit ''EOF'')
              \<or> first = lit ''<<'' @ [34] @ lit ''EOF'' @ [34])
             \<and> ends_with (last original_lines) (lit ''EOF'') \<and> 4 \<le> length original_lines then
            (let inner_lines = butlast (tl original_lines)
             in case check_patch_boundaries_strict inner_lines of
                  Inr _ \<Rightarrow> Inr inner_lines
                | Inl e \<Rightarrow> Inl e)
          else Inl err
      | _ \<Rightarrow> Inl err)"

function (sequential) hunks_loop :: "rstr list \<Rightarrow> nat \<Rightarrow> hunk list \<Rightarrow> parse_error + hunk list" where
  "hunks_loop [] ln hs = Inr hs"
| "hunks_loop (l # ls) ln hs =
     (case parse_one_hunk l ls ln of
        Inl e \<Rightarrow> Inl e
      | Inr (hunk, hunk_lines) \<Rightarrow> hunks_loop (drop hunk_lines (l # ls)) (ln + hunk_lines) (hs @ [hunk]))"
  by pat_completeness auto
termination
proof (relation "measure (\<lambda>(ls, ln, hs). length ls)", goal_cases)
  case (2 l ls ln hs r hunk k)
  then show ?case using parse_one_hunk_consumed(1) [of l ls ln hunk k] by force
qed simp

definition parse_patch_text :: "rstr \<Rightarrow> parse_mode \<Rightarrow> parse_error + parsed_patch" where
  "parse_patch_text txt mode =
     (let ls = lines (trim txt);
          checked = (case check_patch_boundaries_strict ls of
                       Inr _ \<Rightarrow> Inr ls
                     | Inl e \<Rightarrow> (case mode of
                                   Strict \<Rightarrow> Inl e
                                 | Lenient \<Rightarrow> check_patch_boundaries_lenient ls e))
      in case checked of
           Inl e \<Rightarrow> Inl e
         | Inr ls \<Rightarrow>
             (case hunks_loop (drop 1 (take (length ls - 1) ls)) 2 [] of
                Inl e \<Rightarrow> Inl e
              | Inr hs \<Rightarrow> Inr \<lparr>hunks = hs, patch = join [10] ls\<rparr>))"

definition parse_patch :: "rstr \<Rightarrow> parse_error + parsed_patch" where
  "parse_patch txt = parse_patch_text txt (if PARSE_IN_STRICT_MODE then Strict else Lenient)"

end
