(* ===== verification/PatchGrammar.thy ===== *)
theory PatchGrammar
  imports PatchParser
begin

text \<open>
  The patch language as its documented grammar has it (\<^verbatim>\<open>parser.rs\<close>, lines 7 to 26): file
  operations, changes and diff lines, how they are written, and what the parser has to make of
  them. The parser is shown to read every text of the grammar back, and to advance on every
  input.
\<close>

section \<open>Grammar\<close>

datatype diff_line = Keep rstr | Added rstr | Removed rstr

datatype change = Change "rstr option" "diff_line list" bool

datatype file_op =
    AddOp rstr "rstr list"
  | DeleteOp rstr
  | UpdateOp rstr "rstr option" "change list"

fun print_line :: "diff_line \<Rightarrow> rstr" where
  "print_line (Keep s) = 32 # s"
| "print_line (Added s) = 43 # s"
| "print_line (Removed s) = 45 # s"

fun print_change :: "change \<Rightarrow> rstr list" where
  "print_change (Change c ds eof) =
     (case c of None \<Rightarrow> EMPTY_CHANGE_CONTEXT_MARKER | Some s \<Rightarrow> CHANGE_CONTEXT_MARKER @ s)
     # map print_line ds @ (if eof then [EOF_MARKER] else [])"

fun print_op :: "file_op \<Rightarrow> rstr list" where
  "print_op (AddOp p ls) = (ADD_FILE_MARKER @ p) # map ((#) 43) ls"
| "print_op (DeleteOp p) = [DELETE_FILE_MARKER @ p]"
| "print_op (UpdateOp p mv chs) =
     (UPDATE_FILE_MARKER @ p) # (case mv of None \<Rightarrow> [] | Some d \<Rightarrow> [MOVE_TO_MARKER @ d])
     @ concat (map print_change chs)"

definition print_patch :: "file_op list \<Rightarrow> rstr" where
  "print_patch fs = join [10] (BEGIN_PATCH_MARKER # concat (map print_op fs) @ [END_PATCH_MARKER])"

fun old_of :: "diff_line \<Rightarrow> rstr list" where
  "old_of (Keep s) = [s]"
| "old_of (Added s) = []"
| "old_of (Removed s) = [s]"

fun new_of :: "diff_line \<Rightarrow> rstr list" where
  "new_of (Keep s) = [s]"
| "new_of (Added s) = [s]"
| "new_of (Removed s) = []"

fun chunk_of :: "change \<Rightarrow> update_file_chunk" where
  "chunk_of (Change c ds eof) =
     \<lparr>change_context = c, old_lines = concat (map old_of ds), new_lines = concat (map new_of ds),
      is_end_of_file = eof\<rparr>"

fun hunk_of :: "file_op \<Rightarrow> hunk" where
  "hunk_of (AddOp p ls) = AddFile p (concat (map (\<lambda>l. l @ [10]) ls))"
| "hunk_of (DeleteOp p) = DeleteFile p"
| "hunk_of (UpdateOp p mv chs) = UpdateFile p mv (map chunk_of chs)"

text \<open>Texts of one line, and file names: neither empty nor ended by white space.\<close>

definition line_text :: "rstr \<Rightarrow> bool" where
  "line_text s \<longleftrightarrow> 10 \<notin> set s \<and> strip_cr s = s"

definition file_name :: "rstr \<Rightarrow> bool" where
  "file_name s \<longleftrightarrow> s \<noteq> [] \<and> 10 \<notin> set s \<and> trim_end s = s"

fun diff_text :: "diff_line \<Rightarrow> rstr" where
  "diff_text (Keep s) = s"
| "diff_text (Added s) = s"
| "diff_text (Removed s) = s"

fun wf_change :: "change \<Rightarrow> bool" where
  "wf_change (Change c ds eof) \<longleftrightarrow>
     (case c of None \<Rightarrow> True | Some s \<Rightarrow> line_text s) \<and> ds \<noteq> [] \<and> list_all (line_text \<circ> diff_text) ds"

fun wf_op :: "file_op \<Rightarrow> bool" where
  "wf_op (AddOp p ls) \<longleftrightarrow> file_name p \<and> list_all line_text ls"
| "wf_op (DeleteOp p) \<longleftrightarrow> file_name p"
| "wf_op (UpdateOp p mv chs) \<longleftrightarrow>
     file_name p \<and> (case mv of None \<Rightarrow> True | Some d \<Rightarrow> line_text d) \<and> chs \<noteq> [] \<and> list_all wf_change chs"

section \<open>Trimming and lines\<close>

lemma trim_end_id_iff: "trim_end s = s \<longleftrightarrow> s = [] \<or> \<not> is_whitespace (last s)"
  by (cases "s = []")
    (simp_all add: trim_end_def rev_swap dropWhile_eq_self_iff hd_rev)

lemma strip_cr_id_iff: "strip_cr s = s \<longleftrightarrow> s = [] \<or> last s \<noteq> 13"
proof -
  have "s \<noteq> [] \<Longrightarrow> butlast s \<noteq> s" by (metis append_butlast_last_id append_self_conv not_Cons_self2)
  then show ?thesis by (auto simp: strip_cr_def)
qed

lemma marker_trim:
  assumes "file_name p" "m \<noteq> []" "\<not> is_whitespace (hd m)"
  shows "trim (m @ p) = m @ p"
proof -
  have "trim_start (m @ p) = m @ p" using assms(2,3) by (cases m) (simp_all add: trim_start_def)
  moreover have "trim_end (m @ p) = m @ p"
    using assms(1) by (auto simp: file_name_def trim_end_id_iff)
  ultimately show ?thesis by (simp add: trim_def)
qed

lemma header_trim:
  assumes "file_name p"
  shows "trim (ADD_FILE_MARKER @ p) = ADD_FILE_MARKER @ p"
    "trim (DELETE_FILE_MARKER @ p) = DELETE_FILE_MARKER @ p"
    "trim (UPDATE_FILE_MARKER @ p) = UPDATE_FILE_MARKER @ p"
  by (intro marker_trim [OF assms]; simp add: marker_defs str_simps is_whitespace_def)+

lemma lines_join:
  assumes "ls \<noteq> []" "last ls \<noteq> []" "\<And>l. l \<in> set ls \<Longrightarrow> 10 \<notin> set l \<and> strip_cr l = l"
  shows "lines (join [10] ls) = ls"
proof -
  have "split_on 10 (join [10] ls) = ls" using assms by (intro split_on_join) auto
  moreover have "map strip_cr (butlast ls) = butlast ls"
    using assms(3) by (intro map_idI) (auto dest: in_set_butlastD)
  ultimately show ?thesis using assms(1,2) by (simp add: lines_def)
qed

lemma join_ends: "\<exists>s. join [10] ((a # m) # ls @ [e @ [z]]) = a # s @ [z]"
proof (induction ls arbitrary: a m)
  case (Cons l ls)
  have "\<exists>s. join [10] (l # ls @ [e @ [z]]) = s @ [z]"
  proof (cases l)
    case (Cons b k)
    then show ?thesis using Cons.IH by (metis append_Cons)
  qed (induction ls, auto simp: join_Cons_ne)
  then show ?case by (force simp: join_Cons_ne)
qed auto

section \<open>Reading back the grammar\<close>

text \<open>Where a chunk ends: at a header, or at the end of the input.\<close>

definition block_start :: "rstr list \<Rightarrow> bool" where
  "block_start ls \<longleftrightarrow> (case ls of [] \<Rightarrow> True | l # _ \<Rightarrow>
     l \<noteq> EOF_MARKER \<and> (case l of [] \<Rightarrow> False | c # _ \<Rightarrow> c = 42 \<or> c = 64))"

lemma chunk_loop_body:
  "chunk_loop ln (map print_line ds @ rest) c n =
   chunk_loop ln rest (c\<lparr>old_lines := old_lines c @ concat (map old_of ds),
                         new_lines := new_lines c @ concat (map new_of ds)\<rparr>) (n + length ds)"
proof (induction ds arbitrary: c n)
  case (Cons d ds)
  have "print_line d \<noteq> EOF_MARKER" by (cases d) (simp_all add: marker_defs str_simps)
  then show ?case by (cases d) (simp_all add: Cons)
qed simp

lemma chunk_loop_end:
  "block_start rest \<Longrightarrow> 0 < n \<Longrightarrow> chunk_loop ln rest c n = Inr (c, n)"
  by (cases rest) (auto simp: block_start_def split: list.splits)

lemma parse_change:
  assumes "wf_change ch" "block_start rest"
  shows "parse_update_file_chunk (print_change ch @ rest) ln allow =
         Inr (chunk_of ch, length (print_change ch))"
proof (cases ch)
  case (Change c ds eof)
  have ne: "ds \<noteq> []" using assms(1) by (simp add: Change)
  have hdr: "chunk_header (hd (print_change ch)) ln allow = Inr (c, 1)"
    by (cases c) (simp_all add: Change chunk_header_def strip_prefix_def starts_with_def marker_defs
        str_simps)
  have "chunk_loop ln (map print_line ds @ (if eof then [EOF_MARKER] else []) @ rest)
          (empty_chunk c) 0 = Inr (chunk_of ch, length ds + (if eof then 1 else 0))"
    using ne assms(2) by (simp add: chunk_loop_body chunk_loop_end empty_chunk_def Change)
  with hdr ne show ?thesis
    by (simp add: Change parse_update_file_chunk_def)
qed

lemma print_change_hd:
  "\<exists>s t. print_change ch = (64 # s) # t"
  by (cases ch) (simp add: marker_defs str_simps split: option.splits)

lemma print_changes_hd:
  assumes "chs \<noteq> []"
  shows "\<exists>s t. concat (map print_change chs) = (64 # s) # t"
proof (cases chs)
  case (Cons ch cs)
  then show ?thesis using print_change_hd [of ch] by auto
qed (use assms in simp)

text \<open>Where a file operation ends: at the next header, or at the end of the input.\<close>

definition op_start :: "rstr list \<Rightarrow> bool" where
  "op_start ls \<longleftrightarrow> (case ls of [] \<Rightarrow> True | l # _ \<Rightarrow> l \<noteq> EOF_MARKER \<and> starts_with l (lit ''***''))"

lemma op_start_block: "op_start ls \<Longrightarrow> block_start ls"
  by (auto simp: op_start_def block_start_def starts_with_def str_simps split: list.splits)

lemma starts_with_Cons: "starts_with (x # xs) (y # ys) \<longleftrightarrow> x = y \<and> starts_with xs ys"
  "starts_with xs []" "\<not> starts_with [] (y # ys)"
  by (auto simp: starts_with_def)

lemma trim_not_Nil: "\<not> is_whitespace c \<Longrightarrow> trim (c # s) \<noteq> []"
  by (simp add: trim_def trim_start_def trim_end_def)

lemma update_loop_stop: "op_start rest \<Longrightarrow> update_loop ln rest n cs = Inr (cs, n)"
proof (cases rest)
  case (Cons l ls)
  assume "op_start rest"
  then obtain s where "l = 42 # s" "starts_with l (lit ''***'')"
    using Cons by (cases l) (auto simp: op_start_def str_simps starts_with_Cons)
  then show ?thesis using Cons trim_not_Nil [of 42 s] by (simp add: is_whitespace_def)
qed simp

lemma parse_changes:
  assumes "list_all wf_change chs" "op_start rest"
  shows "update_loop ln (concat (map print_change chs) @ rest) n cs =
         Inr (cs @ map chunk_of chs, n + length (concat (map print_change chs)))"
  using assms
proof (induction chs arbitrary: n cs)
  case Nil
  then show ?case by (simp add: update_loop_stop)
next
  case (Cons ch chs)
  let ?more = "concat (map print_change chs) @ rest"
  obtain s t where st: "print_change ch = (64 # s) # t" using print_change_hd by blast
  have "block_start ?more"
  proof (cases chs)
    case Nil
    then show ?thesis using Cons.prems by (simp add: op_start_block)
  next
    case (Cons c' cs')
    then show ?thesis
      using print_change_hd [of c'] by (auto simp: block_start_def marker_defs str_simps)
  qed
  then have p: "parse_update_file_chunk ((64 # s) # t @ ?more) (ln + n) (cs = []) =
      Inr (chunk_of ch, length (print_change ch))"
    using parse_change [of ch ?more "ln + n" "cs = []"] Cons.prems st by simp
  have "trim (64 # s) \<noteq> []" "\<not> starts_with (64 # s) (lit ''***'')"
    by (simp_all add: trim_not_Nil is_whitespace_def str_simps starts_with_Cons)
  then show ?case
    using p Cons by (simp add: st)
qed

lemma add_loop_print:
  assumes "op_start rest"
  shows "add_loop (map ((#) 43) ls @ rest) c n = (c @ concat (map (\<lambda>l. l @ [10]) ls), n + length ls)"
proof (induction ls arbitrary: c n)
  case Nil
  have "add_loop rest c n = (c, n)"
    using assms
    by (cases rest; cases "hd rest")
      (auto simp: op_start_def strip_prefix_def starts_with_def str_simps)
  then show ?case by simp
next
  case (Cons l ls)
  have "strip_prefix (43 # l) [43] = Some l" by (simp add: strip_prefix_iff)
  with Cons show ?case by simp
qed

lemma parse_op:
  assumes "wf_op f" "op_start rest"
  shows "parse_one_hunk (hd (print_op f)) (tl (print_op f) @ rest) ln =
         Inr (hunk_of f, length (print_op f))"
proof (cases f)
  case (AddOp p ls)
  have "file_name p" using assms(1) by (simp add: AddOp)
  note header_trim [OF this]
  then show ?thesis using assms(2) by (simp add: AddOp parse_one_hunk_def add_loop_print)
next
  case (DeleteOp p)
  have "file_name p" using assms(1) by (simp add: DeleteOp)
  note header_trim [OF this]
  moreover have "strip_prefix (DELETE_FILE_MARKER @ p) ADD_FILE_MARKER = None"
    by (simp add: strip_prefix_def starts_with_def marker_defs str_simps)
  ultimately show ?thesis by (simp add: DeleteOp parse_one_hunk_def)
next
  case (UpdateOp p mv chs)
  have "file_name p" using assms(1) by (simp add: UpdateOp)
  note header_trim [OF this]
  moreover have "strip_prefix (UPDATE_FILE_MARKER @ p) ADD_FILE_MARKER = None"
      "strip_prefix (UPDATE_FILE_MARKER @ p) DELETE_FILE_MARKER = None"
    by (simp_all add: strip_prefix_def starts_with_def marker_defs str_simps)
  moreover obtain s t where "concat (map print_change chs) = (64 # s) # t"
    using assms(1) print_changes_hd [of chs] by (auto simp: UpdateOp)
  moreover have "strip_prefix (64 # s) MOVE_TO_MARKER = None" for s
    by (simp add: strip_prefix_def starts_with_def marker_defs str_simps)
  ultimately show ?thesis
    using parse_changes [of chs rest ln "if mv = None then 1 else 2" "[]"] assms
    by (cases mv) (auto simp: UpdateOp parse_one_hunk_def simp del: update_loop.simps)
qed

lemma print_op_start: "op_start (print_op f @ ls)" "print_op f \<noteq> []"
  by (cases f; simp add: op_start_def starts_with_def marker_defs str_simps)+

lemma parse_ops:
  "list_all wf_op fs \<Longrightarrow>
   hunks_loop (concat (map print_op fs)) ln hs = Inr (hs @ map hunk_of fs)"
proof (induction fs arbitrary: ln hs)
  case (Cons f fs)
  have "op_start (concat (map print_op fs))"
    using print_op_start(1) by (cases fs) (auto simp: op_start_def)
  then have p: "parse_one_hunk (hd (print_op f)) (tl (print_op f) @ concat (map print_op fs)) ln =
      Inr (hunk_of f, length (print_op f))"
    using parse_op Cons.prems by simp
  obtain a b where ab: "print_op f = a # b" using print_op_start(2) [of f] by (cases "print_op f") auto
  show ?case using p Cons by (simp add: ab)
qed simp

lemma line_text_append: "line_text s \<Longrightarrow> line_text t \<Longrightarrow> line_text (s @ t)"
  by (auto simp: line_text_def strip_cr_id_iff last_append)

lemma line_text_Cons: "line_text t \<Longrightarrow> c \<noteq> 10 \<Longrightarrow> c \<noteq> 13 \<Longrightarrow> line_text (c # t)"
  using line_text_append [of "[c]" t] by (simp add: line_text_def strip_cr_id_iff)

lemma line_text_marker:
  "line_text ADD_FILE_MARKER" "line_text DELETE_FILE_MARKER" "line_text UPDATE_FILE_MARKER"
  "line_text MOVE_TO_MARKER" "line_text EOF_MARKER" "line_text CHANGE_CONTEXT_MARKER"
  "line_text EMPTY_CHANGE_CONTEXT_MARKER" "line_text BEGIN_PATCH_MARKER" "line_text END_PATCH_MARKER"
  by (simp_all add: marker_defs str_simps line_text_def strip_cr_id_iff)

lemma line_text_file_name: "file_name p \<Longrightarrow> line_text p"
  by (auto simp: file_name_def line_text_def strip_cr_id_iff trim_end_id_iff is_whitespace_def)

lemma line_text_print_line: "line_text (diff_text d) \<Longrightarrow> line_text (print_line d)"
  by (cases d) (simp_all add: line_text_Cons)

lemmas line_texts = line_text_append line_text_Cons line_text_marker line_text_file_name
  line_text_print_line

lemma line_text_change: "wf_change ch \<Longrightarrow> list_all line_text (print_change ch)"
  by (cases ch) (auto simp: list_all_iff intro: line_texts split: option.splits)

lemma line_text_op: "wf_op f \<Longrightarrow> list_all line_text (print_op f)"
  using line_text_change
  by (cases f) (auto simp: list_all_iff intro: line_texts split: option.splits)

section \<open>Properties of the parser\<close>

lemma parse_printed:
  assumes "list_all wf_op fs"
  shows "parse_patch (print_patch fs) =
         Inr \<lparr>hunks = map hunk_of fs, patch = print_patch fs\<rparr>"
proof -
  let ?ls = "BEGIN_PATCH_MARKER # concat (map print_op fs) @ [END_PATCH_MARKER]"
  have print_eq: "print_patch fs = join [10] ?ls" by (simp add: print_patch_def)
  have texts: "l \<in> set ?ls \<Longrightarrow> line_text l" for l
    using assms line_text_op by (auto simp: list_all_iff line_text_marker)
  have "last ?ls \<noteq> []" by (simp add: marker_defs str_simps)
  then have lines_eq: "lines (print_patch fs) = ?ls"
    unfolding print_eq using texts by (intro lines_join) (auto simp: line_text_def)
  have "BEGIN_PATCH_MARKER = 42 # tl BEGIN_PATCH_MARKER"
    "END_PATCH_MARKER = butlast END_PATCH_MARKER @ [104]"
    by (simp_all add: marker_defs str_simps)
  then obtain s where "print_patch fs = 42 # s @ [104]"
    unfolding print_eq using join_ends by metis
  then have "trim (print_patch fs) = print_patch fs"
    by (simp add: trim_def trim_start_def trim_end_id_iff is_whitespace_def)
  moreover have "check_patch_boundaries_strict ?ls = Inr ()"
    by (simp add: check_patch_boundaries_strict_def check_start_and_end_lines_strict_def
        trim_def trim_start_def trim_end_def is_whitespace_def marker_defs str_simps)
  ultimately show ?thesis
    using parse_ops [OF assms, of 2 "[]"]
    by (simp add: parse_patch_def parse_patch_text_def lines_eq print_eq [symmetric])
qed



lemma boundaries_strict:
  assumes "check_patch_boundaries_strict ls = Inr u"
  shows "\<exists>b m e. ls = b # m @ [e] \<and> trim b = BEGIN_PATCH_MARKER \<and> trim e = END_PATCH_MARKER"
proof -
  obtain b rest where ls: "ls = b # rest" and b: "trim b = BEGIN_PATCH_MARKER"
    and e: "trim (last ls) = END_PATCH_MARKER"
    using assms
    by (auto simp: check_patch_boundaries_strict_def check_start_and_end_lines_strict_def
        split: list.splits if_splits)
  have "BEGIN_PATCH_MARKER \<noteq> END_PATCH_MARKER" by (simp add: marker_defs str_simps)
  then show ?thesis using ls b e by (cases rest rule: rev_cases) auto
qed

lemma boundaries_lenient:
  "check_patch_boundaries_lenient ls e = Inr ls' \<Longrightarrow> check_patch_boundaries_strict ls' = Inr ()"
  by (auto simp: check_patch_boundaries_lenient_def Let_def split: list.splits if_splits sum.splits)

lemma hunks_loop_count: "hunks_loop ls ln hs = Inr hs' \<Longrightarrow> length hs' \<le> length hs + length ls"
proof (induction ls ln hs rule: hunks_loop.induct)
  case (2 l ls ln hs)
  then obtain h n where p: "parse_one_hunk l ls ln = Inr (h, n)"
    by (auto split: sum.splits)
  with 2 have "length hs' \<le> length (hs @ [h]) + length (drop n (l # ls))" by auto
  then show ?case using parse_one_hunk_consumed [OF p] by simp
qed simp

text \<open>C39: on every input the parser advances and stays in range: a hunk and a chunk take at least
  one and at most all remaining lines, so the slices of the source never panic and its loops end;
  a patch is accepted only between its two markers, and it has at most as many hunks as there are
  lines between them.\<close>

theorem parser_progress:
  "(parse_one_hunk l ls ln = Inr (h, n) \<longrightarrow> 0 < n \<and> n \<le> length (l # ls)) \<and>
   (parse_update_file_chunk ls' ln allow = Inr (c, k) \<longrightarrow> 0 < k \<and> k \<le> length ls') \<and>
   (parse_patch s = Inr p \<longrightarrow>
      (\<exists>b m e. patch p = join [10] (b # m @ [e]) \<and> trim b = BEGIN_PATCH_MARKER \<and>
               trim e = END_PATCH_MARKER \<and> length (hunks p) \<le> length m))"
proof -
  have "\<exists>b m e. patch p = join [10] (b # m @ [e]) \<and> trim b = BEGIN_PATCH_MARKER \<and>
          trim e = END_PATCH_MARKER \<and> length (hunks p) \<le> length m" if ok: "parse_patch s = Inr p"
  proof -
    obtain ls u hs where ls: "check_patch_boundaries_strict ls = Inr u"
      and hs: "hunks_loop (drop 1 (take (length ls - 1) ls)) 2 [] = Inr hs"
      and p: "p = \<lparr>hunks = hs, patch = join [10] ls\<rparr>"
      using ok boundaries_lenient
      by (auto simp: parse_patch_def parse_patch_text_def Let_def split: sum.splits parse_mode.splits)
        blast
    obtain b m e where "ls = b # m @ [e]" "trim b = BEGIN_PATCH_MARKER" "trim e = END_PATCH_MARKER"
      using boundaries_strict [OF ls] by blast
    with hs p show ?thesis using hunks_loop_count [of m 2 "[]" hs] by auto
  qed
  then show ?thesis using parse_one_hunk_consumed parse_chunk_consumed by blast
qed

lemma parser_progress_witness:
  "parse_patch (print_patch [DeleteOp (lit ''c'')]) =
     Inr \<lparr>hunks = [DeleteFile (lit ''c'')], patch = print_patch [DeleteOp (lit ''c'')]\<rparr> \<and>
   (\<exists>b m e. print_patch [DeleteOp (lit ''c'')] = join [10] (b # m @ [e]) \<and>
      trim b = BEGIN_PATCH_MARKER \<and> 1 \<le> length m)"
proof -
  have parsed: "parse_patch (print_patch [DeleteOp (lit ''c'')]) =
      Inr \<lparr>hunks = [DeleteFile (lit ''c'')], patch = print_patch [DeleteOp (lit ''c'')]\<rparr>"
    by (simp add: parse_patch_def parse_patch_text_def print_patch_def lines_def trim_def trim_start_def
        trim_end_def is_whitespace_def check_patch_boundaries_strict_def PARSE_IN_STRICT_MODE_def
        check_start_and_end_lines_strict_def parse_one_hunk_def strip_prefix_def starts_with_def
        strip_cr_def marker_defs str_simps)
  then show ?thesis
    using parser_progress [where s = "print_patch [DeleteOp (lit ''c'')]"] by fastforce
qed

end
