(* ===== verification/PatchApply.thy ===== *)
theory PatchApply
  imports PatchParser
begin

text \<open>
  Applying the chunks of an update to the lines of a file (\<^verbatim>\<open>codex/apply_patch/seek_sequence.rs\<close>,
  \<^verbatim>\<open>apply.rs\<close>): the fuzzy search for a block of lines, the replacements it gives and their
  application in reverse order. \<open>Vec::insert\<close> panics behind the end of the vector; the model
  returns \<open>None\<close> there.
\<close>

section \<open>Searching lines\<close>

definition normalise_char :: "rune \<Rightarrow> rune" where
  "normalise_char c =
     (if c \<in> {8208, 8209, 8210, 8211, 8212, 8213, 8722} then 45
      else if c \<in> {8216, 8217, 8218, 8219} then 39
      else if c \<in> {8220, 8221, 8222, 8223} then 34
      else if c \<in> {160, 8194, 8195, 8196, 8197, 8198, 8199, 8200, 8201, 8202, 8239, 8287, 12288} then 32
      else c)"

definition normalise :: "rstr \<Rightarrow> rstr" where
  "normalise s = map normalise_char (trim s)"

text \<open>One pass over the positions \<open>from..=to\<close>: the first where every line agrees under \<open>f\<close>.\<close>

definition matches_at :: "(rstr \<Rightarrow> rstr) \<Rightarrow> rstr list \<Rightarrow> rstr list \<Rightarrow> nat \<Rightarrow> bool" where
  "matches_at f ls pat i \<longleftrightarrow> map f (take (length pat) (drop i ls)) = map f pat"

definition seek_pass :: "(rstr \<Rightarrow> rstr) \<Rightarrow> rstr list \<Rightarrow> rstr list \<Rightarrow> nat \<Rightarrow> nat option" where
  "seek_pass f ls pat from = find (matches_at f ls pat) [from..<Suc (length ls - length pat)]"

definition seek_sequence :: "rstr list \<Rightarrow> rstr list \<Rightarrow> nat \<Rightarrow> bool \<Rightarrow> nat option" where
  "seek_sequence ls pat start eof =
     (if pat = [] then Some start
      else if length ls < length pat then None
      else
        let search_start = (if eof \<and> length pat \<le> length ls then length ls - length pat else start)
        in case seek_pass (\<lambda>s. s) ls pat search_start of
             Some i \<Rightarrow> Some i
           | None \<Rightarrow>
        (case seek_pass trim_end ls pat search_start of
             Some i \<Rightarrow> Some i
           | None \<Rightarrow>
        (case seek_pass trim ls pat search_start of
             Some i \<Rightarrow> Some i
           | None \<Rightarrow> seek_pass normalise ls pat search_start)))"

section \<open>Replacements\<close>

datatype apply_patch_error =
    Parse parse_error
  | ComputeReplacements rstr
  | Io rstr rstr "rstr option"

type_synonym replacement = "nat \<times> nat \<times> rstr list"

text \<open>\<open>last_empty\<close> is \<^verbatim>\<open>v.last().is_some_and(String::is_empty)\<close>.\<close>

definition last_empty :: "rstr list \<Rightarrow> bool" where
  "last_empty ls \<longleftrightarrow> ls \<noteq> [] \<and> last ls = []"

definition seek_context :: "rstr list \<Rightarrow> rstr \<Rightarrow> rstr option \<Rightarrow> nat \<Rightarrow> apply_patch_error + nat" where
  "seek_context original_lines path context line_index =
     (case context of
        None \<Rightarrow> Inr line_index
      | Some ctx_line \<Rightarrow>
          (case seek_sequence original_lines [ctx_line] line_index False of
             Some idx \<Rightarrow> Inr (idx + 1)
           | None \<Rightarrow> Inl (ComputeReplacements
               (lit ''Failed to find context '' @ quoted ctx_line @ lit '' in '' @ path))))"

definition find_old_lines :: "rstr list \<Rightarrow> update_file_chunk \<Rightarrow> nat
    \<Rightarrow> nat option \<times> rstr list \<times> rstr list" where
  "find_old_lines original_lines chunk line_index =
     (let pattern = old_lines chunk;
          found = seek_sequence original_lines pattern line_index (is_end_of_file chunk);
          new_slice = new_lines chunk
      in if found = None \<and> last_empty pattern then
           (let pattern = butlast pattern;
                new_slice = (if last_empty new_slice then butlast new_slice else new_slice)
            in (seek_sequence original_lines pattern line_index (is_end_of_file chunk),
                pattern, new_slice))
         else (found, pattern, new_slice))"

fun replacements_loop :: "rstr list \<Rightarrow> rstr \<Rightarrow> update_file_chunk list \<Rightarrow> nat \<Rightarrow> replacement list
    \<Rightarrow> apply_patch_error + replacement list" where
  "replacements_loop original_lines path [] line_index rs = Inr rs"
| "replacements_loop original_lines path (chunk # chunks) line_index rs =
     (case seek_context original_lines path (change_context chunk) line_index of
        Inl e \<Rightarrow> Inl e
      | Inr line_index \<Rightarrow>
          if old_lines chunk = [] then
            (let insertion_idx =
                   (if last_empty original_lines then length original_lines - 1
                    else length original_lines)
             in replacements_loop original_lines path chunks line_index
                  (rs @ [(insertion_idx, 0, new_lines chunk)]))
          else
            (case find_old_lines original_lines chunk line_index of
               (Some start_idx, pattern, new_slice) \<Rightarrow>
                 replacements_loop original_lines path chunks (start_idx + length pattern)
                   (rs @ [(start_idx, length pattern, new_slice)])
             | (None, _, _) \<Rightarrow>
                 Inl (ComputeReplacements
                   (lit ''Failed to find expected lines in '' @ path @ lit '':'' @ [10] @
                    join [10] (old_lines chunk)))))"

text \<open>\<^verbatim>\<open>sort_by\<close> on the start index is stable, as \<open>sort_key\<close> is.\<close>

definition compute_replacements :: "rstr list \<Rightarrow> rstr \<Rightarrow> update_file_chunk list
    \<Rightarrow> apply_patch_error + replacement list" where
  "compute_replacements original_lines path chunks =
     (case replacements_loop original_lines path chunks 0 [] of
        Inl e \<Rightarrow> Inl e
      | Inr rs \<Rightarrow> Inr (sort_key fst rs))"

definition vec_insert :: "nat \<Rightarrow> 'a \<Rightarrow> 'a list \<Rightarrow> 'a list option" where
  "vec_insert i x xs = (if i \<le> length xs then Some (take i xs @ x # drop i xs) else None)"

fun remove_loop :: "nat \<Rightarrow> nat \<Rightarrow> 'a list \<Rightarrow> 'a list" where
  "remove_loop start_idx 0 ls = ls"
| "remove_loop start_idx (Suc n) ls =
     remove_loop start_idx n
       (if start_idx < length ls then take start_idx ls @ drop (Suc start_idx) ls else ls)"

fun insert_loop :: "nat \<Rightarrow> 'a list \<Rightarrow> 'a list \<Rightarrow> 'a list option" where
  "insert_loop idx [] ls = Some ls"
| "insert_loop idx (new_line # seg) ls =
     (case vec_insert idx new_line ls of
        None \<Rightarrow> None
      | Some ls' \<Rightarrow> insert_loop (Suc idx) seg ls')"

definition apply_one :: "replacement \<Rightarrow> rstr list \<Rightarrow> rstr list option" where
  "apply_one r ls =
     (case r of (start_idx, old_len, new_segment) \<Rightarrow>
        insert_loop start_idx new_segment (remove_loop start_idx old_len ls))"

fun apply_rev :: "replacement list \<Rightarrow> rstr list \<Rightarrow> rstr list option" where
  "apply_rev [] ls = Some ls"
| "apply_rev (r # rs) ls = (case apply_one r ls of None \<Rightarrow> None | Some ls' \<Rightarrow> apply_rev rs ls')"

definition apply_replacements :: "rstr list \<Rightarrow> replacement list \<Rightarrow> rstr list option" where
  "apply_replacements ls rs = apply_rev (rev rs) ls"

text \<open>The result is \<open>None\<close> when the source panics.\<close>

definition derive_new_contents :: "rstr \<Rightarrow> rstr \<Rightarrow> update_file_chunk list
    \<Rightarrow> (apply_patch_error + rstr) option" where
  "derive_new_contents original_content path chunks =
     (let original_lines = split_on 10 original_content;
          original_lines = (if last_empty original_lines then butlast original_lines else original_lines)
      in case compute_replacements original_lines path chunks of
           Inl e \<Rightarrow> Some (Inl e)
         | Inr replacements \<Rightarrow>
             (case apply_replacements original_lines replacements of
                None \<Rightarrow> None
              | Some result \<Rightarrow>
                  Some (Inr (join [10] (if last_empty result then result else result @ [[]])))))"

section \<open>The search\<close>

lemma find_upt_Some:
  "find P [a..<b] = Some i \<longleftrightarrow> a \<le> i \<and> i < b \<and> P i \<and> (\<forall>j. a \<le> j \<and> j < i \<longrightarrow> \<not> P j)"
proof (induction "b - a" arbitrary: a)
  case (Suc d)
  then have "[a..<b] = a # [Suc a..<b]" "d = b - Suc a" by (simp_all add: upt_conv_Cons)
  with Suc show ?case by (auto simp: less_Suc_eq_le Suc_le_eq) (metis le_neq_implies_less)+
qed simp

lemma find_upt_None: "find P [a..<b] = None \<longleftrightarrow> (\<forall>j. a \<le> j \<and> j < b \<longrightarrow> \<not> P j)"
  by (auto simp: find_None_iff)

lemma seek_pass_Some:
  assumes "length pat \<le> length ls"
  shows "seek_pass f ls pat from = Some i \<longleftrightarrow>
    from \<le> i \<and> i + length pat \<le> length ls \<and> matches_at f ls pat i \<and>
    (\<forall>j. from \<le> j \<and> j < i \<longrightarrow> \<not> matches_at f ls pat j)"
  using assms unfolding seek_pass_def find_upt_Some by auto

lemma seek_pass_None:
  assumes "length pat \<le> length ls"
  shows "seek_pass f ls pat from = None \<longleftrightarrow>
    (\<forall>j. from \<le> j \<and> j + length pat \<le> length ls \<longrightarrow> \<not> matches_at f ls pat j)"
  using assms unfolding seek_pass_def find_upt_None by auto

text \<open>The four passes are of decreasing strictness.\<close>

lemma matches_at_trim_end: "matches_at (\<lambda>s. s) ls pat i \<Longrightarrow> matches_at trim_end ls pat i"
  by (simp add: matches_at_def)

lemma map_eq_weaken:
  assumes eq: "map f xs = map f ys" and weaker: "\<And>x y. f x = f y \<Longrightarrow> g x = g y"
  shows "map g xs = map g ys"
proof (rule nth_equalityI)
  have len: "length xs = length ys" using eq by (rule map_eq_imp_length_eq)
  then show "length (map g xs) = length (map g ys)" by simp
  fix i assume "i < length (map g xs)"
  then have "f (xs ! i) = f (ys ! i)" "i < length xs" "i < length ys"
    using eq len by (metis length_map nth_map)+
  then show "map g xs ! i = map g ys ! i" using weaker [of "xs ! i" "ys ! i"] by simp
qed

lemma matches_at_trim: "matches_at trim_end ls pat i \<Longrightarrow> matches_at trim ls pat i"
  unfolding matches_at_def by (erule map_eq_weaken) (rule trim_end_cong_trim)

lemma matches_at_normalise: "matches_at trim ls pat i \<Longrightarrow> matches_at normalise ls pat i"
  unfolding matches_at_def by (erule map_eq_weaken) (simp add: normalise_def)

lemmas matches_at_weaken = matches_at_trim_end matches_at_trim matches_at_normalise

definition search_from :: "rstr list \<Rightarrow> rstr list \<Rightarrow> nat \<Rightarrow> bool \<Rightarrow> nat" where
  "search_from ls pat start eof = (if eof then length ls - length pat else start)"

lemma seek_sequence_unfold:
  assumes "pat \<noteq> []" "length pat \<le> length ls"
  shows "seek_sequence ls pat start eof =
    (let from = search_from ls pat start eof
     in case seek_pass (\<lambda>s. s) ls pat from of Some i \<Rightarrow> Some i
        | None \<Rightarrow> (case seek_pass trim_end ls pat from of Some i \<Rightarrow> Some i
        | None \<Rightarrow> (case seek_pass trim ls pat from of Some i \<Rightarrow> Some i
        | None \<Rightarrow> seek_pass normalise ls pat from)))"
  using assms by (simp add: seek_sequence_def search_from_def)

lemma seek_sequence_length: "seek_sequence ls pat start eof = Some i \<Longrightarrow> pat \<noteq> [] \<Longrightarrow> length pat \<le> length ls"
  by (auto simp: seek_sequence_def split: if_splits)

lemma seek_sequence_Some:
  assumes "seek_sequence ls pat start eof = Some i" "pat \<noteq> []"
  shows "search_from ls pat start eof \<le> i" "i + length pat \<le> length ls"
    "matches_at normalise ls pat i"
proof -
  note le = seek_sequence_length [OF assms]
  have "\<exists>f \<in> {\<lambda>s. s, trim_end, trim, normalise}. seek_pass f ls pat (search_from ls pat start eof) = Some i"
    using assms unfolding seek_sequence_unfold [OF assms(2) le] by (auto simp: Let_def split: option.splits)
  then obtain f where f: "f \<in> {\<lambda>s. s, trim_end, trim, normalise}"
      "seek_pass f ls pat (search_from ls pat start eof) = Some i" by blast
  note pass = f(2) [unfolded seek_pass_Some [OF le]]
  then show "search_from ls pat start eof \<le> i" "i + length pat \<le> length ls" by simp_all
  show "matches_at normalise ls pat i" using pass f(1) by (auto intro: matches_at_weaken)
qed

lemma seek_sequence_None:
  assumes "seek_sequence ls pat start eof = None"
    and "search_from ls pat start eof \<le> i" "i + length pat \<le> length ls"
  shows "\<not> matches_at normalise ls pat i"
proof -
  have ne: "pat \<noteq> []" and le: "length pat \<le> length ls"
    using assms by (auto simp: seek_sequence_def)
  have "seek_pass normalise ls pat (search_from ls pat start eof) = None"
    using assms(1) unfolding seek_sequence_unfold [OF ne le] by (auto simp: Let_def split: option.splits)
  then show ?thesis using assms(2,3) by (simp add: seek_pass_None [OF le])
qed

lemma seek_sequence_exact:
  assumes "pat \<noteq> []" "search_from ls pat start eof \<le> i" "i + length pat \<le> length ls"
    and "take (length pat) (drop i ls) = pat"
    and "\<And>j. search_from ls pat start eof \<le> j \<Longrightarrow> j < i \<Longrightarrow> take (length pat) (drop j ls) \<noteq> pat"
  shows "seek_sequence ls pat start eof = Some i"
proof -
  have le: "length pat \<le> length ls" using assms(3) by simp
  have "seek_pass (\<lambda>s. s) ls pat (search_from ls pat start eof) = Some i"
    using assms by (auto simp: seek_pass_Some [OF le] matches_at_def)
  then show ?thesis by (simp add: seek_sequence_unfold [OF assms(1) le])
qed

section \<open>Replacements are in range\<close>

lemma seek_sequence_bound:
  assumes "seek_sequence ls pat start eof = Some i" "start \<le> length ls"
  shows "i + length pat \<le> length ls"
  using assms seek_sequence_Some(2) [OF assms(1)] by (cases "pat = []") (auto simp: seek_sequence_def)

lemma seek_context_bound:
  assumes "seek_context ls path ctx i = Inr j" "i \<le> length ls"
  shows "i \<le> j" "j \<le> length ls"
  using assms seek_sequence_Some [of ls _ i False]
  by (force simp: seek_context_def search_from_def split: option.splits)+

lemma find_old_lines_seek:
  "find_old_lines ls c i = (Some k, pat, new) \<Longrightarrow> seek_sequence ls pat i (is_end_of_file c) = Some k"
  by (auto simp: find_old_lines_def Let_def split: if_splits)

lemma find_old_lines_bound:
  assumes "find_old_lines ls c i = (Some k, pat, new)" "i \<le> length ls"
  shows "k + length pat \<le> length ls"
  using seek_sequence_bound [OF find_old_lines_seek [OF assms(1)] assms(2)] .

lemma replacements_loop_bound:
  assumes "replacements_loop ls path cs i rs = Inr rs'" "i \<le> length ls"
    and "\<forall>(s, n, new) \<in> set rs. s + n \<le> length ls"
  shows "\<forall>(s, n, new) \<in> set rs'. s + n \<le> length ls"
  using assms
proof (induction ls path cs i rs rule: replacements_loop.induct)
  case (2 ls path c cs i rs)
  then obtain j where j: "seek_context ls path (change_context c) i = Inr j"
    by (auto split: sum.splits)
  have jl: "j \<le> length ls" using seek_context_bound(2) [OF j] 2 by simp
  show ?case
  proof (cases "old_lines c = []")
    case True
    with 2 j jl show ?thesis by (auto simp: Let_def split: if_splits)
  next
    case False
    with 2 j obtain k pat new where f: "find_old_lines ls c j = (Some k, pat, new)"
      by (auto split: prod.splits option.splits)
    with find_old_lines_bound [OF f jl] show ?thesis using 2 j jl False by auto
  qed
qed auto

section \<open>Application as splicing\<close>

lemma remove_loop_eq: "s \<le> length ls \<Longrightarrow> remove_loop s n ls = take s ls @ drop (s + n) ls"
proof (induction n arbitrary: ls)
  case (Suc n)
  show ?case
  proof (cases "s < length ls")
    case True
    then show ?thesis by (simp add: Suc add.commute)
  qed (use Suc in simp)
qed simp

lemma insert_loop_eq:
  "s \<le> length ls \<Longrightarrow> insert_loop s seg ls = Some (take s ls @ seg @ drop s ls)"
  by (induction seg arbitrary: s ls) (auto simp: vec_insert_def)

lemma apply_one_eq:
  "s \<le> length ls \<Longrightarrow> apply_one (s, n, seg) ls = Some (take s ls @ seg @ drop (s + n) ls)"
  by (simp add: apply_one_def remove_loop_eq insert_loop_eq)

lemma apply_rev_append:
  "apply_rev (xs @ ys) ls = (case apply_rev xs ls of None \<Rightarrow> None | Some ls' \<Rightarrow> apply_rev ys ls')"
  by (induction xs arbitrary: ls) (auto split: option.splits)

lemma apply_rev_total:
  assumes "sorted_wrt (\<lambda>r r'. fst r' \<le> fst r) rs" "\<forall>r \<in> set rs. fst r \<le> length ls"
  shows "\<exists>ls'. apply_rev rs ls = Some ls'"
  using assms
proof (induction rs arbitrary: ls)
  case (Cons r rs)
  obtain s n seg where r: "r = (s, n, seg)" by (cases r) auto
  let ?ls = "take s ls @ seg @ drop (s + n) ls"
  have "\<forall>r' \<in> set rs. fst r' \<le> length ?ls" using Cons.prems r by auto
  then have "\<exists>ls'. apply_rev rs ?ls = Some ls'" using Cons by simp
  then show ?case using Cons.prems r by (simp add: apply_one_eq)
qed simp

text \<open>The reference: one walk over the original lines that replaces block after block.\<close>

fun chained :: "nat \<Rightarrow> replacement list \<Rightarrow> nat \<Rightarrow> bool" where
  "chained p [] len \<longleftrightarrow> p \<le> len"
| "chained p ((s, n, seg) # rs) len \<longleftrightarrow> p \<le> s \<and> chained (s + n) rs len"

fun splice :: "nat \<Rightarrow> replacement list \<Rightarrow> rstr list \<Rightarrow> rstr list" where
  "splice p [] ls = drop p ls"
| "splice p ((s, n, seg) # rs) ls = take (s - p) (drop p ls) @ seg @ splice (s + n) rs ls"

lemma chained_bounds: "chained p rs len \<Longrightarrow> p \<le> len \<and> (\<forall>(s, n, seg) \<in> set rs. p \<le> s \<and> s + n \<le> len)"
  by (induction p rs len rule: chained.induct) fastforce+

lemma chained_sorted: "chained p rs len \<Longrightarrow> sorted (map fst rs)"
proof (induction p rs len rule: chained.induct)
  case (2 p s n seg rs len)
  then show ?case using chained_bounds [of "s + n" rs len] by fastforce
qed simp

lemma apply_chained:
  "chained p rs (length ls) \<Longrightarrow> apply_rev (rev rs) ls = Some (take p ls @ splice p rs ls)"
proof (induction rs arbitrary: p)
  case (Cons r rs)
  obtain s n seg where r: "r = (s, n, seg)" by (cases r) auto
  have le: "p \<le> s" "s + n \<le> length ls"
    using Cons.prems chained_bounds [of "s + n" rs "length ls"] by (simp_all add: r)
  have "take p ls @ take (s - p) (drop p ls) = take s ls"
    using le(1) take_add [of p "s - p" ls] by simp
  then have "take p ls @ splice p (r # rs) ls = take s ls @ seg @ splice (s + n) rs ls"
    by (simp add: r flip: append_assoc)
  then show ?case using Cons le by (simp add: r apply_rev_append apply_one_eq)
qed simp

lemma apply_replacements_chained:
  "chained 0 rs (length ls) \<Longrightarrow> apply_replacements ls rs = Some (splice 0 rs ls)"
  using apply_chained [of 0 rs ls] by (simp add: apply_replacements_def)

section \<open>What the replacements of plain chunks are\<close>

text \<open>A chunk that is neither anchored at the end of the file nor a pure insertion.\<close>

definition plain_chunk :: "update_file_chunk \<Rightarrow> bool" where
  "plain_chunk c \<longleftrightarrow> \<not> is_end_of_file c \<and> old_lines c \<noteq> []"

definition trim_last :: "rstr list \<Rightarrow> rstr list" where
  "trim_last ls = (if last_empty ls then butlast ls else ls)"

definition replaces :: "rstr list \<Rightarrow> update_file_chunk \<Rightarrow> replacement \<Rightarrow> bool" where
  "replaces ls c r \<longleftrightarrow>
     (case r of (s, n, seg) \<Rightarrow>
        (map normalise (take n (drop s ls)) = map normalise (old_lines c) \<and> seg = new_lines c) \<or>
        (last_empty (old_lines c) \<and>
         map normalise (take n (drop s ls)) = map normalise (butlast (old_lines c)) \<and>
         seg = trim_last (new_lines c)))"

lemma seek_sequence_plain:
  assumes "seek_sequence ls pat i False = Some k" "i \<le> length ls"
  shows "i \<le> k" "k + length pat \<le> length ls" "matches_at normalise ls pat k"
  using assms seek_sequence_Some [OF assms(1)]
  by (cases "pat = []"; auto simp: seek_sequence_def search_from_def matches_at_def)+

lemma find_old_lines_replaces:
  assumes "find_old_lines ls c i = (Some k, pat, new)" "i \<le> length ls" "plain_chunk c"
  shows "i \<le> k" "k + length pat \<le> length ls" "replaces ls c (k, length pat, new)"
proof -
  have "seek_sequence ls pat i False = Some k"
    using find_old_lines_seek [OF assms(1)] assms(3) by (simp add: plain_chunk_def)
  note plain = seek_sequence_plain [OF this assms(2)]
  show "i \<le> k" "k + length pat \<le> length ls" by fact+
  show "replaces ls c (k, length pat, new)"
    using plain(3) assms(1)
    by (auto simp: find_old_lines_def Let_def replaces_def matches_at_def trim_last_def split: if_splits)
qed

lemma replacements_loop_plain:
  assumes "replacements_loop ls path cs i rs = Inr rs'" "i \<le> length ls" "list_all plain_chunk cs"
  shows "\<exists>new. rs' = rs @ new \<and> chained i new (length ls) \<and> list_all2 (replaces ls) cs new"
  using assms
proof (induction ls path cs i rs rule: replacements_loop.induct)
  case (2 ls path c cs i rs)
  from 2 obtain j where j: "seek_context ls path (change_context c) i = Inr j"
    by (auto split: sum.splits)
  note jb = seek_context_bound [OF j 2(4)]
  have plain: "plain_chunk c" using 2 by simp
  with 2 j obtain k pat new where f: "find_old_lines ls c j = (Some k, pat, new)"
    by (auto simp: plain_chunk_def split: prod.splits option.splits)
  note fb = find_old_lines_replaces [OF f jb(2) plain]
  have "replacements_loop ls path cs (k + length pat) (rs @ [(k, length pat, new)]) = Inr rs'"
    using 2 j f plain by (simp add: plain_chunk_def)
  then obtain more where "rs' = (rs @ [(k, length pat, new)]) @ more"
      "chained (k + length pat) more (length ls)" "list_all2 (replaces ls) cs more"
    using 2(2) [OF j _ f [symmetric] refl refl] fb(2) 2 plain by (auto simp: plain_chunk_def)
  then show ?case using fb jb by (intro exI [of _ "(k, length pat, new) # more"]) auto
qed auto

section \<open>Texts of files\<close>

lemma join_snoc_empty: "join [10] (ls @ [[]]) = concat (map (\<lambda>l. l @ [10]) ls)"
  by (induction ls) (auto simp: join_Cons_ne)

definition file_text :: "rstr list \<Rightarrow> rstr" where
  "file_text ls = concat (map (\<lambda>l. l @ [10]) ls)"

lemma split_file_text:
  assumes "\<forall>l \<in> set ls. 10 \<notin> set l"
  shows "split_on 10 (file_text ls) = ls @ [[]]"
  unfolding file_text_def join_snoc_empty [symmetric] using assms by (intro split_on_join) auto

lemma join_trim_last: "join [10] (if last_empty r then r else r @ [[]]) = file_text (trim_last r)"
proof (cases "last_empty r")
  case True
  then have "r = butlast r @ [[]]" by (metis append_butlast_last_id last_empty_def)
  then show ?thesis using True join_snoc_empty [of "butlast r"] by (simp add: trim_last_def file_text_def)
qed (simp add: trim_last_def file_text_def join_snoc_empty)

lemma derive_new_contents_eq:
  "derive_new_contents content path chunks =
     (let ls = trim_last (split_on 10 content)
      in case compute_replacements ls path chunks of
           Inl e \<Rightarrow> Some (Inl e)
         | Inr rs \<Rightarrow> map_option (\<lambda>r. Inr (file_text (trim_last r))) (apply_replacements ls rs))"
  unfolding derive_new_contents_def join_trim_last trim_last_def [symmetric] Let_def
  by (simp split: sum.split option.split)

lemma derive_not_None [simp]: "derive_new_contents content path chunks \<noteq> None"
proof -
  define ls where "ls = trim_last (split_on 10 content)"
  have "\<exists>r. apply_replacements ls rs = Some r" if ok: "compute_replacements ls path chunks = Inr rs" for rs
  proof -
    obtain rs0 where rs0: "replacements_loop ls path chunks 0 [] = Inr rs0" "rs = sort_key fst rs0"
      using ok by (auto simp: compute_replacements_def split: sum.splits)
    have "\<forall>r \<in> set rs0. fst r \<le> length ls"
      using replacements_loop_bound [OF rs0(1)] by fastforce
    moreover have "sorted_wrt (\<lambda>r r'. fst r' \<le> fst r) (rev rs)"
      using sorted_sort_key [of fst rs0] rs0(2) by (simp add: sorted_wrt_rev sorted_wrt_map)
    ultimately show ?thesis
      using apply_rev_total [of "rev rs" ls] rs0(2) by (simp add: apply_replacements_def)
  qed
  then show ?thesis
    by (fastforce simp: derive_new_contents_eq ls_def [symmetric] split: sum.splits)
qed

section \<open>Properties\<close>

text \<open>The search finds a block of lines exactly when one is there. A position it returns lies
  at or behind the start (at the very end of the file for an end-of-file chunk), within the file,
  and its lines agree with the pattern up to white space and typographic punctuation; it returns
  none only when no position agrees even then; and the first exact occurrence wins over every
  fuzzy one.\<close>

theorem seek_sequence_correct:
  fixes ls pat start eof
  assumes "pat \<noteq> []"
  defines "fits \<equiv> \<lambda>i. search_from ls pat start eof \<le> i \<and> i + length pat \<le> length ls"
  shows "(case seek_sequence ls pat start eof of
            Some i \<Rightarrow> fits i \<and> map normalise (take (length pat) (drop i ls)) = map normalise pat
          | None \<Rightarrow> \<forall>i. fits i \<longrightarrow> map normalise (take (length pat) (drop i ls)) \<noteq> map normalise pat)
     \<and> (\<forall>i. fits i \<and> take (length pat) (drop i ls) = pat \<and>
            (\<forall>j < i. fits j \<longrightarrow> take (length pat) (drop j ls) \<noteq> pat)
          \<longrightarrow> seek_sequence ls pat start eof = Some i)"
proof (intro conjI allI impI)
  show "case seek_sequence ls pat start eof of
            Some i \<Rightarrow> fits i \<and> map normalise (take (length pat) (drop i ls)) = map normalise pat
          | None \<Rightarrow> \<forall>i. fits i \<longrightarrow> map normalise (take (length pat) (drop i ls)) \<noteq> map normalise pat"
    using seek_sequence_Some [OF _ assms(1)] seek_sequence_None [of ls pat start eof]
    by (auto simp: fits_def matches_at_def split: option.split)
next
  fix i
  assume "fits i \<and> take (length pat) (drop i ls) = pat \<and>
      (\<forall>j < i. fits j \<longrightarrow> take (length pat) (drop j ls) \<noteq> pat)"
  then show "seek_sequence ls pat start eof = Some i"
    using assms(1) by (intro seek_sequence_exact) (auto simp: fits_def)
qed

lemma seek_sequence_correct_witness:
  "seek_sequence [lit ''a'', lit ''b '', lit ''b''] [lit ''b''] 0 False = Some 2"
proof -
  let ?ls = "[lit ''a'', lit ''b '', lit ''b'']"
  have ne: "[lit ''b''] \<noteq> []" by simp
  have "take 1 (drop 2 ?ls) = [lit ''b'']" "\<forall>j < 2. take 1 (drop j ?ls) \<noteq> [lit ''b'']"
    by (auto simp: str_simps less_2_cases_iff)
  then show ?thesis
    using seek_sequence_correct [OF ne, of ?ls 0 False] by (simp add: search_from_def)
qed

text \<open>Computing the new contents of a file never panics, whatever the file and the chunks
  are: every replacement starts within the file and they are applied from the last to the first,
  so no line is inserted behind the end of the vector.\<close>

theorem derive_new_contents_total: "\<exists>r. derive_new_contents content path chunks = Some r"
  using derive_not_None by blast

text \<open>C21: an update edits only the lines it names. For chunks with old lines that are not anchored
  at the end of the file, the replacements lie one behind the other in the order of the chunks;
  each covers a block of the file that agrees with the old lines of its chunk (up to white space,
  punctuation, and a final empty line) and puts the new lines there; and the reverse application
  of the source gives the same as one walk over the file that copies everything else.\<close>

theorem plain_update_splices:
  assumes "list_all plain_chunk chunks" "compute_replacements ls path chunks = Inr rs"
  shows "chained 0 rs (length ls) \<and> list_all2 (replaces ls) chunks rs \<and>
         apply_replacements ls rs = Some (splice 0 rs ls)"
proof -
  obtain rs0 where rs0: "replacements_loop ls path chunks 0 [] = Inr rs0" "rs = sort_key fst rs0"
    using assms(2) by (auto simp: compute_replacements_def split: sum.splits)
  then have "chained 0 rs0 (length ls)" "list_all2 (replaces ls) chunks rs0"
    using replacements_loop_plain [OF rs0(1)] assms(1) by auto
  moreover have "rs = rs0"
    using chained_sorted [OF calculation(1)] rs0(2) by (simp add: sort_key_id_if_sorted)
  ultimately show ?thesis by (simp add: apply_replacements_chained)
qed

lemma plain_update_splices_witness:
  "apply_replacements [[1], [2], [3], [4]] [(0, 1, [[7]]), (2, 2, [[3], [8], [4]])] =
   Some [[7], [2], [3], [8], [4]]"
proof -
  let ?ls = "[[1], [2], [3], [4]] :: rstr list"
  let ?cs = "[\<lparr>change_context = None, old_lines = [[1]], new_lines = [[7]], is_end_of_file = False\<rparr>,
    \<lparr>change_context = Some [2], old_lines = [[3], [4]], new_lines = [[3], [8], [4]],
     is_end_of_file = False\<rparr>]"
  let ?rs = "[(0, 1, [[7]]), (2, 2, [[3], [8], [4]])] :: replacement list"
  have "list_all plain_chunk ?cs" by (simp add: plain_chunk_def)
  moreover have "compute_replacements ?ls [] ?cs = Inr ?rs"
    by (simp add: compute_replacements_def seek_context_def find_old_lines_def seek_sequence_def
        seek_pass_def matches_at_def upt_rec Let_def)
  ultimately show ?thesis using plain_update_splices [of ?cs ?ls "[]" ?rs] by simp
qed

lemma update_block:
  fixes pre old new post path
  assumes "\<forall>l \<in> set (pre @ old @ post). 10 \<notin> set l" "old \<noteq> []"
    and "\<forall>j < length pre. take (length old) (drop j (pre @ old @ post)) \<noteq> old"
  shows "derive_new_contents (file_text (pre @ old @ post)) path
           [\<lparr>change_context = None, old_lines = old, new_lines = new, is_end_of_file = False\<rparr>] =
         Some (Inr (file_text (trim_last (pre @ new @ post))))"
proof -
  let ?ls = "pre @ old @ post"
  let ?cs = "[\<lparr>change_context = None, old_lines = old, new_lines = new, is_end_of_file = False\<rparr>]"
  have ls: "trim_last (split_on 10 (file_text ?ls)) = ?ls"
    unfolding split_file_text [OF assms(1)] by (simp add: trim_last_def last_empty_def butlast_append)
  have "seek_sequence ?ls old 0 False = Some (length pre)"
    using assms(2,3) by (intro seek_sequence_exact) (auto simp: search_from_def)
  then have rs: "compute_replacements ?ls path ?cs = Inr [(length pre, length old, new)]"
    using assms(2) by (simp add: compute_replacements_def seek_context_def find_old_lines_def)
  moreover have "apply_replacements ?ls [(length pre, length old, new)] = Some (pre @ new @ post)"
    by (simp add: apply_replacements_def apply_one_eq)
  ultimately show ?thesis
    by (simp add: derive_new_contents_eq ls)
qed

text \<open>Applying one change replaces the block it names in the text of the file. When the file
  has the lines \<open>pre @ old @ post\<close> and the old lines do not occur earlier, the new text is that of
  \<open>pre @ new @ post\<close>, less one empty line at its end if there is one: a blank last line is lost
  even when the change does not touch it.\<close>

theorem update_rewrites_block:
  fixes pre old new post path
  assumes "\<forall>l \<in> set (pre @ old @ post). 10 \<notin> set l" "old \<noteq> []"
    and "\<forall>j < length pre. take (length old) (drop j (pre @ old @ post)) \<noteq> old"
  shows "derive_new_contents (file_text (pre @ old @ post)) path
           [\<lparr>change_context = None, old_lines = old, new_lines = new, is_end_of_file = False\<rparr>] =
         Some (Inr (file_text (trim_last (pre @ new @ post))))"
  using assms by (rule update_block)

lemma update_rewrites_block_witness:
  "derive_new_contents (file_text [[97], [98], []]) []
     [\<lparr>change_context = None, old_lines = [[97]], new_lines = [[99]], is_end_of_file = False\<rparr>] =
   Some (Inr (file_text [[99], [98]]))"
  using update_rewrites_block [of "[]" "[[97]]" "[[98], []]" "[]" "[[99]]"]
  by (simp add: trim_last_def last_empty_def)

end
