(* ===== verification/FileSystem.thy ===== *)
theory FileSystem
  imports Prelude
begin

text \<open>
  Paths and the file-system interface of the tools (\<^verbatim>\<open>computer/types.rs\<close>): the trait
  \<open>AsyncFileSystem\<close> as a record of operations, what its clients rely on as a locale, and the
  in-memory file system \<open>MockFs\<close> (\<^verbatim>\<open>computer/local/mock_fs.rs\<close>) as its instance.
\<close>

section \<open>Paths\<close>

text \<open>
  \<^verbatim>\<open>std::path\<close>: two paths are equal when their components are. Repeated separators and \<open>.\<close>
  are dropped, except for a leading \<open>.\<close> of a relative path.
\<close>

datatype component = RootDir | CurDir | ParentDir | Normal rstr

definition to_component :: "rstr \<Rightarrow> component" where
  "to_component s = (if s = [46, 46] then ParentDir else Normal s)"

definition components :: "rstr \<Rightarrow> component list" where
  "components p =
     (let parts = split_on 47 p
      in (if starts_with p [47] then [RootDir] else if hd parts = [46] then [CurDir] else [])
         @ map to_component (filter (\<lambda>s. s \<noteq> [] \<and> s \<noteq> [46]) parts))"

definition path_join :: "rstr \<Rightarrow> rstr \<Rightarrow> rstr" where
  "path_join base p =
     (if starts_with p [47] then p
      else if base \<noteq> [] \<and> last base \<noteq> 47 then base @ [47] @ p
      else base @ p)"

definition path_parent :: "rstr \<Rightarrow> component list option" where
  "path_parent p =
     (let cs = components p
      in if cs = [] \<or> last cs = RootDir then None else Some (butlast cs))"

section \<open>The interface\<close>

datatype io_error_kind =
    NotFound | PermissionDenied | AlreadyExists | IsADirectory | InvalidFilename | OtherKind

datatype computer_error = IOError rstr "io_error_kind option" | CommandNotQuoted

fun show_computer_error :: "computer_error \<Rightarrow> rstr" where
  "show_computer_error (IOError msg kind) = lit ''IO Error: '' @ msg"
| "show_computer_error CommandNotQuoted = lit ''UnQuoted command''"

record 'fs async_file_system =
  read_file :: "'fs \<Rightarrow> rstr \<Rightarrow> computer_error + bytes"
  write_file :: "'fs \<Rightarrow> rstr \<Rightarrow> bytes \<Rightarrow> (computer_error + unit) \<times> 'fs"
  delete_file :: "'fs \<Rightarrow> rstr \<Rightarrow> (computer_error + unit) \<times> 'fs"

text \<open>What a client can see of a file: its contents, when it can be read.\<close>

definition file_contents :: "'fs async_file_system \<Rightarrow> 'fs \<Rightarrow> rstr \<Rightarrow> bytes option" where
  "file_contents ops fs p = (case read_file ops fs p of Inr d \<Rightarrow> Some d | Inl _ \<Rightarrow> None)"

text \<open>A file system shows the files of a map when every path reads what the map has there.\<close>

definition shows_files :: "'fs async_file_system \<Rightarrow> 'fs \<Rightarrow> (component list \<rightharpoonup> bytes) \<Rightarrow> bool" where
  "shows_files ops fs m \<longleftrightarrow> (\<forall>q. file_contents ops fs q = m (components q))"

text \<open>
  The contract: a successful write is read back, a deleted file cannot be read, and no operation
  on one path is seen at another, whether it succeeds or not.
\<close>

locale file_store =
  fixes ops :: "'fs async_file_system"
  assumes write_contents:
      "write_file ops fs p d = (Inr u, fs') \<Longrightarrow> components q = components p \<Longrightarrow>
       file_contents ops fs' q = Some d"
    and write_frame:
      "write_file ops fs p d = (r, fs') \<Longrightarrow> components q \<noteq> components p \<Longrightarrow>
       file_contents ops fs' q = file_contents ops fs q"
    and delete_contents:
      "delete_file ops fs p = (Inr u, fs') \<Longrightarrow> components q = components p \<Longrightarrow>
       file_contents ops fs' q = None"
    and delete_frame:
      "delete_file ops fs p = (r, fs') \<Longrightarrow> components q \<noteq> components p \<Longrightarrow>
       file_contents ops fs' q = file_contents ops fs q"
begin

lemma shows_write:
  assumes "shows_files ops fs m" "write_file ops fs p d = (Inr u, fs')"
  shows "shows_files ops fs' (m(components p \<mapsto> d))"
  using assms write_contents [OF assms(2)] write_frame [OF assms(2)] by (auto simp: shows_files_def)

lemma shows_delete:
  assumes "shows_files ops fs m" "delete_file ops fs p = (Inr u, fs')"
  shows "shows_files ops fs' (m(components p := None))"
  using assms delete_contents [OF assms(2)] delete_frame [OF assms(2)] by (auto simp: shows_files_def)

end

section \<open>The in-memory file system\<close>

type_synonym mock_fs = "component list \<rightharpoonup> bytes"

definition mock_new :: mock_fs where
  "mock_new = Map.empty"

definition mock_set_file :: "rstr \<Rightarrow> bytes \<Rightarrow> mock_fs \<Rightarrow> mock_fs" where
  "mock_set_file p d fs = fs(components p \<mapsto> d)"

definition mock_get_file :: "rstr \<Rightarrow> mock_fs \<Rightarrow> bytes option" where
  "mock_get_file p fs = fs (components p)"

definition mock_exists :: "rstr \<Rightarrow> mock_fs \<Rightarrow> bool" where
  "mock_exists p fs \<longleftrightarrow> components p \<in> dom fs"

definition mock_ops :: "mock_fs async_file_system" where
  "mock_ops =
     \<lparr>read_file = (\<lambda>fs p. case fs (components p) of
                     Some d \<Rightarrow> Inr d
                   | None \<Rightarrow> Inl (IOError (lit ''File not found: '' @ p) (Some NotFound))),
      write_file = (\<lambda>fs p d. (Inr (), fs(components p \<mapsto> d))),
      delete_file = (\<lambda>fs p. (Inr (), fs(components p := None)))\<rparr>"

lemma mock_contents [simp]: "file_contents mock_ops fs p = fs (components p)"
  by (simp add: file_contents_def mock_ops_def split: option.split)

lemma mock_write: "write_file mock_ops fs p d = (Inr (), fs(components p \<mapsto> d))"
  and mock_delete: "delete_file mock_ops fs p = (Inr (), fs(components p := None))"
  by (simp_all add: mock_ops_def)

interpretation mock: file_store mock_ops
  by unfold_locales (auto simp: mock_write mock_delete)

lemma mock_shows: "shows_files mock_ops fs fs"
  by (simp add: shows_files_def)

end
