(* ===== verification/PatchTool.thy ===== *)
theory PatchTool
  imports PatchGrammar PatchApply FileSystem
begin

text \<open>
  The \<open>apply_patch\<close> tool (\<^verbatim>\<open>codex/apply_patch/tool.rs\<close>): parse, compute every change from the
  files as they are, then write the changes one by one. The file system is a record of operations;
  \<^verbatim>\<open>tokio::fs::create_dir_all\<close> is the argument \<open>mkdirs\<close>. A run returns the tool's result, the
  file system and the notifications it sent.
\<close>

section \<open>Data\<close>

datatype file_change =
    ChangeAdd rstr rstr
  | ChangeDelete rstr rstr
  | ChangeUpdate rstr rstr rstr
  | ChangeMove rstr rstr rstr rstr

record apply_patch_file_result =
  path :: rstr
  action :: string
  old_text :: "rstr option"
  new_text :: rstr
  move_to :: "rstr option"

datatype apply_patch_output =
    Success "apply_patch_file_result list" rstr
  | ParseError rstr
  | ApplicationError rstr
  | EmptyPatch rstr

record file_written =
  tool_call_id :: rstr
  absolute_path :: rstr
  content :: rstr
  previous_content :: "rstr option"
  is_new_file :: bool

datatype tool_error = Execution rstr

type_synonym 'fs mkdirs = "component list \<Rightarrow> 'fs \<Rightarrow> (rstr + unit) \<times> 'fs"

section \<open>Phase 2: computing the changes\<close>

definition read_file_as_string :: "'fs async_file_system \<Rightarrow> 'fs \<Rightarrow> rstr \<Rightarrow> rstr + rstr" where
  "read_file_as_string ops fs p =
     (case read_file ops fs p of
        Inl e \<Rightarrow> Inl (show_computer_error e)
      | Inr d \<Rightarrow> Inr (from_utf8_lossy d))"

definition show_parse_error :: "parse_error \<Rightarrow> rstr" where
  "show_parse_error e =
     (case e of
        InvalidPatchError m \<Rightarrow> lit ''invalid patch: '' @ m
      | InvalidHunkError m n \<Rightarrow> lit ''invalid hunk at line '' @ show_nat n @ lit '', '' @ m)"

definition show_apply_error :: "apply_patch_error \<Rightarrow> rstr" where
  "show_apply_error e =
     (case e of
        Parse p \<Rightarrow> show_parse_error p
      | ComputeReplacements msg \<Rightarrow> msg
      | Io ctx msg p \<Rightarrow> ctx @ lit '': '' @ msg)"

text \<open>The change of one hunk; \<open>None\<close> is a panic.\<close>

definition compute_change :: "rstr \<Rightarrow> 'fs async_file_system \<Rightarrow> 'fs \<Rightarrow> hunk
    \<Rightarrow> (rstr + file_change) option" where
  "compute_change cwd ops fs h =
     (case h of
        AddFile p contents \<Rightarrow> Some (Inr (ChangeAdd (path_join cwd p) contents))
      | DeleteFile p \<Rightarrow>
          (let resolved = path_join cwd p
           in case read_file_as_string ops fs resolved of
                Inl e \<Rightarrow> Some (Inl (lit ''Failed to read file: '' @ resolved @ lit '', '' @ e))
              | Inr original \<Rightarrow> Some (Inr (ChangeDelete resolved original)))
      | UpdateFile p move_path chunks \<Rightarrow>
          (let resolved = path_join cwd p
           in case read_file_as_string ops fs resolved of
                Inl e \<Rightarrow> Some (Inl (lit ''Failed to read file to update: '' @ resolved @ lit '', '' @ e))
              | Inr original \<Rightarrow>
                  (case derive_new_contents original resolved chunks of
                     None \<Rightarrow> None
                   | Some (Inl e) \<Rightarrow> Some (Inl (show_apply_error e))
                   | Some (Inr new) \<Rightarrow>
                       Some (Inr (case move_path of
                         Some dest \<Rightarrow> ChangeMove resolved (path_join cwd dest) original new
                       | None \<Rightarrow> ChangeUpdate resolved original new)))))"

fun compute_all_changes :: "rstr \<Rightarrow> 'fs async_file_system \<Rightarrow> 'fs \<Rightarrow> hunk list
    \<Rightarrow> (rstr + file_change list) option" where
  "compute_all_changes cwd ops fs [] = Some (Inr [])"
| "compute_all_changes cwd ops fs (h # hs) =
     (case compute_change cwd ops fs h of
        None \<Rightarrow> None
      | Some (Inl e) \<Rightarrow> Some (Inl e)
      | Some (Inr c) \<Rightarrow>
          (case compute_all_changes cwd ops fs hs of
             None \<Rightarrow> None
           | Some (Inl e) \<Rightarrow> Some (Inl e)
           | Some (Inr cs) \<Rightarrow> Some (Inr (c # cs))))"

section \<open>Phase 3: writing the changes\<close>

definition ensure_parent_dirs :: "'fs mkdirs \<Rightarrow> rstr \<Rightarrow> 'fs \<Rightarrow> (tool_error + unit) \<times> 'fs" where
  "ensure_parent_dirs mkdirs p fs =
     (case path_parent p of
        None \<Rightarrow> (Inr (), fs)
      | Some parent \<Rightarrow>
          if parent = [] then (Inr (), fs)
          else (case mkdirs parent fs of
                  (Inl e, fs') \<Rightarrow> (Inl (Execution e), fs')
                | (Inr _, fs') \<Rightarrow> (Inr (), fs')))"

definition try_write :: "'fs async_file_system \<Rightarrow> rstr \<Rightarrow> rstr \<Rightarrow> 'fs \<Rightarrow> (tool_error + unit) \<times> 'fs" where
  "try_write ops p text fs =
     (case write_file ops fs p (as_bytes text) of
        (Inl e, fs') \<Rightarrow> (Inl (Execution (show_computer_error e)), fs')
      | (Inr _, fs') \<Rightarrow> (Inr (), fs'))"

definition try_delete :: "'fs async_file_system \<Rightarrow> rstr \<Rightarrow> 'fs \<Rightarrow> (tool_error + unit) \<times> 'fs" where
  "try_delete ops p fs =
     (case delete_file ops fs p of
        (Inl e, fs') \<Rightarrow> (Inl (Execution (show_computer_error e)), fs')
      | (Inr _, fs') \<Rightarrow> (Inr (), fs'))"

text \<open>The \<open>?\<close> operator on two effectful steps.\<close>

definition and_then :: "('fs \<Rightarrow> (tool_error + unit) \<times> 'fs) \<Rightarrow> ('fs \<Rightarrow> (tool_error + unit) \<times> 'fs)
    \<Rightarrow> 'fs \<Rightarrow> (tool_error + unit) \<times> 'fs" where
  "and_then f g fs = (case f fs of (Inl e, fs') \<Rightarrow> (Inl e, fs') | (Inr _, fs') \<Rightarrow> g fs')"

definition change_effect :: "'fs async_file_system \<Rightarrow> 'fs mkdirs \<Rightarrow> file_change \<Rightarrow> 'fs
    \<Rightarrow> (tool_error + unit) \<times> 'fs" where
  "change_effect ops mkdirs c =
     (case c of
        ChangeAdd p text \<Rightarrow> and_then (ensure_parent_dirs mkdirs p) (try_write ops p text)
      | ChangeDelete p original \<Rightarrow> try_delete ops p
      | ChangeUpdate p original new \<Rightarrow> try_write ops p new
      | ChangeMove src dest original new \<Rightarrow>
          and_then (ensure_parent_dirs mkdirs dest)
            (and_then (try_write ops dest new) (try_delete ops src)))"

definition change_notes :: "rstr \<Rightarrow> file_change \<Rightarrow> file_written list" where
  "change_notes call_id c =
     (case c of
        ChangeAdd p text \<Rightarrow>
          [\<lparr>tool_call_id = call_id, absolute_path = p, content = text, previous_content = None,
            is_new_file = True\<rparr>]
      | ChangeDelete p original \<Rightarrow>
          [\<lparr>tool_call_id = call_id, absolute_path = p, content = [], previous_content = Some original,
            is_new_file = False\<rparr>]
      | ChangeUpdate p original new \<Rightarrow>
          [\<lparr>tool_call_id = call_id, absolute_path = p, content = new, previous_content = Some original,
            is_new_file = False\<rparr>]
      | ChangeMove src dest original new \<Rightarrow>
          [\<lparr>tool_call_id = call_id, absolute_path = dest, content = new, previous_content = None,
            is_new_file = True\<rparr>,
           \<lparr>tool_call_id = call_id, absolute_path = src, content = [],
            previous_content = Some original, is_new_file = False\<rparr>])"

definition change_result :: "file_change \<Rightarrow> apply_patch_file_result" where
  "change_result c =
     (case c of
        ChangeAdd p text \<Rightarrow>
          \<lparr>path = p, action = ''added'', old_text = None, new_text = text, move_to = None\<rparr>
      | ChangeDelete p original \<Rightarrow>
          \<lparr>path = p, action = ''deleted'', old_text = Some original, new_text = [], move_to = None\<rparr>
      | ChangeUpdate p original new \<Rightarrow>
          \<lparr>path = p, action = ''modified'', old_text = Some original, new_text = new, move_to = None\<rparr>
      | ChangeMove src dest original new \<Rightarrow>
          \<lparr>path = src, action = ''moved'', old_text = Some original, new_text = new,
           move_to = Some dest\<rparr>)"

fun apply_changes :: "'fs async_file_system \<Rightarrow> 'fs mkdirs \<Rightarrow> rstr \<Rightarrow> file_change list \<Rightarrow> 'fs
    \<Rightarrow> (tool_error + apply_patch_file_result list) \<times> 'fs \<times> file_written list" where
  "apply_changes ops mkdirs call_id [] fs = (Inr [], fs, [])"
| "apply_changes ops mkdirs call_id (c # cs) fs =
     (case change_effect ops mkdirs c fs of
        (Inl e, fs') \<Rightarrow> (Inl e, fs', [])
      | (Inr _, fs') \<Rightarrow>
          (case apply_changes ops mkdirs call_id cs fs' of
             (Inl e, fs'', notes) \<Rightarrow> (Inl e, fs'', change_notes call_id c @ notes)
           | (Inr rs, fs'', notes) \<Rightarrow>
               (Inr (change_result c # rs), fs'', change_notes call_id c @ notes)))"

section \<open>The run\<close>

definition build_summary :: "apply_patch_file_result list \<Rightarrow> rstr" where
  "build_summary results =
     lit ''Success. Updated the following files:'' @ [10] @
     concat (map (\<lambda>r.
       (if action r = ''added'' then lit ''A'' else if action r = ''deleted'' then lit ''D''
        else if action r = ''moved'' then lit ''M'' else lit ''M'') @ [32] @ path r @ [10]) results)"

definition parse_failure :: "parse_error \<Rightarrow> rstr" where
  "parse_failure e =
     (case e of
        InvalidPatchError m \<Rightarrow> lit ''Invalid patch: '' @ m
      | InvalidHunkError m n \<Rightarrow> lit ''Invalid patch hunk on line '' @ show_nat n @ lit '': '' @ m)"

definition run :: "'fs async_file_system \<Rightarrow> 'fs mkdirs \<Rightarrow> rstr \<Rightarrow> rstr \<Rightarrow> rstr \<Rightarrow> 'fs
    \<Rightarrow> ((tool_error + apply_patch_output) \<times> 'fs \<times> file_written list) option" where
  "run ops mkdirs cwd call_id input fs =
     (case parse_patch input of
        Inl e \<Rightarrow> Some (Inr (ParseError (parse_failure e)), fs, [])
      | Inr parsed \<Rightarrow>
          if hunks parsed = [] then
            Some (Inr (EmptyPatch (lit ''No files were modified.'')), fs, [])
          else
            (case compute_all_changes cwd ops fs (hunks parsed) of
               None \<Rightarrow> None
             | Some (Inl msg) \<Rightarrow> Some (Inr (ApplicationError msg), fs, [])
             | Some (Inr changes) \<Rightarrow>
                 (case apply_changes ops mkdirs call_id changes fs of
                    (Inl e, fs', notes) \<Rightarrow> Some (Inl e, fs', notes)
                  | (Inr results, fs', notes) \<Rightarrow>
                      Some (Inr (Success results (build_summary results)), fs', notes))))"

end
