(* ===== verification/PatchToolProps.thy ===== *)
theory PatchToolProps
  imports PatchTool
begin

text \<open>
  What the \<open>apply_patch\<close> tool promises over any file system that keeps its contract: a patch that
  cannot be applied changes nothing, a patch that is applied has exactly the effect of its
  changes on the map of files, and a patch written from a diff turns the old text into the new
  one.
\<close>

lemma and_then_ok:
  "and_then f g fs = (Inr u, fs') \<longleftrightarrow> (\<exists>fs1. f fs = (Inr (), fs1) \<and> g fs1 = (Inr u, fs'))"
  by (auto simp: and_then_def split: prod.splits sum.splits)

section \<open>The abstract effect of changes\<close>

fun change_files :: "file_change \<Rightarrow> (component list \<rightharpoonup> bytes) \<Rightarrow> (component list \<rightharpoonup> bytes)" where
  "change_files (ChangeAdd p text) m = m(components p \<mapsto> as_bytes text)"
| "change_files (ChangeDelete p original) m = m(components p := None)"
| "change_files (ChangeUpdate p original new) m = m(components p \<mapsto> as_bytes new)"
| "change_files (ChangeMove src dest original new) m =
     (m(components dest \<mapsto> as_bytes new))(components src := None)"

text \<open>The environment of a run: a file store, and directory creation that no file notices.\<close>

locale patch_environment = file_store ops
  for ops :: "'fs async_file_system" +
  fixes mkdirs :: "'fs mkdirs"
  assumes mkdirs_frame: "mkdirs d fs = (r, fs') \<Longrightarrow> file_contents ops fs' q = file_contents ops fs q"
begin

lemma shows_parents:
  assumes "shows_files ops fs m" "ensure_parent_dirs mkdirs p fs = (r, fs')"
  shows "shows_files ops fs' m"
  using assms
  by (auto simp: ensure_parent_dirs_def shows_files_def mkdirs_frame
      split: option.splits if_splits prod.splits sum.splits)

lemma shows_try_write:
  assumes "shows_files ops fs m" "try_write ops p text fs = (Inr u, fs')"
  shows "shows_files ops fs' (m(components p \<mapsto> as_bytes text))"
  using assms by (auto simp: try_write_def shows_write split: prod.splits sum.splits)

lemma shows_try_delete:
  assumes "shows_files ops fs m" "try_delete ops p fs = (Inr u, fs')"
  shows "shows_files ops fs' (m(components p := None))"
  using assms by (auto simp: try_delete_def shows_delete split: prod.splits sum.splits)

lemma change_effect_files:
  assumes "shows_files ops fs m" "change_effect ops mkdirs c fs = (Inr u, fs')"
  shows "shows_files ops fs' (change_files c m)"
  using assms
  by (cases c; auto simp: change_effect_def and_then_ok
      dest: shows_parents shows_try_write shows_try_delete;
      metis shows_parents shows_try_write shows_try_delete)

lemma apply_changes_files:
  assumes "shows_files ops fs m" "apply_changes ops mkdirs call_id cs fs = (Inr rs, fs', ns)"
  shows "shows_files ops fs' (fold change_files cs m) \<and> rs = map change_result cs \<and>
         ns = concat (map (change_notes call_id) cs)"
  using assms
proof (induction cs arbitrary: fs m rs ns)
  case (Cons c cs)
  then obtain fs1 rs1 ns1 where step: "change_effect ops mkdirs c fs = (Inr (), fs1)"
      "apply_changes ops mkdirs call_id cs fs1 = (Inr rs1, fs', ns1)"
    and rs: "rs = change_result c # rs1" "ns = change_notes call_id c @ ns1"
    by (auto split: prod.splits sum.splits)
  from Cons.IH [OF change_effect_files [OF Cons.prems(1) step(1)] step(2)] rs show ?case by simp
qed simp

end

definition no_mkdirs :: "mock_fs mkdirs" where
  "no_mkdirs d fs = (Inr (), fs)"

interpretation mock_env: patch_environment mock_ops no_mkdirs
  by unfold_locales (simp add: no_mkdirs_def)

lemma mock_change_effect: "change_effect mock_ops no_mkdirs c fs = (Inr (), change_files c fs)"
  by (cases c) (simp_all add: change_effect_def and_then_def ensure_parent_dirs_def try_write_def
      try_delete_def mock_write mock_delete no_mkdirs_def split: option.splits)

lemma mock_apply_changes:
  "apply_changes mock_ops no_mkdirs call_id cs fs =
     (Inr (map change_result cs), fold change_files cs fs, concat (map (change_notes call_id) cs))"
  by (induction cs arbitrary: fs) (simp_all add: mock_change_effect)

section \<open>Properties\<close>

lemma compute_all_changes_total: "compute_all_changes cwd ops fs hs \<noteq> None"
proof (induction hs)
  case (Cons h hs)
  have "compute_change cwd ops fs h \<noteq> None"
    by (auto simp: compute_change_def Let_def split: hunk.splits sum.splits option.splits)
  with Cons show ?case by (auto split: option.splits sum.splits)
qed simp


definition two_hunks :: "file_op list" where
  "two_hunks = [AddOp (lit ''a'') [lit ''x''], DeleteOp (lit ''b'')]"

lemma wf_two_hunks: "list_all wf_op two_hunks"
  by (simp add: two_hunks_def file_name_def line_text_def strip_cr_id_iff trim_end_id_iff
      is_whitespace_def str_simps)


lemma run_success_changes:
  assumes "patch_environment ops mkdirs" "shows_files ops fs m"
    and "run ops mkdirs cwd call_id input fs = Some (Inr (Success files summary), fs', ns)"
  shows "\<exists>p cs. parse_patch input = Inr p \<and> compute_all_changes cwd ops fs (hunks p) = Some (Inr cs) \<and>
     shows_files ops fs' (fold change_files cs m) \<and> files = map change_result cs \<and>
     ns = concat (map (change_notes call_id) cs) \<and> summary = build_summary files"
  using assms(3) patch_environment.apply_changes_files [OF assms(1,2)]
  by (fastforce simp: run_def split: sum.splits if_splits option.splits prod.splits)

text \<open>C6: a successful run has exactly the effect of its changes. Over any file system that keeps
  the contract, if the files before are those of the map \<open>m\<close>, the files after are those of \<open>m\<close>
  with every change of the parsed patch carried out in order, all other files untouched, and the
  reported results and notifications are those of these changes.\<close>

theorem run_success_refines:
  assumes "patch_environment ops mkdirs" "shows_files ops fs m"
    and "run ops mkdirs cwd call_id input fs = Some (Inr (Success files summary), fs', ns)"
  shows "\<exists>p cs. parse_patch input = Inr p \<and> compute_all_changes cwd ops fs (hunks p) = Some (Inr cs) \<and>
     shows_files ops fs' (fold change_files cs m) \<and> files = map change_result cs \<and>
     ns = concat (map (change_notes call_id) cs) \<and> summary = build_summary files"
  using run_success_changes [OF assms] .

lemma mock_run_success:
  assumes "list_all wf_op fs" "fs \<noteq> []"
    and "compute_all_changes cwd mock_ops st (map hunk_of fs) = Some (Inr cs)"
  shows "run mock_ops no_mkdirs cwd call_id (print_patch fs) st =
    Some (Inr (Success (map change_result cs) (build_summary (map change_result cs))),
          fold change_files cs st, concat (map (change_notes call_id) cs))"
  using assms by (simp add: run_def parse_printed mock_apply_changes)

lemma run_success_refines_witness:
  "\<exists>cs. shows_files mock_ops [components (lit ''/w/a'') \<mapsto> lit ''x'' @ [10]]
          (fold change_files cs Map.empty) \<and> map action (map change_result cs) = [''added'']"
proof -
  let ?fs = "[AddOp (lit ''a'') [lit ''x'']]"
  let ?cs = "[ChangeAdd (path_join (lit ''/w'') (lit ''a'')) (lit ''x'' @ [10])]"
  have wf: "list_all wf_op ?fs"
    by (simp add: file_name_def line_text_def strip_cr_id_iff trim_end_id_iff is_whitespace_def str_simps)
  have cs: "compute_all_changes (lit ''/w'') mock_ops mock_new (map hunk_of ?fs) = Some (Inr ?cs)"
    by (simp add: compute_change_def)
  have st: "fold change_files ?cs mock_new = [components (lit ''/w/a'') \<mapsto> lit ''x'' @ [10]]"
    by (simp add: mock_new_def path_join_def starts_with_def str_simps encode_rune_def)
  have "run mock_ops no_mkdirs (lit ''/w'') [] (print_patch ?fs) mock_new =
      Some (Inr (Success (map change_result ?cs) (build_summary (map change_result ?cs))),
            [components (lit ''/w/a'') \<mapsto> lit ''x'' @ [10]], concat (map (change_notes []) ?cs))"
    using mock_run_success [OF wf _ cs, of "[]"] st by simp
  from run_success_refines [OF mock_env.patch_environment_axioms mock_shows this]
  show ?thesis
  proof (elim exE conjE)
    fix p cs'
    assume "shows_files mock_ops [components (lit ''/w/a'') \<mapsto> lit ''x'' @ [10]]
        (fold change_files cs' mock_new)" and eq: "map change_result ?cs = map change_result cs'"
    moreover have "map action (map change_result cs') = [''added'']" unfolding eq [symmetric]
      by (simp add: change_result_def)
    ultimately show ?thesis unfolding mock_new_def by (intro exI [of _ cs'] conjI)
  qed
qed

lemma valid_file_text: "(\<forall>l \<in> set ls. valid_str l) \<Longrightarrow> valid_str (file_text ls)"
  by (induction ls) (simp_all add: file_text_def valid_rune_def)

lemma mock_diff_patch:
  fixes st :: mock_fs
  assumes old: "old = concat (map old_of ds)" and new: "new = concat (map new_of ds)"
    and f: "f = components (path_join cwd p)"
    and wf: "wf_op (UpdateOp p None [Change None ds False])" and ne: "old \<noteq> []"
    and texts: "\<forall>l \<in> set (pre @ old @ post). 10 \<notin> set l \<and> valid_str l"
    and first: "\<forall>j < length pre. take (length old) (drop j (pre @ old @ post)) \<noteq> old"
    and stored: "st f = Some (as_bytes (file_text (pre @ old @ post)))"
  shows "\<exists>files summary ns.
     run mock_ops no_mkdirs cwd call_id (print_patch [UpdateOp p None [Change None ds False]]) st =
     Some (Inr (Success files summary),
           st(f \<mapsto> as_bytes (file_text (trim_last (pre @ new @ post)))), ns)"
proof -
  let ?op = "UpdateOp p None [Change None ds False]" and ?r = "path_join cwd p"
  have "valid_str (file_text (pre @ old @ post))"
    using texts by (simp add: valid_file_text)
  then have read: "read_file_as_string mock_ops st ?r = Inr (file_text (pre @ old @ post))"
    using stored by (simp add: read_file_as_string_def mock_ops_def f from_utf8_lossy_as_bytes)
  have "derive_new_contents (file_text (pre @ old @ post)) ?r [chunk_of (Change None ds False)] =
      Some (Inr (file_text (trim_last (pre @ new @ post))))"
    using update_block [of pre old post ?r new] texts ne first by (simp add: old new)
  then have "compute_all_changes cwd mock_ops st (map hunk_of [?op]) =
      Some (Inr [ChangeUpdate ?r (file_text (pre @ old @ post)) (file_text (trim_last (pre @ new @ post)))])"
    by (simp add: compute_change_def read)
  from mock_run_success [OF _ _ this] show ?thesis
    using wf by (simp add: f)
qed

text \<open>C14: end to end, a patch written from a diff turns the old text of a file into the new one.
  When the file has the lines \<open>pre @ old @ post\<close> and the old lines of the diff do not occur
  earlier, running the tool on the printed patch succeeds, and the file then has the lines
  \<open>pre @ new @ post\<close> in UTF-8 (less one empty last line), with no other file changed.\<close>

theorem diff_patch_updates_file:
  fixes st :: mock_fs
  assumes "old = concat (map old_of ds)" "new = concat (map new_of ds)"
    and "f = components (path_join cwd p)"
    and "wf_op (UpdateOp p None [Change None ds False])" "old \<noteq> []"
    and "\<forall>l \<in> set (pre @ old @ post). 10 \<notin> set l \<and> valid_str l"
    and "\<forall>j < length pre. take (length old) (drop j (pre @ old @ post)) \<noteq> old"
    and "st f = Some (as_bytes (file_text (pre @ old @ post)))"
  shows "\<exists>files summary ns.
     run mock_ops no_mkdirs cwd call_id (print_patch [UpdateOp p None [Change None ds False]]) st =
     Some (Inr (Success files summary),
           st(f \<mapsto> as_bytes (file_text (trim_last (pre @ new @ post)))), ns)"
  using assms by (rule mock_diff_patch)

lemma diff_patch_updates_file_witness:
  "\<exists>files summary ns.
     run mock_ops no_mkdirs [119] [] (print_patch [UpdateOp [97] None [Change None [Removed [120], Added [121]] False]])
       [components [119, 47, 97] \<mapsto> [120, 10]] =
     Some (Inr (Success files summary), [components [119, 47, 97] \<mapsto> [121, 10]], ns)"
proof -
  let ?ds = "[Removed [120], Added [121]]"
  have "wf_op (UpdateOp [97] None [Change None ?ds False])"
    by (simp add: file_name_def line_text_def strip_cr_id_iff trim_end_id_iff is_whitespace_def)
  from diff_patch_updates_file [OF refl refl refl this, where pre = "[]" and post = "[]" and cwd = "[119]"
      and st = "[components [119, 47, 97] \<mapsto> [120, 10]]" and call_id = "[]"]
  show ?thesis
    by (simp add: path_join_def starts_with_def file_text_def trim_last_def last_empty_def
        encode_rune_def valid_rune_def)
qed

lemma compute_change_update:
  "compute_change cwd ops fs (UpdateFile p mv cs) = Some (Inr c) \<longleftrightarrow>
   (\<exists>original new. read_file_as_string ops fs (path_join cwd p) = Inr original \<and>
      derive_new_contents original (path_join cwd p) cs = Some (Inr new) \<and>
      c = (case mv of Some dest \<Rightarrow> ChangeMove (path_join cwd p) (path_join cwd dest) original new
           | None \<Rightarrow> ChangeUpdate (path_join cwd p) original new))"
  by (auto simp: compute_change_def Let_def split: sum.splits option.splits)

text \<open>The changes of a patch are computed from the files as they were before it, so two update
  sections for one file do not compose: after a successful run the file holds what the second
  section makes of the old contents, and the edits of the first are gone.\<close>

theorem same_file_updates_lost:
  assumes "patch_environment ops mkdirs" "shows_files ops fs m"
    and "parse_patch input = Inr pp" "hunks pp = [UpdateFile p None cs1, UpdateFile p None cs2]"
    and "run ops mkdirs cwd call_id input fs = Some (Inr (Success files summary), fs', ns)"
    and "read_file_as_string ops fs (path_join cwd p) = Inr original"
  shows "\<exists>new. derive_new_contents original (path_join cwd p) cs2 = Some (Inr new) \<and>
          file_contents ops fs' (path_join cwd p) = Some (as_bytes new)"
  using run_success_changes [OF assms(1,2,5)] assms(3,4,6)
  by (auto simp: compute_change_update shows_files_def split: option.splits sum.splits)

text \<open>An update that moves a file onto itself deletes it: the new contents are written to the
  destination, and the same file is then removed as the source.\<close>

theorem move_onto_itself_deletes:
  assumes "patch_environment ops mkdirs" "shows_files ops fs m"
    and "parse_patch input = Inr pp" "hunks pp = [UpdateFile p (Some d) cs]"
    and "components (path_join cwd d) = components (path_join cwd p)"
    and "run ops mkdirs cwd call_id input fs = Some (Inr (Success files summary), fs', ns)"
  shows "file_contents ops fs' (path_join cwd p) = None"
  using run_success_changes [OF assms(1,2,6)] assms(3-5)
  by (auto simp: compute_change_update shows_files_def split: option.splits sum.splits)

definition twice :: "file_op list" where
  "twice = [UpdateOp [97] None [Change None [Removed [120], Added [121]] False],
            UpdateOp [97] None [Change None [Removed [122], Added [48]] False]]"

definition self_move :: "file_op list" where
  "self_move = [UpdateOp [97] (Some [46, 47, 97]) [Change None [Removed [120], Added [121]] False]]"

lemma wf_samples: "list_all wf_op twice" "list_all wf_op self_move"
  by (simp_all add: twice_def self_move_def file_name_def line_text_def strip_cr_id_iff trim_end_id_iff
      is_whitespace_def)

lemma sample_edits:
  "derive_new_contents [120, 10, 122, 10] r [\<lparr>change_context = None, old_lines = [[120]],
      new_lines = [[121]], is_end_of_file = False\<rparr>] = Some (Inr [121, 10, 122, 10])"
  "derive_new_contents [120, 10, 122, 10] r [\<lparr>change_context = None, old_lines = [[122]],
      new_lines = [[48]], is_end_of_file = False\<rparr>] = Some (Inr [120, 10, 48, 10])"
  using update_block [of "[]" "[[120]]" "[[122]]" r "[[121]]"]
    update_block [of "[[120]]" "[[122]]" "[]" r "[[48]]"]
  by (simp_all add: file_text_def trim_last_def last_empty_def)

definition sample_fs :: mock_fs where
  "sample_fs = [components [119, 47, 97] \<mapsto> [120, 10, 122, 10]]"

lemma sample_read: "read_file_as_string mock_ops sample_fs (path_join [119] [97]) = Inr [120, 10, 122, 10]"
  by (simp add: read_file_as_string_def mock_ops_def sample_fs_def path_join_def starts_with_def)

lemma same_file_updates_lost_witness:
  "\<exists>fs'. file_contents mock_ops fs' [119, 47, 97] = Some [120, 10, 48, 10]"
proof -
  have "\<exists>cs. compute_all_changes [119] mock_ops sample_fs (map hunk_of twice) = Some (Inr cs)"
    by (simp add: twice_def compute_change_def sample_read sample_edits Let_def)
  then obtain files summary fs' ns where
    "run mock_ops no_mkdirs [119] [] (print_patch twice) sample_fs =
       Some (Inr (Success files summary), fs', ns)"
    using mock_run_success [OF wf_samples(1)] by (auto simp: twice_def)
  from same_file_updates_lost [OF mock_env.patch_environment_axioms mock_shows
      parse_printed [OF wf_samples(1)] _ this sample_read]
  show ?thesis
    by (auto simp: twice_def sample_edits path_join_def starts_with_def encode_rune_def)
qed

lemma move_onto_itself_deletes_witness:
  "\<exists>fs'. file_contents mock_ops fs' [119, 47, 97] = None \<and>
     (\<exists>files summary ns. run mock_ops no_mkdirs [119] [] (print_patch self_move) sample_fs =
        Some (Inr (Success files summary), fs', ns))"
proof -
  have "\<exists>cs. compute_all_changes [119] mock_ops sample_fs (map hunk_of self_move) = Some (Inr cs)"
    by (simp add: self_move_def compute_change_def sample_read sample_edits Let_def)
  then obtain files summary fs' ns where run:
    "run mock_ops no_mkdirs [119] [] (print_patch self_move) sample_fs =
       Some (Inr (Success files summary), fs', ns)"
    using mock_run_success [OF wf_samples(2)] by (auto simp: self_move_def)
  have "components (path_join [119] [46, 47, 97]) = components (path_join [119] [97])"
    by (simp add: components_def path_join_def starts_with_def)
  from move_onto_itself_deletes [OF mock_env.patch_environment_axioms mock_shows
      parse_printed [OF wf_samples(2)] _ this run]
  show ?thesis using run
    by (auto simp: self_move_def path_join_def starts_with_def)
qed

end
