(* ===== verification/ReadFile.thy ===== *)
theory ReadFile
  imports FileSystem
begin

text \<open>
  The \<open>read_file\<close> tool (\<^verbatim>\<open>codex/read_file/text_utils.rs\<close>, \<^verbatim>\<open>slice.rs\<close>, \<^verbatim>\<open>indentation.rs\<close>,
  \<^verbatim>\<open>tool.rs\<close>): line splitting on bytes, the slice mode, and the indentation mode that grows a
  block of lines around an anchor with two cursors.
\<close>

section \<open>Text utilities\<close>

definition MAX_LINE_LENGTH :: nat where
  "MAX_LINE_LENGTH = 500"

text \<open>\<open>i\<close> is the byte index of the next character, \<open>acc\<close> the prefix up to \<^verbatim>\<open>last_ok\<close>.\<close>

fun take_loop :: "nat \<Rightarrow> rstr \<Rightarrow> nat \<Rightarrow> rstr \<Rightarrow> rstr" where
  "take_loop max_bytes [] i acc = acc"
| "take_loop max_bytes (ch # cs) i acc =
     (let nb = i + len_utf8 ch
      in if max_bytes < nb then acc else take_loop max_bytes cs nb (acc @ [ch]))"

definition take_at_char_boundary :: "rstr \<Rightarrow> nat \<Rightarrow> rstr" where
  "take_at_char_boundary s max_bytes =
     (if str_len s \<le> max_bytes then s else take_loop max_bytes s 0 [])"

definition format_display :: "bytes \<Rightarrow> rstr" where
  "format_display raw =
     (let decoded = from_utf8_lossy raw
      in if MAX_LINE_LENGTH < str_len decoded then take_at_char_boundary decoded MAX_LINE_LENGTH
         else decoded)"

text \<open>The format of an output line: \<^verbatim>\<open>L{number}: {display}\<close>.\<close>

definition numbered :: "nat \<Rightarrow> rstr \<Rightarrow> rstr" where
  "numbered n s = lit ''L'' @ show_nat n @ lit '': '' @ s"

section \<open>Slice mode\<close>

text \<open>\<open>cur\<close> is \<^verbatim>\<open>bytes[start..i]\<close>: the bytes since the last newline.\<close>

fun split_lines_loop :: "bytes \<Rightarrow> bytes \<Rightarrow> bytes list" where
  "split_lines_loop cur [] = (if cur = [] then [] else [strip_cr cur])"
| "split_lines_loop cur (b # bs) =
     (if b = 10 then strip_cr cur # split_lines_loop [] bs else split_lines_loop (cur @ [b]) bs)"

definition split_lines :: "bytes \<Rightarrow> bytes list" where
  "split_lines bs = split_lines_loop [] bs"

fun slice_loop :: "bytes list \<Rightarrow> nat \<Rightarrow> nat \<Rightarrow> nat \<Rightarrow> rstr list \<Rightarrow> nat \<times> rstr list" where
  "slice_loop [] offset limit seen collected = (seen, collected)"
| "slice_loop (raw_line # ls) offset limit seen collected =
     (let seen = seen + 1
      in if seen < offset then slice_loop ls offset limit seen collected
         else if length collected = limit then (seen, collected)
         else
           let collected = collected @ [numbered seen (format_display raw_line)]
           in if length collected = limit then (seen, collected)
              else slice_loop ls offset limit seen collected)"

definition read_slice :: "bytes \<Rightarrow> nat \<Rightarrow> nat \<Rightarrow> rstr + rstr list" where
  "read_slice file_bytes offset limit =
     (let (seen, collected) = slice_loop (split_lines file_bytes) offset limit 0 []
      in if seen < offset then Inl (lit ''offset exceeds file length'') else Inr collected)"

section \<open>Indentation mode\<close>

definition TAB_WIDTH :: nat where
  "TAB_WIDTH = 4"

definition COMMENT_PREFIXES :: "rstr list" where
  "COMMENT_PREFIXES = [lit ''#'', lit ''//'', lit ''--'']"

record indentation_options =
  anchor_line :: "nat option"
  max_levels :: nat
  include_siblings :: bool
  include_header :: bool
  max_lines :: "nat option"

record line_record =
  number :: nat
  raw :: rstr
  display :: rstr
  indent :: nat

definition trimmed :: "line_record \<Rightarrow> rstr" where
  "trimmed r = trim_start (raw r)"

definition is_blank :: "line_record \<Rightarrow> bool" where
  "is_blank r \<longleftrightarrow> trimmed r = []"

definition is_comment :: "line_record \<Rightarrow> bool" where
  "is_comment r = list_ex (\<lambda>p. starts_with (trim (raw r)) p) COMMENT_PREFIXES"

fun measure_indent :: "rstr \<Rightarrow> nat" where
  "measure_indent [] = 0"
| "measure_indent (ch # cs) =
     (if ch = 32 then 1 + measure_indent cs
      else if ch = 9 then TAB_WIDTH + measure_indent cs
      else 0)"

definition line_record_of :: "nat \<Rightarrow> bytes \<Rightarrow> line_record" where
  "line_record_of line_num raw_bytes =
     (let raw = from_utf8_lossy raw_bytes
      in \<lparr>number = line_num, raw = raw, display = format_display raw_bytes,
          indent = measure_indent raw\<rparr>)"

fun collect_loop :: "nat \<Rightarrow> bytes \<Rightarrow> bytes \<Rightarrow> line_record list" where
  "collect_loop line_num cur [] =
     (if cur = [] then [] else [line_record_of (line_num + 1) (strip_cr cur)])"
| "collect_loop line_num cur (b # bs) =
     (if b = 10 then line_record_of (line_num + 1) (strip_cr cur) # collect_loop (line_num + 1) [] bs
      else collect_loop line_num (cur @ [b]) bs)"

definition collect_lines :: "bytes \<Rightarrow> line_record list" where
  "collect_lines bs = collect_loop 0 [] bs"

fun effective_loop :: "line_record list \<Rightarrow> nat \<Rightarrow> nat list" where
  "effective_loop [] last_non_blank = []"
| "effective_loop (r # rs) last_non_blank =
     (if is_blank r then last_non_blank # effective_loop rs last_non_blank
      else indent r # effective_loop rs (indent r))"

definition compute_effective_indents :: "line_record list \<Rightarrow> nat list" where
  "compute_effective_indents records = effective_loop records 0"

text \<open>The expansion: the deque of line indices, the two cursors and their boundary counters.\<close>

record expansion =
  out :: "nat list"
  up :: int
  down :: nat
  up_counter :: nat
  down_counter :: nat

definition expand_up :: "line_record list \<Rightarrow> nat list \<Rightarrow> nat \<Rightarrow> bool \<Rightarrow> bool \<Rightarrow> expansion
    \<Rightarrow> bool \<times> expansion" where
  "expand_up collected effective min_indent siblings header e =
     (if up e < 0 then (False, e)
      else
        let iu = nat (up e); eff = effective ! iu
        in if eff < min_indent then (False, e\<lparr>up := - 1\<rparr>)
           else if eff = min_indent \<and> \<not> siblings then
             (let allow_header_comment = header \<and> is_comment (collected ! iu);
                  can_take_line = allow_header_comment \<or> up_counter e = 0
              in if can_take_line then
                   (True, e\<lparr>out := iu # out e, up := up e - 1, up_counter := up_counter e + 1\<rparr>)
                 else (False, e\<lparr>up := - 1\<rparr>))
           else (True, e\<lparr>out := iu # out e, up := up e - 1\<rparr>))"

definition expand_down :: "nat list \<Rightarrow> nat \<Rightarrow> nat \<Rightarrow> bool \<Rightarrow> expansion \<Rightarrow> bool \<times> expansion" where
  "expand_down effective n min_indent siblings e =
     (if n \<le> down e then (False, e)
      else
        let ju = down e; eff = effective ! ju
        in if eff < min_indent then (False, e\<lparr>down := n\<rparr>)
           else if eff = min_indent \<and> \<not> siblings then
             (if 0 < down_counter e then
                (False, e\<lparr>down := n, down_counter := down_counter e + 1\<rparr>)
              else (True, e\<lparr>out := out e @ [ju], down := ju + 1, down_counter := down_counter e + 1\<rparr>))
           else (True, e\<lparr>out := out e @ [ju], down := ju + 1\<rparr>))"

lemma expand_up_length:
  "expand_up c eff m s h e = (added, e') \<Longrightarrow> length (out e') = length (out e) + (if added then 1 else 0)"
  by (auto simp: expand_up_def Let_def split: if_splits)

lemma expand_down_length:
  "expand_down eff n m s e = (added, e') \<Longrightarrow> length (out e') = length (out e) + (if added then 1 else 0)"
  by (auto simp: expand_down_def Let_def split: if_splits)

text \<open>One round of the loop: whether it goes on, and the expansion after it.\<close>

definition block_step :: "line_record list \<Rightarrow> nat list \<Rightarrow> nat \<Rightarrow> indentation_options \<Rightarrow> nat \<Rightarrow> expansion
    \<Rightarrow> bool \<times> expansion" where
  "block_step collected effective min_indent opts final_limit e =
     (let (up_added, e1) =
            (if 0 \<le> up e then
               expand_up collected effective min_indent (include_siblings opts) (include_header opts) e
             else (False, e))
      in if 0 \<le> up e \<and> final_limit \<le> length (out e1) then (False, e1)
         else
           let (down_added, e2) =
                 (if down e1 < length collected then
                    expand_down effective (length collected) min_indent (include_siblings opts) e1
                  else (False, e1))
           in (up_added \<or> down_added, e2))"

lemma block_step_length:
  assumes "block_step collected effective min_indent opts final_limit e = (True, e')"
  shows "length (out e) < length (out e')"
  using assms
  by (auto simp: block_step_def Let_def split: prod.splits if_splits
      dest!: expand_up_length expand_down_length)

function block_loop :: "line_record list \<Rightarrow> nat list \<Rightarrow> nat \<Rightarrow> indentation_options \<Rightarrow> nat \<Rightarrow> expansion
    \<Rightarrow> expansion" where
  "block_loop collected effective min_indent opts final_limit e =
     (if length (out e) < final_limit then
        (case block_step collected effective min_indent opts final_limit e of
           (True, e') \<Rightarrow> block_loop collected effective min_indent opts final_limit e'
         | (False, e') \<Rightarrow> e')
      else e)"
  by pat_completeness auto
termination
  by (relation "measure (\<lambda>(c, eff, m, opts, lim, e). lim - length (out e))")
    (auto dest: block_step_length [OF sym] intro: diff_less_mono2)

declare block_loop.simps [simp del]

definition trim_empty_lines :: "line_record list \<Rightarrow> nat list \<Rightarrow> nat list" where
  "trim_empty_lines records deque =
     (let blank = (\<lambda>idx. is_blank (records ! idx))
      in rev (dropWhile blank (rev (dropWhile blank deque))))"

definition show_record :: "line_record \<Rightarrow> rstr" where
  "show_record r = numbered (number r) (display r)"

definition min_indent_of :: "nat \<Rightarrow> nat \<Rightarrow> nat" where
  "min_indent_of levels anchor_indent =
     (if levels = 0 then 0 else anchor_indent - levels * TAB_WIDTH mod 2 ^ 64)"

definition read_block :: "bytes \<Rightarrow> nat \<Rightarrow> nat \<Rightarrow> indentation_options \<Rightarrow> rstr + rstr list" where
  "read_block bs offset limit opts =
     (let collected = collect_lines bs
      in if collected = [] then Inr []
         else
           let anchor = (case anchor_line opts of Some a \<Rightarrow> a | None \<Rightarrow> offset)
           in if anchor = 0 \<or> length collected < anchor then
                Inl (lit ''anchor_line exceeds file length'')
              else
                let effective = compute_effective_indents collected;
                    guard_limit = (case max_lines opts of Some m \<Rightarrow> m | None \<Rightarrow> limit)
                in if guard_limit = 0 then Inl (lit ''max_lines must be greater than zero'')
                   else
                     let final_limit = min (min limit guard_limit) (length collected);
                         anchor_idx = anchor - 1;
                         min_indent = min_indent_of (max_levels opts) (effective ! anchor_idx)
                     in if final_limit = 1 then Inr [show_record (collected ! anchor_idx)]
                        else
                          let e = block_loop collected effective min_indent opts final_limit
                                    \<lparr>out = [anchor_idx], up = int anchor_idx - 1, down = anchor_idx + 1,
                                     up_counter = 0, down_counter = 0\<rparr>
                          in Inr (map (\<lambda>idx. show_record (collected ! idx))
                                   (trim_empty_lines collected (out e))))"

section \<open>The tool\<close>

datatype read_mode = Slice | Indentation

record indentation_args =
  arg_anchor_line :: "nat option"
  arg_max_levels :: nat
  arg_include_siblings :: bool
  arg_include_header :: bool
  arg_max_lines :: "nat option"

definition default_indentation_args :: indentation_args where
  "default_indentation_args =
     \<lparr>arg_anchor_line = None, arg_max_levels = 0, arg_include_siblings = False,
      arg_include_header = True, arg_max_lines = None\<rparr>"

definition default_offset :: nat where
  "default_offset = 1"

definition default_limit :: nat where
  "default_limit = 2000"

record codex_read_file_input =
  file_path :: rstr
  offset :: nat
  limit :: nat
  mode :: read_mode
  indentation :: "indentation_args option"

record extracted_image =
  xi_data :: rstr
  xi_mime_type :: rstr

record file_content =
  fc_content :: rstr
  fc_content_concise :: "rstr option"
  fc_absolute_path :: rstr
  fc_offset :: "nat option"
  fc_limit :: "nat option"
  fc_raw_output :: rstr
  fc_total_lines :: nat
  fc_extracted_images :: "extracted_image list"

text \<open>The image variants carry the values \<open>'i\<close>, which this tool never builds.\<close>

datatype 'i read_file_output =
    FileContent file_content
  | FileNotFound rstr
  | IsADirectory rstr
  | PermissionDenied rstr
  | FileTooLarge rstr
  | FileReadError rstr
  | ImageContent 'i
  | ImageSizeError rstr
  | PdfPageImages 'i

definition is_absolute :: "rstr \<Rightarrow> bool" where
  "is_absolute p = starts_with p [47]"

definition total_lines :: "bytes \<Rightarrow> nat" where
  "total_lines bs =
     length (filter (\<lambda>b. b = 10) bs) + (if bs \<noteq> [] \<and> last bs \<noteq> 10 then 1 else 0)"

definition indentation_options_of :: "indentation_args option \<Rightarrow> indentation_options" where
  "indentation_options_of a =
     (let args = (case a of Some x \<Rightarrow> x | None \<Rightarrow> default_indentation_args)
      in \<lparr>anchor_line = arg_anchor_line args, max_levels = arg_max_levels args,
          include_siblings = arg_include_siblings args, include_header = arg_include_header args,
          max_lines = arg_max_lines args\<rparr>)"

definition read_run :: "'fs async_file_system \<Rightarrow> 'fs \<Rightarrow> codex_read_file_input
    \<Rightarrow> 'i read_file_output" where
  "read_run ops fs input =
     (if offset input = 0 then FileReadError (lit ''offset must be a 1-indexed line number'')
      else if limit input = 0 then FileReadError (lit ''limit must be greater than zero'')
      else if \<not> is_absolute (file_path input) then
        FileReadError (lit ''file_path must be an absolute path'')
      else
        (case read_file ops fs (file_path input) of
           Inl e \<Rightarrow> FileReadError (lit ''Failed to read file: '' @ file_path input @ lit '', '' @
                      show_computer_error e)
         | Inr file_bytes \<Rightarrow>
             (case (case mode input of
                      Slice \<Rightarrow> read_slice file_bytes (offset input) (limit input)
                    | Indentation \<Rightarrow> read_block file_bytes (offset input) (limit input)
                                       (indentation_options_of (indentation input))) of
                Inl e \<Rightarrow> FileReadError e
              | Inr collected \<Rightarrow>
                  FileContent
                    \<lparr>fc_content = join [10] collected, fc_content_concise = None,
                     fc_absolute_path = file_path input, fc_offset = Some (offset input),
                     fc_limit = Some (limit input), fc_raw_output = from_utf8_lossy file_bytes,
                     fc_total_lines = total_lines file_bytes, fc_extracted_images = []\<rparr>)))"

end
