(* ===== verification/ReadFileProps.thy ===== *)
theory ReadFileProps
  imports ReadFile
begin

text \<open>
  What the \<open>read_file\<close> tool promises: lines are cut at character boundaries, the slice mode
  returns the numbered lines of a range, both modes see the same lines, and the indentation mode
  returns a contiguous block around its anchor.
\<close>

section \<open>Truncation\<close>

lemma take_loop_spec:
  assumes "i \<le> m"
  shows "\<exists>t u. take_loop m s i acc = acc @ t \<and> s = t @ u \<and> i + str_len t \<le> m \<and>
           (u = [] \<or> m < i + str_len t + len_utf8 (hd u))"
  using assms
proof (induction m s i acc rule: take_loop.induct)
  case (2 m ch cs i acc)
  show ?case
  proof (cases "m < i + len_utf8 ch")
    case True
    then show ?thesis using 2(2) by (intro exI [of _ "[]"] exI [of _ "ch # cs"]) simp
  next
    case False
    with 2(1) [OF refl False] obtain t u where
      "take_loop m cs (i + len_utf8 ch) (acc @ [ch]) = (acc @ [ch]) @ t" "cs = t @ u"
      "i + len_utf8 ch + str_len t \<le> m" "u = [] \<or> m < i + len_utf8 ch + str_len t + len_utf8 (hd u)"
      by auto
    with False show ?thesis by (intro exI [of _ "ch # t"] exI [of _ u]) (simp add: Let_def add.assoc)
  qed
qed simp

lemma take_at_char_boundary_longest:
  "\<exists>u. s = take_at_char_boundary s m @ u \<and> str_len (take_at_char_boundary s m) \<le> m \<and>
     (u = [] \<or> m < str_len (take_at_char_boundary s m) + len_utf8 (hd u))"
  using take_loop_spec [of 0 m s "[]"] by (auto simp: take_at_char_boundary_def)

text \<open>Truncation keeps a prefix of whole characters that fits, and the longest such prefix: at
  most \<open>max_bytes\<close> bytes, and the next character would not fit. A displayed line is a prefix of
  the decoded line of at most 500 bytes.\<close>

theorem truncation_maximal_prefix:
  "(\<exists>u. s = take_at_char_boundary s m @ u \<and> str_len (take_at_char_boundary s m) \<le> m \<and>
       (u = [] \<or> m < str_len (take_at_char_boundary s m) + len_utf8 (hd u))) \<and>
   (\<exists>u. from_utf8_lossy d = format_display d @ u) \<and> str_len (format_display d) \<le> 500"
proof -
  have "(\<exists>u. from_utf8_lossy d = format_display d @ u) \<and> str_len (format_display d) \<le> 500"
    using take_at_char_boundary_longest [of "from_utf8_lossy d" 500]
    by (auto simp: format_display_def MAX_LINE_LENGTH_def Let_def)
  with take_at_char_boundary_longest show ?thesis by blast
qed

section \<open>Lines\<close>

text \<open>The reference: the pieces between newlines, less an empty last one.\<close>

definition pieces :: "bytes \<Rightarrow> bytes list" where
  "pieces bs = (let ps = split_on 10 bs in if last ps = [] then butlast ps else ps)"

lemma split_lines_loop_pieces:
  "10 \<notin> set cur \<Longrightarrow> split_lines_loop cur bs = map strip_cr (pieces (cur @ bs))"
proof (induction cur bs rule: split_lines_loop.induct)
  case (1 cur)
  then show ?case by (simp add: pieces_def split_on_id)
next
  case (2 cur b bs)
  then show ?case by (auto simp: pieces_def Let_def split_on_append)
qed

lemma split_lines_pieces: "split_lines bs = map strip_cr (pieces bs)"
  using split_lines_loop_pieces [of "[]"] by (simp add: split_lines_def)

lemma collect_loop_enumerate:
  "collect_loop n cur bs = map (\<lambda>(k, l). line_record_of k l) (enumerate (Suc n) (split_lines_loop cur bs))"
  by (induction n cur bs rule: collect_loop.induct) auto

lemma collect_lines_enumerate:
  "collect_lines bs = map (\<lambda>(k, l). line_record_of k l) (enumerate 1 (split_lines bs))"
  by (simp add: collect_lines_def split_lines_def collect_loop_enumerate)

lemma length_pieces: "length (pieces bs) = total_lines bs"
proof -
  have "length (split_on 10 bs) = Suc (length (filter (\<lambda>b. b = 10) bs))"
    by (induction bs) (auto split: list.splits)
  moreover have "split_on 10 cs = [[]] \<Longrightarrow> cs = []" for cs :: bytes
    using join_split_on [of 10 cs] by simp
  then have "last (split_on 10 bs) = [] \<longleftrightarrow> bs = [] \<or> last bs = 10"
    by (induction bs) (auto split: list.splits)
  ultimately show ?thesis by (simp add: pieces_def total_lines_def Let_def)
qed

text \<open>Every part of the tool sees the same lines. They are the pieces of the file between
  newlines, each less one carriage return, without an empty piece behind a final newline; the
  indentation mode numbers and decodes just these, and the reported total is their number.\<close>

theorem lines_agree:
  "split_lines bs = map strip_cr (pieces bs) \<and>
   collect_lines bs = map (\<lambda>(k, l). line_record_of k l) (enumerate 1 (split_lines bs)) \<and>
   total_lines bs = length (split_lines bs)"
  by (simp add: split_lines_pieces collect_lines_enumerate length_pieces)

section \<open>Slice mode\<close>

abbreviation show_line :: "nat \<times> bytes \<Rightarrow> rstr" where
  "show_line \<equiv> \<lambda>(k, l). numbered k (format_display l)"

lemma slice_loop_spec:
  assumes "slice_loop ls off lim seen coll = (seen', coll')" "length coll < lim"
  shows "(seen' < off \<longleftrightarrow> seen + length ls < off) \<and>
         coll' = coll @ take (lim - length coll) (map show_line (drop (off - Suc seen) (enumerate (Suc seen) ls)))"
  using assms
proof (induction ls off lim seen coll rule: slice_loop.induct)
  case (2 l ls off lim seen coll)
  show ?case
  proof (cases "Suc seen < off")
    case True
    then have "off - Suc seen = Suc (off - Suc (Suc seen))" by simp
    with 2 True show ?thesis by (simp add: Let_def)
  next
    case False
    show ?thesis
    proof (cases "Suc (length coll) = lim")
      case True
      with 2 False show ?thesis by (auto simp: Let_def)
    next
      case ne: False
      then have "lim - length coll = Suc (lim - Suc (length coll))" "length coll \<noteq> lim"
        using 2 by simp_all
      with 2 False ne show ?thesis by (simp add: Let_def)
    qed
  qed
qed auto

lemma read_slice_eq:
  assumes "1 \<le> off" "1 \<le> lim"
  shows "read_slice bs off lim =
    (if off \<le> length (split_lines bs)
     then Inr (map show_line (take lim (drop (off - 1) (enumerate 1 (split_lines bs)))))
     else Inl (lit ''offset exceeds file length''))"
proof -
  obtain seen coll where "slice_loop (split_lines bs) off lim 0 [] = (seen, coll)" by fastforce
  with slice_loop_spec [OF this] assms show ?thesis
    by (auto simp: read_slice_def take_map)
qed

text \<open>The slice mode returns the lines from \<open>offset\<close> on, at most \<open>limit\<close> of them, each with its
  number in the file; it fails exactly when the file has fewer lines than \<open>offset\<close>.\<close>

theorem read_slice_correct:
  assumes "1 \<le> off" "1 \<le> lim"
  shows "read_slice bs off lim =
    (if off \<le> length (split_lines bs)
     then Inr (map (\<lambda>(k, l). numbered k (format_display l))
                 (take lim (drop (off - 1) (enumerate 1 (split_lines bs)))))
     else Inl (lit ''offset exceeds file length''))"
  using assms by (rule read_slice_eq)

lemma read_slice_correct_witness:
  "read_slice [97, 13, 10, 98, 10, 99] 2 1 = Inr [numbered 2 [98]]"
  using read_slice_correct [of 2 1 "[97, 13, 10, 98, 10, 99]"]
  by (simp add: split_lines_def strip_cr_def format_display_def MAX_LINE_LENGTH_def len_utf8_def
      numeral_2_eq_2)

text \<open>Pages fit together: reading \<open>a\<close> lines and then \<open>b\<close> lines from where the first page ends
  gives the same lines as reading \<open>a + b\<close> at once.\<close>

theorem pages_concatenate:
  assumes "1 \<le> off" "1 \<le> a" "1 \<le> b" "off + a \<le> length (split_lines bs)"
  shows "\<exists>xs ys. read_slice bs off a = Inr xs \<and> read_slice bs (off + a) b = Inr ys \<and>
           length xs = a \<and> read_slice bs off (a + b) = Inr (xs @ ys)"
proof -
  have "off - 1 + a = off + a - 1" using assms(1) by simp
  then show ?thesis
    using assms by (simp add: read_slice_eq take_add drop_drop flip: map_append) (simp add: add.commute)
qed

lemma pages_concatenate_witness:
  "\<exists>xs ys. read_slice [97, 10, 98, 10, 99] 1 1 = Inr xs \<and> read_slice [97, 10, 98, 10, 99] 2 2 = Inr ys \<and>
     read_slice [97, 10, 98, 10, 99] 1 3 = Inr (xs @ ys)"
  using pages_concatenate [of 1 1 2 "[97, 10, 98, 10, 99]"]
  by (auto simp: split_lines_def strip_cr_def numeral_3_eq_3 numeral_2_eq_2)

section \<open>Indentation mode\<close>

text \<open>
  During the expansion the deque is an interval around the anchor, each cursor is next to it or
  spent, and no line in it is indented less than the threshold.
\<close>

definition block_inv :: "nat \<Rightarrow> nat list \<Rightarrow> nat \<Rightarrow> nat \<Rightarrow> expansion \<Rightarrow> bool" where
  "block_inv n eff m a e \<longleftrightarrow>
     (\<exists>lo hi. out e = [lo..<hi] \<and> lo \<le> a \<and> a < hi \<and> hi \<le> n \<and> (up e = - 1 \<or> up e = int lo - 1) \<and>
        (down e = n \<or> down e = hi) \<and> (\<forall>k. lo \<le> k \<and> k < hi \<longrightarrow> m \<le> eff ! k))"

lemma block_inv_up [inv_intros]:
  assumes "block_inv n eff m a e"
  shows "block_inv n eff m a (snd (expand_up c eff m s h e))"
proof -
  obtain lo hi where e: "out e = [lo..<hi]" "lo \<le> a" "a < hi" "hi \<le> n" "up e = - 1 \<or> up e = int lo - 1"
      "down e = n \<or> down e = hi" "\<forall>k. lo \<le> k \<and> k < hi \<longrightarrow> m \<le> eff ! k"
    using assms by (auto simp: block_inv_def)
  let ?e' = "snd (expand_up c eff m s h e)"
  show ?thesis
  proof (cases "out ?e' = out e")
    case True
    then have "up ?e' = - 1 \<or> up ?e' = up e" "down ?e' = down e"
      by (auto simp: expand_up_def Let_def split: if_splits)
    with True e show ?thesis unfolding block_inv_def by (intro exI [of _ lo] exI [of _ hi]) auto
  next
    case False
    then have up: "0 \<le> up e" "m \<le> eff ! nat (up e)" "out ?e' = nat (up e) # out e" "up ?e' = up e - 1"
      "down ?e' = down e" by (auto simp: expand_up_def Let_def split: if_splits)
    then obtain l where l: "lo = Suc l" "nat (up e) = l" "up e = int l" using e(5) by (cases lo) auto
    have "out ?e' = [l..<hi]" using up(3) e(1-3) l by (simp add: upt_conv_Cons)
    moreover have "m \<le> eff ! k" if "l \<le> k" "k < hi" for k
      using that e(7) up(2) l by (cases "k = l") auto
    ultimately show ?thesis
      using e up l unfolding block_inv_def by (intro exI [of _ l] exI [of _ hi]) auto
  qed
qed

lemma block_inv_down [inv_intros]:
  assumes "block_inv n eff m a e"
  shows "block_inv n eff m a (snd (expand_down eff n m s e))"
proof -
  obtain lo hi where e: "out e = [lo..<hi]" "lo \<le> a" "a < hi" "hi \<le> n" "up e = - 1 \<or> up e = int lo - 1"
      "down e = n \<or> down e = hi" "\<forall>k. lo \<le> k \<and> k < hi \<longrightarrow> m \<le> eff ! k"
    using assms by (auto simp: block_inv_def)
  let ?e' = "snd (expand_down eff n m s e)"
  show ?thesis
  proof (cases "out ?e' = out e")
    case True
    then have "down ?e' = n \<or> down ?e' = down e" "up ?e' = up e"
      by (auto simp: expand_down_def Let_def split: if_splits)
    with True e show ?thesis unfolding block_inv_def by (intro exI [of _ lo] exI [of _ hi]) auto
  next
    case False
    then have dn: "down e < n" "m \<le> eff ! down e" "out ?e' = out e @ [down e]" "down ?e' = Suc (down e)"
      "up ?e' = up e" by (auto simp: expand_down_def Let_def split: if_splits)
    then have hi: "down e = hi" using e(6) by simp
    have "m \<le> eff ! k" if "lo \<le> k" "k < Suc hi" for k
      using that e(7) dn(2) hi by (cases "k = hi") auto
    then show ?thesis
      using e dn hi unfolding block_inv_def by (intro exI [of _ lo] exI [of _ "Suc hi"]) auto
  qed
qed

lemma block_inv_step [inv_intros]:
  assumes "block_inv (length c) eff m a e"
  shows "block_inv (length c) eff m a (snd (block_step c eff m opts lim e))"
  using assms block_inv_up [OF assms] block_inv_down [OF block_inv_up [OF assms]]
    block_inv_down [OF assms]
  by (auto simp: block_step_def Let_def split: prod.splits if_splits) (metis snd_conv)+

lemma expand_length_le:
  "length (out (snd (expand_up c eff m s h e))) \<le> Suc (length (out e))"
  "length (out (snd (expand_down eff n m s e))) \<le> Suc (length (out e))"
  by (simp_all add: expand_up_def expand_down_def Let_def)

lemma block_step_limit:
  assumes "length (out e) < lim"
  shows "length (out (snd (block_step c eff m opts lim e))) \<le> lim"
proof -
  define e1 where "e1 = (if 0 \<le> up e then
      snd (expand_up c eff m (include_siblings opts) (include_header opts) e) else e)"
  have "length (out e1) \<le> lim" "up e < 0 \<longrightarrow> length (out e1) < lim"
    using assms expand_length_le(1) [of c eff m "include_siblings opts" "include_header opts" e]
    by (auto simp: e1_def)
  moreover have "snd (block_step c eff m opts lim e) =
      (if 0 \<le> up e \<and> lim \<le> length (out e1) then e1
       else if down e1 < length c then snd (expand_down eff (length c) m (include_siblings opts) e1)
       else e1)"
    by (simp add: block_step_def e1_def Let_def case_prod_beta)
  ultimately show ?thesis
    using expand_length_le(2) [of eff "length c" m "include_siblings opts" e1] by auto
qed

lemma block_loop_inv:
  assumes "block_inv (length c) eff m a e" "length (out e) \<le> lim"
  shows "block_inv (length c) eff m a (block_loop c eff m opts lim e) \<and>
         length (out (block_loop c eff m opts lim e)) \<le> lim"
  using assms
proof (induction c eff m opts lim e rule: block_loop.induct)
  case (1 c eff m opts lim e)
  obtain go e' where st: "block_step c eff m opts lim e = (go, e')" by fastforce
  have "block_inv (length c) eff m a e'"
    using block_inv_step [OF 1(2), of opts lim] by (simp add: st)
  moreover have "length (out e') \<le> lim" if "length (out e) < lim"
    using block_step_limit [OF that, of c eff m opts] by (simp add: st)
  ultimately show ?case
    using 1 st by (subst (1 2) block_loop.simps) (auto split: bool.splits)
qed

lemma dropWhile_upt:
  "\<exists>lo'. lo \<le> lo' \<and> dropWhile P [lo..<hi] = [lo'..<hi] \<and> (\<forall>a. lo \<le> a \<and> a < hi \<and> \<not> P a \<longrightarrow> lo' \<le> a)"
proof (induction "hi - lo" arbitrary: lo)
  case (Suc d)
  show ?case
  proof (cases "P lo")
    case True
    have "d = hi - Suc lo" using Suc(2) by simp
    from Suc(1) [OF this] obtain lo' where "Suc lo \<le> lo'" "dropWhile P [Suc lo..<hi] = [lo'..<hi]"
        "\<forall>a. Suc lo \<le> a \<and> a < hi \<and> \<not> P a \<longrightarrow> lo' \<le> a" by blast
    moreover have "[lo..<hi] = lo # [Suc lo..<hi]" using Suc(2) by (simp add: upt_conv_Cons)
    ultimately show ?thesis using True by (intro exI [of _ lo']) (auto simp: Suc_le_eq order_less_le)
  next
    case False
    moreover have "[lo..<hi] = lo # [Suc lo..<hi]" using Suc(2) by (simp add: upt_conv_Cons)
    ultimately show ?thesis by (intro exI [of _ lo]) simp
  qed
qed (auto intro: exI [of _ lo])

lemma dropWhile_rev_upt:
  "\<exists>hi' \<le> hi. rev (dropWhile P (rev [lo..<hi])) = [lo..<hi'] \<and> (\<forall>a. lo \<le> a \<and> a < hi \<and> \<not> P a \<longrightarrow> a < hi')"
proof (induction hi)
  case (Suc hi)
  show ?case
  proof (cases "lo \<le> hi \<and> P hi")
    case True
    with Suc show ?thesis by (auto simp: less_Suc_eq intro: le_SucI)
  next
    case False
    then show ?thesis by (intro exI [of _ "Suc hi"]) auto
  qed
qed simp

lemma trim_empty_lines_upt:
  "\<exists>lo' hi'. lo \<le> lo' \<and> hi' \<le> hi \<and> trim_empty_lines c [lo..<hi] = [lo'..<hi'] \<and>
     (\<forall>a. lo \<le> a \<and> a < hi \<and> \<not> is_blank (c ! a) \<longrightarrow> lo' \<le> a \<and> a < hi')"
proof -
  let ?P = "\<lambda>i. is_blank (c ! i)"
  obtain lo' where lo: "lo \<le> lo'" "dropWhile ?P [lo..<hi] = [lo'..<hi]"
      "\<forall>a. lo \<le> a \<and> a < hi \<and> \<not> ?P a \<longrightarrow> lo' \<le> a" using dropWhile_upt by blast
  obtain hi' where hi: "hi' \<le> hi" "rev (dropWhile ?P (rev [lo'..<hi])) = [lo'..<hi']"
      "\<forall>a. lo' \<le> a \<and> a < hi \<and> \<not> ?P a \<longrightarrow> a < hi'" using dropWhile_rev_upt by blast
  have "trim_empty_lines c [lo..<hi] = [lo'..<hi']" by (simp add: trim_empty_lines_def Let_def lo hi)
  with lo hi show ?thesis by blast
qed

lemma map_nth_upt: "hi \<le> length xs \<Longrightarrow> map (\<lambda>i. f (xs ! i)) [lo..<hi] = map f (take (hi - lo) (drop lo xs))"
  by (rule nth_equalityI) simp_all

lemma min_indent_le: "min_indent_of levels i \<le> i"
  by (simp add: min_indent_of_def)

text \<open>The indentation mode returns one contiguous block of the file. For an anchor in the file
  and positive limits it succeeds, and the lines it returns are those of an interval: at most
  \<open>limit\<close> and at most \<open>max_lines\<close> of them, none indented less than the anchor by more than the
  allowed levels (blank lines counting as the line before them), and with the anchor among them
  unless the anchor is blank.\<close>

theorem read_block_contiguous:
  fixes bs offset limit opts
  defines "ls \<equiv> collect_lines bs"
  defines "anchor \<equiv> (case anchor_line opts of Some a \<Rightarrow> a | None \<Rightarrow> offset)"
  defines "eff \<equiv> compute_effective_indents ls"
  assumes "1 \<le> anchor" "anchor \<le> length ls" "1 \<le> limit" "max_lines opts \<noteq> Some 0"
  shows "\<exists>lo hi. read_block bs offset limit opts = Inr (map show_record (take (hi - lo) (drop lo ls))) \<and>
     hi \<le> length ls \<and> hi - lo \<le> limit \<and> (\<forall>m. max_lines opts = Some m \<longrightarrow> hi - lo \<le> m) \<and>
     (\<forall>k. lo \<le> k \<and> k < hi \<longrightarrow> min_indent_of (max_levels opts) (eff ! (anchor - 1)) \<le> eff ! k) \<and>
     (\<not> is_blank (ls ! (anchor - 1)) \<longrightarrow> lo \<le> anchor - 1 \<and> anchor - 1 < hi)"
proof -
  define guard where "guard = (case max_lines opts of Some m \<Rightarrow> m | None \<Rightarrow> limit)"
  define lim where "lim = min (min limit guard) (length ls)"
  define m where "m = min_indent_of (max_levels opts) (eff ! (anchor - 1))"
  define a where "a = anchor - 1"
  let ?e0 = "\<lparr>out = [a], up = int a - 1, down = a + 1, up_counter = 0, down_counter = 0\<rparr>"
  have a: "a < length ls" and g: "guard \<noteq> 0" and lim1: "1 \<le> lim"
    using assms(4-7) by (auto simp: a_def guard_def lim_def split: option.splits)
  have bounds: "lim \<le> limit" "\<forall>k. max_lines opts = Some k \<longrightarrow> lim \<le> k"
    by (auto simp: lim_def guard_def)
  have block: "read_block bs offset limit opts =
      (if lim = 1 then Inr [show_record (ls ! a)]
       else Inr (map (\<lambda>i. show_record (ls ! i)) (trim_empty_lines ls (out (block_loop ls eff m opts lim ?e0)))))"
    using assms(4,5) g
    unfolding read_block_def ls_def [symmetric] anchor_def [symmetric] guard_def [symmetric]
      lim_def [symmetric] eff_def [symmetric] Let_def
    by (auto simp: a_def m_def)
  show ?thesis
  proof (cases "lim = 1")
    case True
    then show ?thesis
      using block a bounds min_indent_le [of "max_levels opts"] unfolding a_def [symmetric]
      by (intro exI [of _ a] exI [of _ "Suc a"]) (auto simp: take_Suc_conv_app_nth hd_drop_conv_nth less_Suc_eq_le)
  next
    case False
    have "block_inv (length ls) eff m a ?e0"
      using a min_indent_le [of "max_levels opts" "eff ! a"]
      unfolding block_inv_def m_def a_def [symmetric]
      by (intro exI [of _ a] exI [of _ "Suc a"]) (auto simp: less_Suc_eq_le)
    then have inv: "block_inv (length ls) eff m a (block_loop ls eff m opts lim ?e0)"
      and le: "length (out (block_loop ls eff m opts lim ?e0)) \<le> lim"
      using block_loop_inv [of ls eff m a ?e0 lim opts] lim1 by simp_all
    from inv obtain lo hi where e: "out (block_loop ls eff m opts lim ?e0) = [lo..<hi]" "lo \<le> a"
        "a < hi" "hi \<le> length ls" "\<forall>k. lo \<le> k \<and> k < hi \<longrightarrow> m \<le> eff ! k"
      unfolding block_inv_def by blast
    have len: "hi - lo \<le> lim" using le unfolding e(1) by simp
    obtain lo' hi' where t: "lo \<le> lo'" "hi' \<le> hi" "trim_empty_lines ls [lo..<hi] = [lo'..<hi']"
        "\<not> is_blank (ls ! a) \<longrightarrow> lo' \<le> a \<and> a < hi'"
      using trim_empty_lines_upt [of lo hi ls] e(2,3) by blast
    have "read_block bs offset limit opts = Inr (map show_record (take (hi' - lo') (drop lo' ls)))"
      using block False e(4) t unfolding e(1) by (simp add: map_nth_upt)
    moreover have "hi' \<le> length ls" and w: "hi' - lo' \<le> lim" using t(1,2) e(4) len by simp_all
    moreover have "hi' - lo' \<le> limit" using w bounds(1) by simp
    moreover have "\<forall>k. max_lines opts = Some k \<longrightarrow> hi' - lo' \<le> k" using w bounds(2) le_trans by blast
    moreover have "\<forall>k. lo' \<le> k \<and> k < hi' \<longrightarrow> m \<le> eff ! k" using e(5) t(1,2) by simp
    ultimately show ?thesis using t(4) unfolding m_def a_def by blast
  qed
qed

lemma read_block_contiguous_witness:
  "\<exists>lo hi. read_block [97, 10, 32, 98, 10, 99] 1 5
       \<lparr>anchor_line = Some 2, max_levels = 1, include_siblings = False, include_header = True, max_lines = None\<rparr> =
     Inr (map show_record (take (hi - lo) (drop lo (collect_lines [97, 10, 32, 98, 10, 99])))) \<and>
     lo \<le> 1 \<and> 1 < hi \<and> hi \<le> 3"
proof -
  let ?bs = "[97, 10, 32, 98, 10, 99]" and ?o = "\<lparr>anchor_line = Some 2, max_levels = 1,
    include_siblings = False, include_header = True, max_lines = None\<rparr>"
  have ls: "map raw (collect_lines ?bs) = [[97], [32, 98], [99]]"
    by (simp add: collect_lines_def strip_cr_def line_record_of_def Let_def)
  then have "length (collect_lines ?bs) = 3" by (metis length_map list.size(3,4) numeral_3_eq_3 One_nat_def add_Suc_right add_0_right)
  moreover have "raw (collect_lines ?bs ! 1) = [32, 98]"
    by (simp add: collect_lines_def strip_cr_def line_record_of_def Let_def)
  then have "\<not> is_blank (collect_lines ?bs ! 1)"
    by (simp add: is_blank_def trimmed_def trim_start_def is_whitespace_def)
  ultimately show ?thesis
    using read_block_contiguous [where opts = ?o and bs = ?bs and offset = 1 and limit = 5] by auto
qed

end
