(* ===== verification/Goal.thy ===== *)
theory Goal
  imports FileSystem
begin

text \<open>
  The goal-mode state machine (\<^verbatim>\<open>ds-shell/src/session/goal_tracker.rs\<close>). The tracker is a record,
  every method a function on it. What a method takes from outside (the clock, a fresh identifier,
  whether the scratch directory could be created and a guarded copy was made) is its environment;
  \<open>disk\<close> holds the scratch roots that exist. Counters are saturating 32-bit integers and elapsed
  times saturating 64-bit ones, as in the source.
\<close>

section \<open>Constants\<close>

definition GOAL_CLASSIFIER_STALL_THRESHOLD :: nat where
  "GOAL_CLASSIFIER_STALL_THRESHOLD = 2"

definition GOAL_STRATEGIST_CAP_BONUS :: nat where
  "GOAL_STRATEGIST_CAP_BONUS = 3"

definition GOAL_STRATEGIST_STALL_THRESHOLD :: nat where
  "GOAL_STRATEGIST_STALL_THRESHOLD = GOAL_CLASSIFIER_STALL_THRESHOLD + GOAL_STRATEGIST_CAP_BONUS"

definition GOAL_HISTORY_MAX :: nat where
  "GOAL_HISTORY_MAX = 64"

definition GOAL_DECISIONS_MAX :: nat where
  "GOAL_DECISIONS_MAX = 32"

definition GOAL_DECISIONS_WIRE_MAX :: nat where
  "GOAL_DECISIONS_WIRE_MAX = 8"

definition GOAL_AUTO_RESUME_CAP :: nat where
  "GOAL_AUTO_RESUME_CAP = 3"

section \<open>Status, phase and log entries\<close>

datatype goal_decision_kind = PlanAccepted | Verdict | StrategistAdvice | AutoResumed | InfraFallback

fun decision_kind_str :: "goal_decision_kind \<Rightarrow> string" where
  "decision_kind_str PlanAccepted = ''plan_accepted''"
| "decision_kind_str Verdict = ''verdict''"
| "decision_kind_str StrategistAdvice = ''strategist_advice''"
| "decision_kind_str AutoResumed = ''auto_resumed''"
| "decision_kind_str InfraFallback = ''infra_fallback''"

record goal_decision_entry =
  d_timestamp :: rstr
  d_kind :: goal_decision_kind
  d_detail :: rstr
  d_round :: "nat option"

datatype auto_resume_outcome = Resumed | NotEligible | CapReached

datatype goal_phase = Idle | Planning | Executing

datatype goal_status =
    Active | UserPaused | BackOffPaused | NoProgressPaused | InfraPaused | Blocked | BudgetLimited | Complete

text \<open>The name a status is written with (\<^verbatim>\<open>rename_all = "snake_case"\<close>), and how one is read.\<close>

fun status_wire_str :: "goal_status \<Rightarrow> string" where
  "status_wire_str Active = ''active''"
| "status_wire_str UserPaused = ''user_paused''"
| "status_wire_str BackOffPaused = ''back_off_paused''"
| "status_wire_str NoProgressPaused = ''no_progress_paused''"
| "status_wire_str InfraPaused = ''infra_paused''"
| "status_wire_str Blocked = ''blocked''"
| "status_wire_str BudgetLimited = ''budget_limited''"
| "status_wire_str Complete = ''complete''"

definition from_wire_str :: "string \<Rightarrow> goal_status" where
  "from_wire_str s =
     (if s = ''active'' \<or> s = ''Active'' then Active
      else if s = ''user_paused'' \<or> s = ''paused'' \<or> s = ''Paused'' then UserPaused
      else if s = ''doom_loop_paused'' then UserPaused
      else if s = ''back_off_paused'' then BackOffPaused
      else if s = ''no_progress_paused'' then NoProgressPaused
      else if s = ''infra_paused'' then InfraPaused
      else if s = ''blocked'' then Blocked
      else if s = ''budget_limited'' \<or> s = ''BudgetLimited'' then BudgetLimited
      else if s = ''complete'' \<or> s = ''Complete'' then Complete
      else UserPaused)"

definition is_paused :: "goal_status \<Rightarrow> bool" where
  "is_paused s \<longleftrightarrow> s \<in> {UserPaused, BackOffPaused, NoProgressPaused, InfraPaused, Blocked}"

datatype goal_pause_reason = User | BackOff | NoProgress | Verification | Infra

fun to_status :: "goal_pause_reason \<Rightarrow> goal_status" where
  "to_status User = UserPaused"
| "to_status BackOff = BackOffPaused"
| "to_status NoProgress = NoProgressPaused"
| "to_status Verification = Blocked"
| "to_status Infra = InfraPaused"

fun history_detail :: "goal_pause_reason \<Rightarrow> string" where
  "history_detail User = ''user''"
| "history_detail BackOff = ''back_off''"
| "history_detail NoProgress = ''no_progress''"
| "history_detail Verification = ''blocked''"
| "history_detail Infra = ''infra''"

datatype goal_classifier_verdict = Achieved | NotAchieved

datatype goal_event =
    GoalCreated | PlanningStarted | PlanningCompleted | PlanningFailed | WorkerStarted
  | WorkerCompleted | WorkerFailed | ContextRotated | GoalPaused | GoalResumed | GoalCompleted
  | GoalCleared | BudgetExceeded | PrematureStopDetected | UnknownEvent

record goal_history_entry =
  h_timestamp :: rstr
  h_event :: goal_event
  h_detail :: "rstr option"
  h_round :: "nat option"
  h_tokens_used :: "int option"
  h_unmet :: "rstr list"

definition history_now :: "rstr \<Rightarrow> goal_event \<Rightarrow> rstr option \<Rightarrow> goal_history_entry" where
  "history_now stamp event detail =
     \<lparr>h_timestamp = stamp, h_event = event, h_detail = detail, h_round = None,
      h_tokens_used = None, h_unmet = []\<rparr>"

section \<open>The orchestration\<close>

text \<open>
  The struct has some sixty fields. They are split by what they are for into five records: the
  lifecycle, the tokens, the verification stage, the strategist and the live display.
\<close>

type_synonym goal_role_model = "rstr \<times> rstr"

record verification_fields =
  verifier_id :: rstr
  classifier_runs_attempted :: nat
  rounds_since_verify :: nat
  classifier_max_runs :: "nat option"
  last_classifier_verdict :: "goal_classifier_verdict option"
  last_classifier_details_path :: "rstr option"
  last_classifier_at :: "rstr option"
  last_classifier_gaps :: "rstr option"
  first_final_response :: "rstr option"
  skeptic0_session_id :: "rstr option"
  skeptic_model_assignment :: "goal_role_model list"
  last_gap_fingerprint :: "rstr option"
  classifier_stall_count :: nat
  last_classifier_infra_fallback :: bool

record strategist_fields =
  consecutive_not_achieved :: nat
  last_strategist_fired_at :: nat
  strategist_cap_bonus :: nat
  last_strategy_path :: "rstr option"
  last_strategy_recommendation :: "rstr option"

record live_fields =
  live_subagent_tokens :: nat
  live_tokens_by_model :: "(rstr \<times> nat) list"
  live_context_window :: nat
  live_context_pct :: nat
  live_turn_count :: nat
  live_tool_call_count :: nat
  planning_in_flight :: bool
  verifying_in_flight :: bool

record token_fields =
  token_budget :: "int option"
  token_baseline :: int
  tokens_used_high_water :: int
  parent_tokens_spent :: int
  last_session_tokens_seen :: "int option"
  budget_limit_reported :: bool

record goal_orchestration =
  goal_id :: rstr
  objective :: rstr
  status :: goal_status
  phase :: goal_phase
  elapsed_ms :: nat
  created_at :: rstr
  current_subagent_id :: "rstr option"
  current_subagent_role :: "rstr option"
  total_worker_rounds :: nat
  total_verify_rounds :: nat
  tokens :: token_fields
  history :: "goal_history_entry list"
  pause_message :: "rstr option"
  verification :: verification_fields
  strategist :: strategist_fields
  changes_baseline_commit :: "rstr option"
  auto_resumes :: nat
  decisions :: "goal_decision_entry list"
  plan_file :: "rstr option"
  plan_baseline_file :: "rstr option"
  scratch_dir_ready :: bool
  live :: live_fields

record goal_tracker =
  orchestration :: "goal_orchestration option"
  session_dir :: rstr
  active_since :: "nat option"
  disk :: "rstr set"

text \<open>
  The environment of a method call: the clock in nanoseconds, the time stamp, the directory for
  temporary files, the next identifier, and the outcomes of the file operations: whether the
  scratch root was secured, whether the implementer's directory was created in it, whether a path
  is a real directory of the user, and whether the guarded copy of a details file was made.
\<close>

record goal_env =
  now :: nat
  stamp :: rstr
  temp_dir :: rstr
  fresh_id :: rstr
  root_secured :: bool
  implementer_created :: bool
  owned_real_dir :: "rstr \<Rightarrow> bool"
  details_copied :: "rstr \<Rightarrow> rstr \<Rightarrow> bool"

definition elapsed_since :: "goal_env \<Rightarrow> nat \<Rightarrow> nat" where
  "elapsed_since env since = (now env - since) div 1000000 mod 2 ^ 64"

definition goal_scratch_root :: "goal_env \<Rightarrow> rstr \<Rightarrow> rstr" where
  "goal_scratch_root env vid = path_join (temp_dir env) (lit ''ds-goal-'' @ vid)"

definition implementer_scratch_dir :: "goal_env \<Rightarrow> rstr \<Rightarrow> rstr" where
  "implementer_scratch_dir env vid = path_join (goal_scratch_root env vid) (lit ''implementer'')"

definition reset_strategist_fields :: "goal_orchestration \<Rightarrow> goal_orchestration" where
  "reset_strategist_fields g =
     g\<lparr>strategist := (strategist g)\<lparr>consecutive_not_achieved := 0, last_strategist_fired_at := 0,
         strategist_cap_bonus := 0, last_strategy_path := None,
         last_strategy_recommendation := None\<rparr>\<rparr>"

definition reset_classifier_stall_fields :: "goal_orchestration \<Rightarrow> goal_orchestration" where
  "reset_classifier_stall_fields g =
     g\<lparr>verification := (verification g)\<lparr>last_gap_fingerprint := None, classifier_stall_count := 0\<rparr>\<rparr>"

definition truncate_decision_detail :: "rstr \<Rightarrow> rstr" where
  "truncate_decision_detail detail =
     (if str_len detail \<le> 240 then detail else take 239 detail @ [8230])"

section \<open>Logs\<close>

definition push_history :: "goal_history_entry list \<Rightarrow> goal_history_entry \<Rightarrow> goal_history_entry list" where
  "push_history h e =
     (let h = h @ [e];
          overflow = length h - GOAL_HISTORY_MAX
      in if 0 < overflow then drop overflow h else h)"

definition push_decision :: "goal_decision_entry list \<Rightarrow> goal_decision_entry \<Rightarrow> goal_decision_entry list" where
  "push_decision ds d =
     (let ds = ds @ [d]
      in if GOAL_DECISIONS_MAX < length ds then drop (length ds - GOAL_DECISIONS_MAX) ds else ds)"

definition update_goal :: "(goal_orchestration \<Rightarrow> goal_orchestration) \<Rightarrow> goal_tracker \<Rightarrow> goal_tracker" where
  "update_goal f t = t\<lparr>orchestration := map_option f (orchestration t)\<rparr>"

definition append_history :: "goal_history_entry \<Rightarrow> goal_tracker \<Rightarrow> goal_tracker" where
  "append_history e = update_goal (\<lambda>g. g\<lparr>history := push_history (history g) e\<rparr>)"

definition record_event :: "goal_env \<Rightarrow> goal_event \<Rightarrow> rstr option \<Rightarrow> goal_tracker \<Rightarrow> goal_tracker" where
  "record_event env event detail = append_history (history_now (stamp env) event detail)"

definition record_decision :: "goal_env \<Rightarrow> goal_decision_kind \<Rightarrow> rstr \<Rightarrow> nat option \<Rightarrow> goal_tracker
    \<Rightarrow> goal_tracker" where
  "record_decision env kind detail rnd =
     update_goal (\<lambda>g. g\<lparr>decisions := push_decision (decisions g)
       \<lparr>d_timestamp = stamp env, d_kind = kind, d_detail = detail, d_round = rnd\<rparr>\<rparr>)"

section \<open>Scratch directory\<close>

definition goal_dir :: "goal_tracker \<Rightarrow> rstr" where
  "goal_dir t = path_join (session_dir t) (lit ''goal'')"

definition plan_path :: "goal_tracker \<Rightarrow> rstr" where
  "plan_path t = path_join (goal_dir t) (lit ''plan.md'')"

definition plan_baseline_path :: "goal_tracker \<Rightarrow> rstr" where
  "plan_baseline_path t = path_join (goal_dir t) (lit ''plan.baseline.md'')"

definition strategy_path :: "goal_tracker \<Rightarrow> rstr" where
  "strategy_path t = path_join (goal_dir t) (lit ''strategy.md'')"

text \<open>\<^verbatim>\<open>Path::starts_with\<close> and \<^verbatim>\<open>Path::file_name\<close>.\<close>

definition path_starts_with :: "rstr \<Rightarrow> rstr \<Rightarrow> bool" where
  "path_starts_with p base = starts_with (components p) (components base)"

definition path_file_name :: "rstr \<Rightarrow> rstr option" where
  "path_file_name p =
     (let cs = components p
      in if cs = [] then None else (case last cs of Normal s \<Rightarrow> Some s | _ \<Rightarrow> None))"

definition rescue_classifier_details :: "goal_env \<Rightarrow> goal_tracker \<Rightarrow> goal_tracker" where
  "rescue_classifier_details env t =
     (case orchestration t of
        None \<Rightarrow> t
      | Some g \<Rightarrow>
          (case last_classifier_details_path (verification g) of
             None \<Rightarrow> t
           | Some src \<Rightarrow>
               if ParentDir \<in> set (components src) then t
               else
                 let scratch_root = goal_scratch_root env (verifier_id (verification g))
                 in if \<not> path_starts_with src scratch_root then t
                    else if \<not> owned_real_dir env scratch_root then t
                    else (case path_file_name src of
                            None \<Rightarrow> t
                          | Some name \<Rightarrow>
                              (let dest = path_join (goal_dir t) name
                               in if details_copied env src dest then
                                    t\<lparr>orchestration := Some (g\<lparr>verification :=
                                        (verification g)\<lparr>last_classifier_details_path := Some dest\<rparr>\<rparr>)\<rparr>
                                  else t))))"

definition remove_scratch_root :: "goal_env \<Rightarrow> goal_tracker \<Rightarrow> goal_tracker" where
  "remove_scratch_root env t =
     (case orchestration t of
        None \<Rightarrow> t
      | Some g \<Rightarrow> t\<lparr>disk := disk t - {goal_scratch_root env (verifier_id (verification g))}\<rparr>)"

text \<open>
  Securing the scratch root and creating the implementer's directory in it: whether the prompts
  may claim the directory, and the disk after it.
\<close>

definition create_scratch :: "goal_env \<Rightarrow> rstr \<Rightarrow> rstr set \<Rightarrow> bool \<times> rstr set" where
  "create_scratch env vid d =
     (if root_secured env then (implementer_created env, insert (goal_scratch_root env vid) d)
      else (False, d))"

section \<open>Creation and restart\<close>

definition goal_tracker_new :: "rstr \<Rightarrow> rstr set \<Rightarrow> goal_tracker" where
  "goal_tracker_new dir d =
     \<lparr>orchestration = None, session_dir = dir, active_since = None, disk = d\<rparr>"

definition is_ascii_hexdigit :: "rune \<Rightarrow> bool" where
  "is_ascii_hexdigit c \<longleftrightarrow> (48 \<le> c \<and> c \<le> 57) \<or> (65 \<le> c \<and> c \<le> 70) \<or> (97 \<le> c \<and> c \<le> 102)"

definition canonical_id :: "rstr \<Rightarrow> bool" where
  "canonical_id s \<longleftrightarrow> str_len s = 12 \<and> list_all is_ascii_hexdigit s"

definition from_snapshot :: "goal_env \<Rightarrow> rstr \<Rightarrow> rstr set \<Rightarrow> goal_orchestration \<Rightarrow> goal_tracker" where
  "from_snapshot env dir d snap =
     (let g1 = (if phase snap \<noteq> Idle then
                  snap\<lparr>phase := Idle,
                       status := (if status snap = Active then UserPaused else status snap),
                       current_subagent_id := None, current_subagent_role := None\<rparr>
                else snap);
          g2 = g1\<lparr>live := (live g1)\<lparr>planning_in_flight := False, verifying_in_flight := False\<rparr>,
                  verification := (verification g1)\<lparr>skeptic0_session_id := None,
                    verifier_id := (if canonical_id (verifier_id (verification g1))
                                    then verifier_id (verification g1) else fresh_id env)\<rparr>\<rparr>;
          (ready, d') = (if status g2 \<notin> {Complete, BudgetLimited}
                         then create_scratch env (verifier_id (verification g2)) d else (False, d))
      in \<lparr>orchestration = Some (g2\<lparr>scratch_dir_ready := ready\<rparr>), session_dir = dir,
          active_since = (if status g2 = Active then Some (now env) else None), disk = d'\<rparr>)"

definition create_goal :: "goal_env \<Rightarrow> rstr \<Rightarrow> rstr \<Rightarrow> int option \<Rightarrow> int \<Rightarrow> rstr \<Rightarrow> rstr option
    \<Rightarrow> goal_tracker \<Rightarrow> goal_tracker" where
  "create_goal env gid obj budget baseline created commit t =
     (let t1 = (if orchestration t \<noteq> None
                then remove_scratch_root env (rescue_classifier_details env t) else t);
          vid = fresh_id env;
          (ready, d) = create_scratch env vid (disk t1);
          g = \<lparr>goal_id = gid, objective = obj, status = Active, phase = Executing, elapsed_ms = 0,
               created_at = created, current_subagent_id = None, current_subagent_role = None,
               total_worker_rounds = 0, total_verify_rounds = 0,
               tokens = \<lparr>token_budget = budget, token_baseline = baseline, tokens_used_high_water = 0,
                         parent_tokens_spent = 0, last_session_tokens_seen = Some baseline,
                         budget_limit_reported = False\<rparr>,
               history = [], pause_message = None,
               verification = \<lparr>verifier_id = vid, classifier_runs_attempted = 0,
                 rounds_since_verify = 0, classifier_max_runs = None,
                 last_classifier_verdict = None, last_classifier_details_path = None,
                 last_classifier_at = None, last_classifier_gaps = None,
                 first_final_response = None, skeptic0_session_id = None,
                 skeptic_model_assignment = [], last_gap_fingerprint = None,
                 classifier_stall_count = 0, last_classifier_infra_fallback = False\<rparr>,
               strategist = \<lparr>consecutive_not_achieved = 0, last_strategist_fired_at = 0,
                 strategist_cap_bonus = 0, last_strategy_path = None,
                 last_strategy_recommendation = None\<rparr>,
               changes_baseline_commit = commit, auto_resumes = 0, decisions = [],
               plan_file = None, plan_baseline_file = None, scratch_dir_ready = ready,
               live = \<lparr>live_subagent_tokens = 0, live_tokens_by_model = [], live_context_window = 0,
                 live_context_pct = 0, live_turn_count = 0, live_tool_call_count = 0,
                 planning_in_flight = False, verifying_in_flight = False\<rparr>\<rparr>
      in record_event env GoalCreated None
           (t1\<lparr>orchestration := Some g, active_since := Some (now env), disk := d\<rparr>))"

section \<open>Transitions\<close>

definition is_active :: "goal_tracker \<Rightarrow> bool" where
  "is_active t = (case orchestration t of None \<Rightarrow> False | Some g \<Rightarrow> status g = Active)"

definition tracker_status :: "goal_tracker \<Rightarrow> goal_status option" where
  "tracker_status t = map_option status (orchestration t)"

definition set_phase :: "goal_phase \<Rightarrow> goal_tracker \<Rightarrow> goal_tracker" where
  "set_phase ph = update_goal (\<lambda>g. g\<lparr>phase := ph\<rparr>)"

definition set_current_subagent :: "rstr option \<Rightarrow> rstr option \<Rightarrow> goal_tracker \<Rightarrow> goal_tracker" where
  "set_current_subagent sid role =
     update_goal (\<lambda>g. g\<lparr>current_subagent_id := sid, current_subagent_role := role\<rparr>)"

text \<open>Flushing the running interval into \<open>elapsed_ms\<close> and stopping the timer.\<close>

definition flush_elapsed :: "goal_env \<Rightarrow> nat option \<Rightarrow> goal_orchestration \<Rightarrow> goal_orchestration" where
  "flush_elapsed env since g =
     (case since of
        None \<Rightarrow> g
      | Some s \<Rightarrow> g\<lparr>elapsed_ms := sat_add 64 (elapsed_ms g) (elapsed_since env s)\<rparr>)"

definition pause_inner :: "goal_env \<Rightarrow> goal_pause_reason \<Rightarrow> rstr option \<Rightarrow> goal_tracker
    \<Rightarrow> bool \<times> goal_tracker" where
  "pause_inner env reason msg t =
     (case orchestration t of
        Some g \<Rightarrow>
          if status g = Active then
            (let g' = (flush_elapsed env (active_since t) g)\<lparr>status := to_status reason\<rparr>;
                 g'' = (if msg \<noteq> None then g'\<lparr>pause_message := msg\<rparr> else g')
             in (True, record_event env GoalPaused (Some (lit (history_detail reason)))
                         (t\<lparr>orchestration := Some g'', active_since := None\<rparr>)))
          else (False, t)
      | None \<Rightarrow> (False, t))"

definition pause :: "goal_env \<Rightarrow> goal_pause_reason \<Rightarrow> goal_tracker \<Rightarrow> bool \<times> goal_tracker" where
  "pause env reason t = pause_inner env reason None t"

definition pause_with_message :: "goal_env \<Rightarrow> goal_pause_reason \<Rightarrow> rstr \<Rightarrow> goal_tracker
    \<Rightarrow> bool \<times> goal_tracker" where
  "pause_with_message env reason msg t = pause_inner env reason (Some msg) t"

text \<open>The fields \<open>resume\<close> and \<open>auto_resume\<close> reset in the same way.\<close>

definition rearm :: "goal_orchestration \<Rightarrow> goal_orchestration" where
  "rearm g =
     (let g1 = g\<lparr>status := Active, pause_message := None,
                 verification := (verification g)\<lparr>classifier_runs_attempted := 0,
                   rounds_since_verify := 0\<rparr>\<rparr>
      in reset_classifier_stall_fields (reset_strategist_fields g1))"

definition resume :: "goal_env \<Rightarrow> goal_tracker \<Rightarrow> bool \<times> goal_tracker" where
  "resume env t =
     (case orchestration t of
        Some g \<Rightarrow>
          if is_paused (status g) then
            (True, record_event env GoalResumed None
                     (t\<lparr>orchestration := Some (rearm g), active_since := Some (now env)\<rparr>))
          else (False, t)
      | None \<Rightarrow> (False, t))"

definition auto_resume :: "goal_env \<Rightarrow> goal_tracker \<Rightarrow> auto_resume_outcome \<times> goal_tracker" where
  "auto_resume env t =
     (case orchestration t of
        Some g \<Rightarrow>
          if status g \<notin> {BackOffPaused, NoProgressPaused, InfraPaused, BudgetLimited} then (NotEligible, t)
          else if GOAL_AUTO_RESUME_CAP \<le> auto_resumes g then (CapReached, t)
          else
            (let n = sat_add 32 (auto_resumes g) 1;
                 t1 = t\<lparr>orchestration := Some (rearm (g\<lparr>auto_resumes := n\<rparr>)),
                        active_since := Some (now env)\<rparr>;
                 t2 = record_event env GoalResumed (Some (lit ''auto:'' @ show_nat n)) t1
             in (Resumed, record_decision env AutoResumed (lit ''auto-resume #'' @ show_nat n) None t2))
      | None \<Rightarrow> (NotEligible, t))"

text \<open>The terminal transitions differ only in the status they set and the event they record.\<close>

definition end_goal :: "goal_env \<Rightarrow> goal_status \<Rightarrow> goal_event \<Rightarrow> goal_tracker \<Rightarrow> bool \<times> goal_tracker" where
  "end_goal env st event t =
     (case orchestration t of
        Some g \<Rightarrow>
          if status g = Active \<or> is_paused (status g) then
            (let g1 = flush_elapsed env (active_since t) g;
                 g2 = g1\<lparr>status := st, phase := Idle, current_subagent_id := None,
                         current_subagent_role := None, pause_message := None,
                         verification := (verification g1)\<lparr>skeptic0_session_id := None,
                           skeptic_model_assignment := []\<rparr>,
                         plan_baseline_file := None\<rparr>;
                 t1 = t\<lparr>orchestration := Some (reset_strategist_fields g2), active_since := None\<rparr>
             in (True, record_event env event None
                         (remove_scratch_root env (rescue_classifier_details env t1))))
          else (False, t)
      | None \<Rightarrow> (False, t))"

definition complete :: "goal_env \<Rightarrow> goal_tracker \<Rightarrow> bool \<times> goal_tracker" where
  "complete env t = end_goal env Complete GoalCompleted t"

definition budget_limit :: "goal_env \<Rightarrow> goal_tracker \<Rightarrow> bool \<times> goal_tracker" where
  "budget_limit env t = end_goal env BudgetLimited BudgetExceeded t"

definition clear_goal :: "goal_env \<Rightarrow> goal_tracker \<Rightarrow> goal_tracker" where
  "clear_goal env t =
     (remove_scratch_root env (rescue_classifier_details env t))
       \<lparr>orchestration := None, active_since := None\<rparr>"

definition update_live_progress :: "nat \<Rightarrow> (rstr \<times> nat) list \<Rightarrow> nat \<Rightarrow> nat \<Rightarrow> nat \<Rightarrow> nat
    \<Rightarrow> goal_tracker \<Rightarrow> goal_tracker" where
  "update_live_progress toks by_model win pct turns calls =
     update_goal (\<lambda>g. g\<lparr>live := (live g)\<lparr>live_subagent_tokens := toks, live_tokens_by_model := by_model,
       live_context_window := win, live_context_pct := pct, live_turn_count := turns,
       live_tool_call_count := calls\<rparr>\<rparr>)"

definition account_elapsed :: "goal_env \<Rightarrow> goal_tracker \<Rightarrow> goal_tracker" where
  "account_elapsed env t =
     (case (orchestration t, active_since t) of
        (Some g, Some since) \<Rightarrow>
          t\<lparr>orchestration := Some (flush_elapsed env (Some since) g), active_since := Some (now env)\<rparr>
      | _ \<Rightarrow> t)"

section \<open>Verification rounds and the strategist\<close>

definition stall_threshold :: "goal_orchestration \<Rightarrow> nat" where
  "stall_threshold g =
     (if 0 < strategist_cap_bonus (strategist g) then GOAL_STRATEGIST_STALL_THRESHOLD
      else GOAL_CLASSIFIER_STALL_THRESHOLD)"

definition record_classifier_stall :: "rstr \<Rightarrow> goal_tracker \<Rightarrow> bool \<times> goal_tracker" where
  "record_classifier_stall fingerprint t =
     (case orchestration t of
        None \<Rightarrow> (False, t)
      | Some g \<Rightarrow>
          (let v = verification g;
               v' = (if last_gap_fingerprint v = Some fingerprint
                     then v\<lparr>classifier_stall_count := sat_add 32 (classifier_stall_count v) 1\<rparr>
                     else v\<lparr>last_gap_fingerprint := Some fingerprint, classifier_stall_count := 1\<rparr>)
           in (stall_threshold g \<le> classifier_stall_count v',
               t\<lparr>orchestration := Some (g\<lparr>verification := v'\<rparr>)\<rparr>)))"

definition rollback_classifier_attempt :: "goal_tracker \<Rightarrow> goal_tracker" where
  "rollback_classifier_attempt =
     update_goal (\<lambda>g. g\<lparr>verification := (verification g)\<lparr>classifier_runs_attempted :=
       classifier_runs_attempted (verification g) - 1\<rparr>\<rparr>)"

definition reset_classifier_stall :: "goal_tracker \<Rightarrow> goal_tracker" where
  "reset_classifier_stall = update_goal reset_classifier_stall_fields"

definition record_not_achieved_streak :: "goal_tracker \<Rightarrow> nat \<times> goal_tracker" where
  "record_not_achieved_streak t =
     (case orchestration t of
        Some g \<Rightarrow>
          (let n = sat_add 32 (consecutive_not_achieved (strategist g)) 1
           in (n, t\<lparr>orchestration := Some (g\<lparr>strategist :=
                  (strategist g)\<lparr>consecutive_not_achieved := n\<rparr>\<rparr>)\<rparr>))
      | None \<Rightarrow> (0, t))"

definition claim_strategist_fire :: "(nat \<Rightarrow> nat \<Rightarrow> bool) \<Rightarrow> goal_tracker \<Rightarrow> nat option \<times> goal_tracker" where
  "claim_strategist_fire should_fire t =
     (case orchestration t of
        None \<Rightarrow> (None, t)
      | Some g \<Rightarrow>
          (let s = strategist g
           in if should_fire (consecutive_not_achieved s) (last_strategist_fired_at s) then
                (Some (consecutive_not_achieved s),
                 t\<lparr>orchestration := Some (reset_classifier_stall_fields (g\<lparr>strategist :=
                     s\<lparr>last_strategist_fired_at := consecutive_not_achieved s,
                       strategist_cap_bonus := GOAL_STRATEGIST_CAP_BONUS\<rparr>\<rparr>))\<rparr>)
              else (None, t)))"

definition revoke_strategist_cap_bonus :: "goal_tracker \<Rightarrow> goal_tracker" where
  "revoke_strategist_cap_bonus =
     update_goal (\<lambda>g. g\<lparr>strategist := (strategist g)\<lparr>strategist_cap_bonus := 0\<rparr>\<rparr>)"

definition reset_strategist_state :: "goal_tracker \<Rightarrow> goal_tracker" where
  "reset_strategist_state = update_goal reset_strategist_fields"

definition record_strategy_recommendation :: "goal_env \<Rightarrow> rstr \<Rightarrow> rstr \<Rightarrow> goal_tracker \<Rightarrow> goal_tracker" where
  "record_strategy_recommendation env p recommendation t =
     (case orchestration t of
        None \<Rightarrow> t
      | Some g \<Rightarrow>
          record_decision env StrategistAdvice
            (truncate_decision_detail (p @ lit '': '' @ recommendation)) (Some (total_verify_rounds g))
            (t\<lparr>orchestration := Some (g\<lparr>strategist := (strategist g)\<lparr>last_strategy_path := Some p,
               last_strategy_recommendation := Some recommendation\<rparr>\<rparr>)\<rparr>))"

end
