(* ===== verification/GoalProps.thy ===== *)
theory GoalProps
  imports Goal
begin

text \<open>
  What the goal tracker promises: its fields stay consistent in every run, a goal that the user
  paused or that is blocked never starts again by itself, automatic resumes are bounded, the logs
  keep the newest entries, stalls are detected exactly, and a restart never revives a goal that
  was in flight.
\<close>

section \<open>Logs\<close>

lemma push_history_newest: "length h \<le> GOAL_HISTORY_MAX \<Longrightarrow> push_history h e = newest GOAL_HISTORY_MAX (h @ [e])"
  by (simp add: push_history_def newest_def Let_def)

lemma push_decision_newest:
  "length ds \<le> GOAL_DECISIONS_MAX \<Longrightarrow> push_decision ds d = newest GOAL_DECISIONS_MAX (ds @ [d])"
  by (simp add: push_decision_def newest_def Let_def)

interpretation history_log: capped_log push_history GOAL_HISTORY_MAX
  by unfold_locales (rule push_history_newest)

interpretation decision_log: capped_log push_decision GOAL_DECISIONS_MAX
  by unfold_locales (rule push_decision_newest)

section \<open>The invariant\<close>

definition goal_ok :: "nat option \<Rightarrow> goal_orchestration \<Rightarrow> bool" where
  "goal_ok since g \<longleftrightarrow>
     (since \<noteq> None \<longleftrightarrow> status g = Active) \<and> length (history g) \<le> GOAL_HISTORY_MAX \<and>
     length (decisions g) \<le> GOAL_DECISIONS_MAX \<and> (pause_message g \<noteq> None \<longrightarrow> is_paused (status g)) \<and>
     auto_resumes g \<le> GOAL_AUTO_RESUME_CAP \<and>
     strategist_cap_bonus (strategist g) \<in> {0, GOAL_STRATEGIST_CAP_BONUS} \<and> elapsed_ms g < 2 ^ 64"

definition goal_inv :: "goal_tracker \<Rightarrow> bool" where
  "goal_inv t \<longleftrightarrow>
     (case orchestration t of None \<Rightarrow> active_since t = None | Some g \<Rightarrow> goal_ok (active_since t) g)"

lemma goal_inv_None: "orchestration t = None \<Longrightarrow> goal_inv t \<longleftrightarrow> active_since t = None"
  and goal_inv_Some: "orchestration t = Some g \<Longrightarrow> goal_inv t \<longleftrightarrow> goal_ok (active_since t) g"
  by (simp_all add: goal_inv_def)

lemma update_goal_inv:
  "goal_inv t \<Longrightarrow> (\<And>s g. goal_ok s g \<Longrightarrow> goal_ok s (f g)) \<Longrightarrow> goal_inv (update_goal f t)"
  by (auto simp: goal_inv_def update_goal_def split: option.splits)

lemma goal_ok_logs [inv_intros]:
  "goal_ok s g \<Longrightarrow> goal_ok s (g\<lparr>history := push_history (history g) e\<rparr>)"
  "goal_ok s g \<Longrightarrow> goal_ok s (g\<lparr>decisions := push_decision (decisions g) d\<rparr>)"
  using history_log.push_length [of "history g" e] decision_log.push_length [of "decisions g" d]
  by (simp_all add: goal_ok_def)

lemma goal_ok_resets [inv_intros]:
  "goal_ok s g \<Longrightarrow> goal_ok s (reset_strategist_fields g)"
  "goal_ok s g \<Longrightarrow> goal_ok s (reset_classifier_stall_fields g)"
  "goal_ok s g \<Longrightarrow> goal_ok s (g\<lparr>verification := v\<rparr>)"
  "goal_ok s g \<Longrightarrow> goal_ok s (g\<lparr>live := l\<rparr>)"
  by (simp_all add: goal_ok_def reset_strategist_fields_def reset_classifier_stall_fields_def)

lemma goal_inv_record_event [inv_intros]: "goal_inv t \<Longrightarrow> goal_inv (record_event env ev d t)"
  unfolding record_event_def append_history_def by (erule update_goal_inv) (rule goal_ok_logs)

lemma goal_inv_append_history [inv_intros]: "goal_inv t \<Longrightarrow> goal_inv (append_history e t)"
  unfolding append_history_def by (erule update_goal_inv) (rule goal_ok_logs)

lemma goal_inv_record_decision [inv_intros]: "goal_inv t \<Longrightarrow> goal_inv (record_decision env k d r t)"
  unfolding record_decision_def by (erule update_goal_inv) (rule goal_ok_logs)

lemma goal_inv_rescue [inv_intros]: "goal_inv t \<Longrightarrow> goal_inv (rescue_classifier_details env t)"
  by (auto simp: rescue_classifier_details_def goal_inv_def Let_def intro: goal_ok_resets
      split: option.splits)

lemma goal_inv_remove_root [inv_intros]: "goal_inv t \<Longrightarrow> goal_inv (remove_scratch_root env t)"
  by (auto simp: remove_scratch_root_def goal_inv_def split: option.splits)

lemma flush_elapsed_bound [simp]:
  "elapsed_ms g < 18446744073709551616 \<Longrightarrow> elapsed_ms (flush_elapsed env s g) < 18446744073709551616"
  using sat_add_bound [of 64] by (auto simp: flush_elapsed_def split: option.splits)

lemma flush_elapsed_frame [simp]:
  "status (flush_elapsed env s g) = status g" "history (flush_elapsed env s g) = history g"
  "decisions (flush_elapsed env s g) = decisions g" "pause_message (flush_elapsed env s g) = pause_message g"
  "auto_resumes (flush_elapsed env s g) = auto_resumes g" "strategist (flush_elapsed env s g) = strategist g"
  by (simp_all add: flush_elapsed_def split: option.splits)

lemma goal_ok_flush: "goal_ok s g \<Longrightarrow> goal_ok s (flush_elapsed env s' g)"
  by (simp add: goal_ok_def)

lemma to_status_paused: "is_paused (to_status r)" "to_status r \<noteq> Active"
  by (cases r; simp add: is_paused_def)+

lemma goal_inv_pause [inv_intros]: "goal_inv t \<Longrightarrow> goal_inv (snd (pause_inner env r m t))"
  using to_status_paused [of r]
  by (auto simp: pause_inner_def Let_def goal_inv_Some goal_ok_def intro!: goal_inv_record_event
      split: option.splits)

lemma goal_ok_rearm: "goal_ok s g \<Longrightarrow> goal_ok (Some n) (rearm g)"
  by (simp add: rearm_def goal_ok_def reset_strategist_fields_def reset_classifier_stall_fields_def Let_def)

lemma goal_inv_resume [inv_intros]: "goal_inv t \<Longrightarrow> goal_inv (snd (resume env t))"
  by (auto simp: resume_def goal_inv_Some intro!: goal_inv_record_event goal_ok_rearm split: option.splits)

lemma goal_inv_auto_resume [inv_intros]:
  assumes "goal_inv t"
  shows "goal_inv (snd (auto_resume env t))"
proof (cases "fst (auto_resume env t) = Resumed")
  case True
  then obtain g where g: "orchestration t = Some g" "auto_resumes g < GOAL_AUTO_RESUME_CAP"
    by (auto simp: auto_resume_def split: option.splits if_splits)
  have "sat_add 32 (auto_resumes g) 1 \<le> GOAL_AUTO_RESUME_CAP"
    using g(2) by (simp add: sat_add_def)
  then have "goal_ok (active_since t) (g\<lparr>auto_resumes := sat_add 32 (auto_resumes g) 1\<rparr>)"
    using assms g by (simp add: goal_inv_Some goal_ok_def)
  then show ?thesis
    using g assms
    by (auto simp: auto_resume_def Let_def goal_inv_Some
        intro!: goal_inv_record_decision goal_inv_record_event goal_ok_rearm)
next
  case False
  then have "snd (auto_resume env t) = t"
    by (auto simp: auto_resume_def Let_def split: option.splits if_splits)
  with assms show ?thesis by simp
qed

lemma goal_inv_end_goal [inv_intros]:
  assumes "goal_inv t" "st \<noteq> Active"
  shows "goal_inv (snd (end_goal env st ev t))"
proof (cases "orchestration t")
  case (Some g)
  then have "goal_ok (active_since t) (flush_elapsed env (active_since t) g)"
    using assms goal_ok_flush by (simp add: goal_inv_Some)
  then show ?thesis
    using Some assms
    by (auto simp: end_goal_def Let_def goal_inv_Some goal_ok_def reset_strategist_fields_def
        intro!: goal_inv_record_event goal_inv_remove_root goal_inv_rescue)
qed (use assms in \<open>simp add: end_goal_def\<close>)

lemma goal_inv_create [inv_intros]: "goal_inv (create_goal env gid obj b bl c cm t)"
  by (auto simp: create_goal_def Let_def goal_inv_Some goal_ok_def intro!: goal_inv_record_event
      split: prod.splits)

lemma goal_inv_clear [inv_intros]: "goal_inv (clear_goal env t)"
  by (simp add: clear_goal_def goal_inv_None)

lemma goal_inv_account [inv_intros]: "goal_inv t \<Longrightarrow> goal_inv (account_elapsed env t)"
  by (auto simp: account_elapsed_def goal_inv_def goal_ok_def split: option.splits)

lemma goal_inv_stall [inv_intros]: "goal_inv t \<Longrightarrow> goal_inv (snd (record_classifier_stall fp t))"
  by (auto simp: record_classifier_stall_def Let_def goal_inv_Some intro: goal_ok_resets split: option.splits)

lemma goal_inv_strategist [inv_intros]:
  "goal_inv t \<Longrightarrow> goal_inv (snd (record_not_achieved_streak t))"
  "goal_inv t \<Longrightarrow> goal_inv (snd (claim_strategist_fire f t))"
  "goal_inv t \<Longrightarrow> goal_inv (revoke_strategist_cap_bonus t)"
  "goal_inv t \<Longrightarrow> goal_inv (record_strategy_recommendation env p r t)"
  by (auto simp: record_not_achieved_streak_def claim_strategist_fire_def revoke_strategist_cap_bonus_def
      record_strategy_recommendation_def Let_def goal_inv_Some goal_ok_def reset_classifier_stall_fields_def
      intro!: update_goal_inv goal_inv_record_decision split: option.splits)

lemma goal_inv_updates [inv_intros]:
  "goal_inv t \<Longrightarrow> goal_inv (set_phase ph t)"
  "goal_inv t \<Longrightarrow> goal_inv (set_current_subagent i r t)"
  "goal_inv t \<Longrightarrow> goal_inv (update_live_progress a b c d e f t)"
  "goal_inv t \<Longrightarrow> goal_inv (rollback_classifier_attempt t)"
  "goal_inv t \<Longrightarrow> goal_inv (reset_classifier_stall t)"
  "goal_inv t \<Longrightarrow> goal_inv (reset_strategist_state t)"
  unfolding set_phase_def set_current_subagent_def update_live_progress_def
    rollback_classifier_attempt_def reset_classifier_stall_def reset_strategist_state_def
  by (erule update_goal_inv; simp add: goal_ok_def reset_strategist_fields_def
      reset_classifier_stall_fields_def)+

section \<open>Runs\<close>

datatype goal_op =
    OpCreate goal_env rstr rstr "int option" int rstr "rstr option"
  | OpSetPhase goal_phase
  | OpSetSubagent "rstr option" "rstr option"
  | OpPause goal_env goal_pause_reason "rstr option"
  | OpResume goal_env
  | OpAutoResume goal_env
  | OpComplete goal_env
  | OpBudgetLimit goal_env
  | OpClear goal_env
  | OpLive nat "(rstr \<times> nat) list" nat nat nat nat
  | OpAccount goal_env
  | OpStall rstr
  | OpRollback
  | OpResetStall
  | OpStreak
  | OpClaim "nat \<Rightarrow> nat \<Rightarrow> bool"
  | OpRevoke
  | OpResetStrategist
  | OpRecommend goal_env rstr rstr
  | OpDecision goal_env goal_decision_kind rstr "nat option"
  | OpHistory goal_history_entry

fun goal_step :: "goal_tracker \<Rightarrow> goal_op \<Rightarrow> goal_tracker" where
  "goal_step t (OpCreate env gid obj b bl c cm) = create_goal env gid obj b bl c cm t"
| "goal_step t (OpSetPhase ph) = set_phase ph t"
| "goal_step t (OpSetSubagent i r) = set_current_subagent i r t"
| "goal_step t (OpPause env r m) = snd (pause_inner env r m t)"
| "goal_step t (OpResume env) = snd (resume env t)"
| "goal_step t (OpAutoResume env) = snd (auto_resume env t)"
| "goal_step t (OpComplete env) = snd (complete env t)"
| "goal_step t (OpBudgetLimit env) = snd (budget_limit env t)"
| "goal_step t (OpClear env) = clear_goal env t"
| "goal_step t (OpLive a b c d e f) = update_live_progress a b c d e f t"
| "goal_step t (OpAccount env) = account_elapsed env t"
| "goal_step t (OpStall fp) = snd (record_classifier_stall fp t)"
| "goal_step t OpRollback = rollback_classifier_attempt t"
| "goal_step t OpResetStall = reset_classifier_stall t"
| "goal_step t OpStreak = snd (record_not_achieved_streak t)"
| "goal_step t (OpClaim f) = snd (claim_strategist_fire f t)"
| "goal_step t OpRevoke = revoke_strategist_cap_bonus t"
| "goal_step t OpResetStrategist = reset_strategist_state t"
| "goal_step t (OpRecommend env p r) = record_strategy_recommendation env p r t"
| "goal_step t (OpDecision env k d r) = record_decision env k d r t"
| "goal_step t (OpHistory e) = append_history e t"

lemma goal_inv_step: "goal_inv t \<Longrightarrow> goal_inv (goal_step t op)"
  by (cases op) (auto simp: complete_def budget_limit_def intro: inv_intros)

interpretation goal_machine: invariant_machine goal_step goal_inv
  by unfold_locales (rule goal_inv_step)

text \<open>C20: in every run of the tracker's methods the timer runs exactly while the goal is active, a
  pause message is kept only while the goal is paused, the history has at most 64 and the
  decision log at most 32 entries, the strategist's bonus is none or three rounds, and at most
  three automatic resumes are counted.\<close>

theorem goal_run_consistent:
  "(let t = foldl goal_step (goal_tracker_new dir d) ops
    in case orchestration t of
         None \<Rightarrow> active_since t = None
       | Some g \<Rightarrow>
           (active_since t \<noteq> None \<longleftrightarrow> status g = Active) \<and>
           (pause_message g = None \<or> is_paused (status g)) \<and>
           length (history g) \<le> 64 \<and> length (decisions g) \<le> 32 \<and>
           strategist_cap_bonus (strategist g) \<in> {0, 3} \<and> auto_resumes g \<le> 3 \<and>
           elapsed_ms g < 2 ^ 64)"
proof -
  have "goal_inv (foldl goal_step (goal_tracker_new dir d) ops)"
    by (rule goal_machine.run_inv) (simp add: goal_inv_None goal_tracker_new_def)
  then show ?thesis
    by (auto simp: goal_inv_def goal_ok_def GOAL_HISTORY_MAX_def GOAL_DECISIONS_MAX_def Let_def
        GOAL_STRATEGIST_CAP_BONUS_def GOAL_AUTO_RESUME_CAP_def split: option.splits)
qed

section \<open>Who may start a goal again\<close>

text \<open>How a step changes the status: frames of the operations.\<close>

lemma status_update_goal:
  "(\<And>g. status (f g) = status g) \<Longrightarrow> tracker_status (update_goal f t) = tracker_status t"
  by (simp add: tracker_status_def update_goal_def option.map_comp comp_def)

lemma status_logs [simp]:
  "tracker_status (record_event env ev d t) = tracker_status t"
  "tracker_status (append_history e t) = tracker_status t"
  "tracker_status (record_decision env k de r t) = tracker_status t"
  by (simp_all add: record_event_def append_history_def record_decision_def status_update_goal)

lemma status_scratch [simp]:
  "tracker_status (rescue_classifier_details env t) = tracker_status t"
  "tracker_status (remove_scratch_root env t) = tracker_status t"
  by (auto simp: rescue_classifier_details_def remove_scratch_root_def tracker_status_def Let_def
      split: option.splits)

lemma status_resets [simp]:
  "status (reset_strategist_fields g) = status g" "status (reset_classifier_stall_fields g) = status g"
  by (simp_all add: reset_strategist_fields_def reset_classifier_stall_fields_def)

lemma status_updates [simp]:
  "tracker_status (set_phase ph t) = tracker_status t"
  "tracker_status (set_current_subagent i r t) = tracker_status t"
  "tracker_status (update_live_progress a b c d e f t) = tracker_status t"
  "tracker_status (rollback_classifier_attempt t) = tracker_status t"
  "tracker_status (reset_classifier_stall t) = tracker_status t"
  "tracker_status (reset_strategist_state t) = tracker_status t"
  "tracker_status (revoke_strategist_cap_bonus t) = tracker_status t"
  "tracker_status (account_elapsed env t) = tracker_status t"
  "tracker_status (snd (record_classifier_stall fp t)) = tracker_status t"
  "tracker_status (snd (record_not_achieved_streak t)) = tracker_status t"
  "tracker_status (snd (claim_strategist_fire sf t)) = tracker_status t"
  "tracker_status (record_strategy_recommendation env p rc t) = tracker_status t"
  unfolding set_phase_def set_current_subagent_def update_live_progress_def
    rollback_classifier_attempt_def reset_classifier_stall_def reset_strategist_state_def
    revoke_strategist_cap_bonus_def
  by (simp_all add: status_update_goal)
    (auto simp: tracker_status_def account_elapsed_def record_classifier_stall_def
      record_not_achieved_streak_def claim_strategist_fire_def record_strategy_recommendation_def Let_def
      record_decision_def update_goal_def split: option.splits)

lemma status_set: "tracker_status (t\<lparr>orchestration := Some x, active_since := a\<rparr>) = Some (status x)"
  by (simp add: tracker_status_def)

lemma status_end_goal:
  "tracker_status (snd (end_goal env st ev t)) =
     (case tracker_status t of
        Some s \<Rightarrow> if s = Active \<or> is_paused s then Some st else Some s
      | None \<Rightarrow> None)"
  by (cases "orchestration t") (simp_all add: end_goal_def Let_def status_set tracker_status_def [of t])

text \<open>
  A goal that waits for the user, or is finished: a decision of the user alone (\<open>resume\<close>, a new
  goal, \<open>clear\<close>) can change that.
\<close>

fun user_decision :: "goal_op \<Rightarrow> bool" where
  "user_decision (OpCreate env gid obj b bl c cm) \<longleftrightarrow> True"
| "user_decision (OpResume env) \<longleftrightarrow> True"
| "user_decision (OpClear env) \<longleftrightarrow> True"
| "user_decision _ \<longleftrightarrow> False"

lemma pause_status:
  "tracker_status t \<noteq> Some Active \<Longrightarrow> snd (pause_inner env r m t) = t"
  by (auto simp: pause_inner_def tracker_status_def split: option.splits)

lemma auto_resume_not_eligible:
  assumes "tracker_status t \<in> {None, Some Active, Some UserPaused, Some Blocked, Some Complete}"
  shows "auto_resume env t = (NotEligible, t)"
  using assms by (auto simp: auto_resume_def tracker_status_def split: option.splits)

definition waits_for_user :: "goal_status option \<Rightarrow> bool" where
  "waits_for_user s \<longleftrightarrow> s \<in> {Some UserPaused, Some Blocked, Some Complete}"

lemma waiting_step:
  assumes "waits_for_user (tracker_status t)" "\<not> user_decision op" "\<forall>env. op \<noteq> OpBudgetLimit env"
  shows "tracker_status (goal_step t op) \<in> {tracker_status t, Some Complete}"
proof (cases op)
  case (OpPause env r m)
  then show ?thesis using assms pause_status [of t env r m] by (auto simp: waits_for_user_def)
next
  case (OpAutoResume env)
  then show ?thesis
    using assms auto_resume_not_eligible [of t env] by (auto simp: waits_for_user_def)
next
  case (OpComplete env)
  then show ?thesis
    using assms by (auto simp: complete_def status_end_goal waits_for_user_def split: option.splits)
qed (use assms in auto)


definition sample_env :: goal_env where
  "sample_env = \<lparr>now = 5000000, stamp = [], temp_dir = lit ''/tmp'', fresh_id = lit ''0123456789ab'',
     root_secured = True, implementer_created = True, owned_real_dir = (\<lambda>_. True),
     details_copied = (\<lambda>_ _. False)\<rparr>"

definition sample_goal :: goal_tracker where
  "sample_goal = create_goal sample_env [] [] None 0 [] None (goal_tracker_new (lit ''/s'') {})"

lemma sample_goal_status: "tracker_status sample_goal = Some Active"
  by (simp add: sample_goal_def create_goal_def Let_def status_set
      tracker_status_def [of "_\<lparr>orchestration := _, active_since := _, disk := _\<rparr>"] split: prod.splits)

lemma pause_active: "tracker_status t = Some Active \<Longrightarrow>
    tracker_status (snd (pause_inner env r m t)) = Some (to_status r)"
  by (auto simp: pause_inner_def tracker_status_def [of t] Let_def status_set split: option.splits)


lemma auto_resume_status:
  assumes "orchestration t = Some g" "auto_resumes g < GOAL_AUTO_RESUME_CAP"
    and "status g \<in> {BackOffPaused, NoProgressPaused, InfraPaused, BudgetLimited}"
  shows "fst (auto_resume env t) = Resumed \<and> tracker_status (snd (auto_resume env t)) = Some Active"
  using assms by (auto simp: auto_resume_def Let_def status_set rearm_def)

definition auto_count :: "goal_tracker \<Rightarrow> nat" where
  "auto_count t = (case orchestration t of None \<Rightarrow> 0 | Some g \<Rightarrow> auto_resumes g)"

lemma auto_count_update: "(\<And>g. auto_resumes (f g) = auto_resumes g) \<Longrightarrow> auto_count (update_goal f t) = auto_count t"
  by (simp add: auto_count_def update_goal_def split: option.splits)

lemma auto_count_logs [simp]:
  "auto_count (record_event env ev d t) = auto_count t"
  "auto_count (append_history e t) = auto_count t"
  "auto_count (record_decision env k de r t) = auto_count t"
  by (simp_all add: record_event_def append_history_def record_decision_def auto_count_update)

lemma auto_count_set: "auto_count (t\<lparr>orchestration := Some g, active_since := a\<rparr>) = auto_resumes g"
  by (simp add: auto_count_def)

lemma auto_count_resets [simp]:
  "auto_resumes (reset_strategist_fields g) = auto_resumes g"
  "auto_resumes (reset_classifier_stall_fields g) = auto_resumes g"
  "auto_resumes (rearm g) = auto_resumes g"
  by (simp_all add: reset_strategist_fields_def reset_classifier_stall_fields_def rearm_def Let_def)

lemma auto_count_scratch [simp]:
  "auto_count (rescue_classifier_details env t) = auto_count t"
  "auto_count (remove_scratch_root env t) = auto_count t"
  by (auto simp: rescue_classifier_details_def remove_scratch_root_def auto_count_def Let_def
      split: option.splits)

lemma auto_count_flush [simp]: "auto_resumes (flush_elapsed env s g) = auto_resumes g"
  by (simp add: flush_elapsed_def split: option.splits)

lemma auto_count_end_goal: "auto_count (snd (end_goal env st ev t)) = auto_count t"
  by (cases "orchestration t") (simp_all add: end_goal_def Let_def auto_count_set auto_count_def [of t])

text \<open>The budget limit undoes the user's pause: it accepts a goal that is user-paused or blocked,
  and the budget-limited goal it leaves is eligible for an automatic resume, which makes the goal
  active although no one resumed it.\<close>

theorem budget_limit_unlocks_user_pause:
  fixes env env' t g
  assumes "orchestration t = Some g" "status g \<in> {UserPaused, Blocked}" "auto_resumes g < 3"
  defines "t' \<equiv> snd (budget_limit env t)"
  shows "fst (auto_resume env' t') = Resumed \<and> tracker_status (snd (auto_resume env' t')) = Some Active"
proof -
  have "tracker_status t' = Some BudgetLimited"
    using assms by (auto simp: t'_def budget_limit_def status_end_goal is_paused_def tracker_status_def [of t])
  moreover have "auto_count t' = auto_resumes g"
    using assms by (simp add: t'_def budget_limit_def auto_count_end_goal auto_count_def [of t])
  ultimately obtain g' where "orchestration t' = Some g'" "status g' = BudgetLimited"
      "auto_resumes g' = auto_resumes g"
    by (auto simp: tracker_status_def auto_count_def)
  then show ?thesis using auto_resume_status assms(3) by (simp add: GOAL_AUTO_RESUME_CAP_def)
qed

lemma budget_limit_unlocks_user_pause_witness:
  "fst (auto_resume sample_env (snd (budget_limit sample_env (snd (pause sample_env User sample_goal))))) =
   Resumed"
proof -
  obtain g where g: "orchestration (snd (pause sample_env User sample_goal)) = Some g" "status g = UserPaused"
    using pause_active [OF sample_goal_status, of sample_env User None]
    by (auto simp: pause_def tracker_status_def)
  have "auto_resumes g < 3"
    using g(1) by (auto simp: pause_def pause_inner_def sample_goal_def create_goal_def Let_def
        record_event_def append_history_def update_goal_def flush_elapsed_def split: prod.splits)
  then show ?thesis using budget_limit_unlocks_user_pause [OF g(1)] g(2) by simp
qed

text \<open>Counting the automatic resumes of a run.\<close>

fun resumes_now :: "goal_tracker \<Rightarrow> goal_op \<Rightarrow> bool" where
  "resumes_now t (OpAutoResume env) \<longleftrightarrow> fst (auto_resume env t) = Resumed"
| "resumes_now t _ \<longleftrightarrow> False"

fun auto_resumed :: "goal_tracker \<Rightarrow> goal_op list \<Rightarrow> nat" where
  "auto_resumed t [] = 0"
| "auto_resumed t (op # ops) = (if resumes_now t op then 1 else 0) + auto_resumed (goal_step t op) ops"

fun replaces_goal :: "goal_op \<Rightarrow> bool" where
  "replaces_goal (OpCreate env gid obj b bl c cm) \<longleftrightarrow> True"
| "replaces_goal (OpClear env) \<longleftrightarrow> True"
| "replaces_goal _ \<longleftrightarrow> False"

lemma auto_count_step:
  assumes "goal_inv t" "\<not> replaces_goal op"
  shows "auto_count (goal_step t op) = auto_count t + (if resumes_now t op then 1 else 0)"
proof (cases op)
  case (OpAutoResume env)
  show ?thesis
  proof (cases "fst (auto_resume env t) = Resumed")
    case True
    then obtain g where g: "orchestration t = Some g" "auto_resumes g < GOAL_AUTO_RESUME_CAP"
        "status g \<in> {BackOffPaused, NoProgressPaused, InfraPaused, BudgetLimited}"
      by (auto simp: auto_resume_def split: option.splits if_splits)
    then have "sat_add 32 (auto_resumes g) 1 = Suc (auto_resumes g)"
      by (simp add: sat_add_def GOAL_AUTO_RESUME_CAP_def)
    with g True OpAutoResume show ?thesis
      by (auto simp: auto_resume_def Let_def auto_count_set auto_count_def [of t])
  next
    case False
    then have "snd (auto_resume env t) = t"
      by (auto simp: auto_resume_def Let_def split: option.splits if_splits)
    with False OpAutoResume show ?thesis by simp
  qed
qed (use assms in \<open>auto simp: auto_count_end_goal complete_def budget_limit_def set_phase_def
    set_current_subagent_def update_live_progress_def rollback_classifier_attempt_def
    reset_classifier_stall_def revoke_strategist_cap_bonus_def reset_strategist_state_def
    auto_count_update pause_inner_def resume_def account_elapsed_def record_classifier_stall_def
    record_not_achieved_streak_def claim_strategist_fire_def record_strategy_recommendation_def
    Let_def auto_count_set auto_count_def [of t] auto_count_def [of "t\<lparr>orchestration := _\<rparr>"]
    split: option.splits\<close>)

text \<open>C37: one goal resumes automatically at most three times. Whatever happens between the creation
  of a goal and its replacement, explicit resumes of the user included, the number of calls of
  \<open>auto_resume\<close> that resume it is at most three.\<close>

theorem auto_resume_bounded:
  assumes "goal_inv t" "\<forall>op \<in> set ops. \<not> replaces_goal op"
  shows "auto_count t + auto_resumed t ops \<le> 3"
proof -
  have "auto_count (foldl goal_step t ops) = auto_count t + auto_resumed t ops"
    using assms
    by (induction ops arbitrary: t) (auto simp: auto_count_step goal_inv_step)
  moreover have "auto_count (foldl goal_step t ops) \<le> 3"
    using goal_machine.run_inv [OF assms(1), of ops]
    by (auto simp: goal_inv_def goal_ok_def auto_count_def GOAL_AUTO_RESUME_CAP_def split: option.splits)
  ultimately show ?thesis by simp
qed

lemma sample_goal_inv: "goal_inv sample_goal"
  by (simp add: sample_goal_def goal_inv_create)

lemma auto_resume_bounded_witness:
  "auto_resumed sample_goal [OpPause sample_env Infra None, OpAutoResume sample_env] \<le> 3"
  using auto_resume_bounded [OF sample_goal_inv, of "[OpPause sample_env Infra None, OpAutoResume sample_env]"]
  by auto

section \<open>Wire format and restart\<close>

text \<open>A status is read back as it was written, and text that this version does not know is never
  read as an active goal: only the two spellings of \<open>active\<close> are.\<close>

theorem status_wire_roundtrip:
  "from_wire_str (status_wire_str st) = st \<and> (from_wire_str s = Active \<longleftrightarrow> s \<in> {''active'', ''Active''})"
  by (cases st) (simp_all add: from_wire_str_def)

lemma split_on_snoc: "c \<notin> set t \<Longrightarrow> split_on c (s @ c # t) = split_on c s @ [t]"
proof (induction s)
  case Nil
  then show ?case by (simp add: split_on_id)
next
  case (Cons a s)
  then show ?case by (auto split: list.splits)
qed

lemma components_child:
  assumes "47 \<notin> set n" "n \<noteq> []" "n \<noteq> [46]" "n \<noteq> [46, 46]" "base \<noteq> []" "last base \<noteq> 47"
  shows "components (path_join base n) = components base @ [Normal n]"
proof -
  have "\<not> starts_with n [47]" using assms(1) by (cases n) (auto simp: starts_with_def)
  moreover have "starts_with (base @ 47 # n) [47] = starts_with base [47]"
    using assms(5) by (cases base) (simp_all add: starts_with_def)
  moreover have "hd (split_on 47 base @ [n]) = hd (split_on 47 base)" by (simp add: hd_append)
  ultimately show ?thesis
    using assms by (simp add: path_join_def components_def Let_def split_on_snoc to_component_def)
qed

lemma canonical_child:
  assumes "canonical_id vid" "temp_dir env \<noteq> []" "last (temp_dir env) \<noteq> 47"
  shows "components (goal_scratch_root env vid) =
         components (temp_dir env) @ [Normal (lit ''ds-goal-'' @ vid)]"
proof -
  have "47 \<notin> set vid" using assms(1) by (auto simp: canonical_id_def list_all_iff is_ascii_hexdigit_def)
  then show ?thesis
    unfolding goal_scratch_root_def using assms(2,3)
    by (intro components_child) (simp_all add: str_simps)
qed

text \<open>A restart is safe for any persisted snapshot. A goal whose phase was in flight never comes
  back active, no subagent and no in-flight badge survives, the timer runs exactly when the goal
  is active; and whatever the identifier in the snapshot was, the scratch root that later
  transitions remove is a direct child of the directory for temporary files.\<close>

theorem from_snapshot_safe:
  assumes "canonical_id (fresh_id env)" "temp_dir env \<noteq> []" "last (temp_dir env) \<noteq> 47"
  shows "\<exists>g. orchestration (from_snapshot env dir d snap) = Some g \<and> phase g = Idle \<and>
     (status g = Active \<longrightarrow> phase snap = Idle \<and> status snap = Active) \<and>
     (active_since (from_snapshot env dir d snap) \<noteq> None \<longleftrightarrow> status g = Active) \<and>
     (phase snap \<noteq> Idle \<longrightarrow> current_subagent_id g = None) \<and>
     \<not> planning_in_flight (live g) \<and> \<not> verifying_in_flight (live g) \<and>
     components (goal_scratch_root env (verifier_id (verification g))) =
       components (temp_dir env) @ [Normal (lit ''ds-goal-'' @ verifier_id (verification g))]"
proof -
  obtain g where g: "orchestration (from_snapshot env dir d snap) = Some g"
    by (simp add: from_snapshot_def Let_def case_prod_beta)
  then have "canonical_id (verifier_id (verification g))"
    using assms(1) by (auto simp: from_snapshot_def Let_def split: prod.splits if_splits)
  note root = canonical_child [OF this assms(2,3)]
  have "phase g = Idle" "status g = Active \<longrightarrow> phase snap = Idle \<and> status snap = Active"
    "active_since (from_snapshot env dir d snap) \<noteq> None \<longleftrightarrow> status g = Active"
    "phase snap \<noteq> Idle \<longrightarrow> current_subagent_id g = None"
    "\<not> planning_in_flight (live g)" "\<not> verifying_in_flight (live g)"
    using g by (auto simp: from_snapshot_def Let_def split: prod.splits if_splits)
  with g root show ?thesis by blast
qed

lemma from_snapshot_safe_witness:
  "\<exists>g. orchestration (from_snapshot sample_env [] {} (the (orchestration sample_goal))) = Some g \<and>
     status g \<noteq> Active"
proof -
  have "canonical_id (fresh_id sample_env)" "temp_dir sample_env \<noteq> []" "last (temp_dir sample_env) \<noteq> 47"
    by (simp_all add: sample_env_def canonical_id_def is_ascii_hexdigit_def len_utf8_def str_simps)
  moreover have "phase (the (orchestration sample_goal)) = Executing"
    by (simp add: sample_goal_def create_goal_def Let_def record_event_def append_history_def
        update_goal_def split: prod.splits)
  ultimately show ?thesis
    using from_snapshot_safe [of sample_env "[]" "{}" "the (orchestration sample_goal)"] by auto
qed

section \<open>Stalls\<close>

text \<open>How often the last fingerprint was repeated without another one in between.\<close>

definition last_run :: "rstr list \<Rightarrow> nat" where
  "last_run fps = length (takeWhile (\<lambda>f. f = last fps) (rev fps))"

lemma last_run_snoc:
  "last_run (fps @ [f]) = (if fps \<noteq> [] \<and> last fps = f then Suc (last_run fps) else 1)"
  by (cases fps rule: rev_cases) (auto simp: last_run_def)

definition record_stalls :: "rstr list \<Rightarrow> goal_tracker \<Rightarrow> goal_tracker" where
  "record_stalls fps t = foldl (\<lambda>t f. snd (record_classifier_stall f t)) t fps"

lemma record_stalls_state:
  assumes "orchestration t = Some g" "last_gap_fingerprint (verification g) = None"
  shows "\<exists>g'. orchestration (record_stalls fps t) = Some g' \<and> strategist g' = strategist g \<and>
     last_gap_fingerprint (verification g') = (if fps = [] then None else Some (last fps)) \<and>
     (fps \<noteq> [] \<longrightarrow> classifier_stall_count (verification g') = min (last_run fps) (2 ^ 32 - 1))"
proof (induction fps rule: rev_induct)
  case Nil
  then show ?case using assms by (simp add: record_stalls_def)
next
  case (snoc f fps)
  then show ?case
    by (auto simp: record_stalls_def record_classifier_stall_def Let_def last_run_snoc sat_add_def)
qed

text \<open>The stall detector is exact. From a fresh streak, the call for a rejection reports a stall
  exactly when its fingerprint has now come up at least twice in a row (five times while a
  restructure of the strategist is in flight), whatever came before.\<close>

theorem stall_reported_iff_repeated:
  assumes "orchestration t = Some g" "last_gap_fingerprint (verification g) = None"
  shows "fst (record_classifier_stall fp (record_stalls fps t)) \<longleftrightarrow>
         (if 0 < strategist_cap_bonus (strategist g) then 5 else 2) \<le> last_run (fps @ [fp])"
proof -
  obtain g' where g': "orchestration (record_stalls fps t) = Some g'" "strategist g' = strategist g"
      "last_gap_fingerprint (verification g') = (if fps = [] then None else Some (last fps))"
      "fps \<noteq> [] \<longrightarrow> classifier_stall_count (verification g') = min (last_run fps) (2 ^ 32 - 1)"
    using record_stalls_state [OF assms] by blast
  then show ?thesis
    by (auto simp: record_classifier_stall_def Let_def last_run_snoc sat_add_def stall_threshold_def
        GOAL_STRATEGIST_STALL_THRESHOLD_def GOAL_CLASSIFIER_STALL_THRESHOLD_def
        GOAL_STRATEGIST_CAP_BONUS_def)
qed

lemma sample_goal_fields:
  "\<exists>g. orchestration sample_goal = Some g \<and> last_gap_fingerprint (verification g) = None \<and>
     strategist_cap_bonus (strategist g) = 0 \<and> auto_resumes g = 0 \<and> scratch_dir_ready g \<and>
     status g = Active \<and> length (decisions g) = 0"
  by (simp add: sample_goal_def create_goal_def create_scratch_def sample_env_def Let_def
      record_event_def append_history_def update_goal_def)

lemma stall_reported_iff_repeated_witness:
  "fst (record_classifier_stall [7] (record_stalls [[7], [8], [7]] sample_goal)) = True"
proof -
  obtain g where "orchestration sample_goal = Some g" "last_gap_fingerprint (verification g) = None"
      "strategist_cap_bonus (strategist g) = 0" using sample_goal_fields by blast
  then show ?thesis
    using stall_reported_iff_repeated [of sample_goal g "[7]" "[[7], [8], [7]]"]
    by (simp add: last_run_def)
qed

section \<open>Log contents and the scratch directory\<close>

definition record_decisions :: "goal_env \<Rightarrow> (goal_decision_kind \<times> rstr \<times> nat option) list
    \<Rightarrow> goal_tracker \<Rightarrow> goal_tracker" where
  "record_decisions env xs t = foldl (\<lambda>t (k, d, r). record_decision env k d r t) t xs"

definition decision_entry :: "goal_env \<Rightarrow> goal_decision_kind \<times> rstr \<times> nat option \<Rightarrow> goal_decision_entry" where
  "decision_entry env x = (case x of (k, d, r) \<Rightarrow>
     \<lparr>d_timestamp = stamp env, d_kind = k, d_detail = d, d_round = r\<rparr>)"

lemma record_decisions_state:
  "orchestration t = Some g \<Longrightarrow> orchestration (record_decisions env xs t) =
     Some (g\<lparr>decisions := foldl push_decision (decisions g) (map (decision_entry env) xs)\<rparr>)"
proof (induction xs rule: rev_induct)
  case (snoc x xs)
  then show ?case
    by (cases x) (simp add: record_decisions_def record_decision_def update_goal_def decision_entry_def)
qed (simp add: record_decisions_def)

text \<open>The decision log keeps the newest 32 decisions, in order, however many are recorded, and
  recording them changes nothing else of the goal.\<close>

theorem decisions_keep_newest:
  assumes "orchestration t = Some g" "length (decisions g) \<le> 32"
  shows "orchestration (record_decisions env xs t) =
     Some (g\<lparr>decisions := newest 32 (decisions g @ map (decision_entry env) xs)\<rparr>)"
  using record_decisions_state [OF assms(1)] decision_log.push_all [of "decisions g"] assms(2)
  by (simp add: GOAL_DECISIONS_MAX_def)

lemma decisions_keep_newest_witness:
  "\<exists>g. orchestration (record_decisions sample_env (replicate 40 (Verdict, [], None)) sample_goal) = Some g \<and>
     length (decisions g) = 32"
proof -
  obtain g where "orchestration sample_goal = Some g" "length (decisions g) = 0"
    using sample_goal_fields by blast
  then show ?thesis
    using decisions_keep_newest [of sample_goal g sample_env "replicate 40 (Verdict, [], None)"] by simp
qed

lemma scratch_facts_logs [simp]:
  "disk (record_event env ev d t) = disk t"
  "disk (record_decision env k de r t) = disk t"
  "disk (rescue_classifier_details env t) = disk t"
  by (auto simp: record_event_def append_history_def record_decision_def update_goal_def
      rescue_classifier_details_def Let_def split: option.splits)

text \<open>The part of the goal that names its scratch root and claims that it is there.\<close>

definition scratch_claim :: "goal_tracker \<Rightarrow> (rstr \<times> bool) option" where
  "scratch_claim t = map_option (\<lambda>g. (verifier_id (verification g), scratch_dir_ready g)) (orchestration t)"

lemma scratch_claim_update:
  "(\<And>g. verifier_id (verification (f g)) = verifier_id (verification g) \<and> scratch_dir_ready (f g) = scratch_dir_ready g)
   \<Longrightarrow> scratch_claim (update_goal f t) = scratch_claim t"
  by (simp add: scratch_claim_def update_goal_def option.map_comp comp_def)

lemma scratch_claim_frame [simp]:
  "scratch_claim (record_event env ev d t) = scratch_claim t"
  "scratch_claim (record_decision env k de r t) = scratch_claim t"
  "scratch_claim (rescue_classifier_details env t) = scratch_claim t"
  "scratch_claim (remove_scratch_root env t) = scratch_claim t"
  by (simp_all add: record_event_def append_history_def record_decision_def scratch_claim_update)
    (auto simp: rescue_classifier_details_def remove_scratch_root_def scratch_claim_def Let_def
      split: option.splits)

lemma scratch_claim_set:
  "scratch_claim (t\<lparr>orchestration := Some g, active_since := a\<rparr>) =
     Some (verifier_id (verification g), scratch_dir_ready g)"
  by (simp add: scratch_claim_def)

lemma remove_scratch_root_disk:
  "scratch_claim t = Some (vid, b) \<Longrightarrow> disk (remove_scratch_root env t) = disk t - {goal_scratch_root env vid}"
  by (auto simp: remove_scratch_root_def scratch_claim_def split: option.splits)

text \<open>After the budget limit and an automatic resume an active goal claims a scratch directory
  that is gone: the budget limit removes the root from disk and leaves the claim, and the resume
  does not create it again.\<close>

theorem auto_resume_stale_scratch:
  fixes env t g
  assumes "orchestration t = Some g" "status g = Active" "auto_resumes g < 3" "scratch_dir_ready g"
  defines "t' \<equiv> snd (auto_resume env (snd (budget_limit env t)))"
  shows "tracker_status t' = Some Active \<and>
     (\<exists>vid. scratch_claim t' = Some (vid, True) \<and> goal_scratch_root env vid \<notin> disk t')"
proof -
  let ?b = "snd (budget_limit env t)" and ?vid = "verifier_id (verification g)"
  have b: "tracker_status ?b = Some BudgetLimited" "auto_count ?b = auto_resumes g"
    using assms(1,2) by (simp_all add: budget_limit_def status_end_goal auto_count_end_goal
        tracker_status_def [of t] auto_count_def [of t])
  have claim: "scratch_claim ?b = Some (?vid, True)" and gone: "goal_scratch_root env ?vid \<notin> disk ?b"
    using assms(1,2,4)
    by (simp_all add: budget_limit_def end_goal_def Let_def scratch_claim_set reset_strategist_fields_def
        flush_elapsed_def remove_scratch_root_disk split: option.splits)
  from b obtain gb where gb: "orchestration ?b = Some gb" "status gb = BudgetLimited" "auto_resumes gb < 3"
    using assms(3) by (auto simp: tracker_status_def auto_count_def)
  have "tracker_status t' = Some Active"
    using auto_resume_status [OF gb(1), of env] gb(2,3) by (simp add: t'_def GOAL_AUTO_RESUME_CAP_def)
  moreover have "scratch_claim t' = scratch_claim ?b" "disk t' = disk ?b"
    using gb by (auto simp: t'_def auto_resume_def Let_def scratch_claim_set GOAL_AUTO_RESUME_CAP_def rearm_def
        reset_strategist_fields_def reset_classifier_stall_fields_def scratch_claim_def [of ?b])
  ultimately show ?thesis using claim gone by auto
qed

lemma auto_resume_stale_scratch_witness:
  "tracker_status (snd (auto_resume sample_env (snd (budget_limit sample_env sample_goal)))) = Some Active"
proof -
  obtain g where "orchestration sample_goal = Some g" "status g = Active" "auto_resumes g = 0"
      "scratch_dir_ready g" using sample_goal_fields by blast
  then show ?thesis using auto_resume_stale_scratch [of sample_goal g sample_env] by simp
qed

end
