(* ===== verification/Scheduler.thy ===== *)
theory Scheduler
  imports Prelude
begin

text \<open>
  The task scheduler (\<^verbatim>\<open>ds_build/scheduler/interval.rs\<close>, \<^verbatim>\<open>types.rs\<close>, \<^verbatim>\<open>actor.rs\<close>). Times are
  those of the \<^verbatim>\<open>chrono\<close> library: a linearly ordered type with two operations that add and
  subtract a number of seconds, which are arguments. The actor's loop is a run over the events its
  \<^verbatim>\<open>select!\<close> takes: commands, timer ticks and the cancellation.
\<close>

section \<open>Intervals\<close>

datatype scheduler_error = InvalidInterval rstr | TaskLimitReached nat

definition MINIMUM_INTERVAL_SECS :: nat where
  "MINIMUM_INTERVAL_SECS = 60"

text \<open>
  \<open>dbg\<close> is the debug form of a string. \<^verbatim>\<open>split_at\<close> panics inside a character, which is the value
  \<open>None\<close>.
\<close>

definition parse_interval :: "(rstr \<Rightarrow> rstr) \<Rightarrow> rstr \<Rightarrow> (scheduler_error + nat) option" where
  "parse_interval dbg str =
     (let s = trim str
      in if s = [] then Some (Inl (InvalidInterval (lit ''interval cannot be empty'')))
         else if 1 < len_utf8 (last s) then None
         else
           let digits = butlast s; suffix = [last s]
           in Some (case parse_unsigned 64 digits of
                None \<Rightarrow> Inl (InvalidInterval (lit ''invalid interval format: '' @ dbg s @
                          lit '' (expected e.g. 5m, 2h, 1d)''))
              | Some v \<Rightarrow>
                  if v = 0 then Inl (InvalidInterval (lit ''interval value must be greater than 0''))
                  else
                    (case (if suffix = lit ''s'' then Some 1 else if suffix = lit ''m'' then Some 60
                           else if suffix = lit ''h'' then Some 3600
                           else if suffix = lit ''d'' then Some 86400 else None) of
                       None \<Rightarrow> Inl (InvalidInterval (lit ''invalid interval suffix: '' @ dbg suffix @
                                 lit '' (expected s, m, h, or d)''))
                     | Some unit_secs \<Rightarrow>
                         (case checked_mul 64 v unit_secs of
                            None \<Rightarrow> Inl (InvalidInterval (lit ''interval too large: '' @ dbg s))
                          | Some secs \<Rightarrow> Inr (max secs MINIMUM_INTERVAL_SECS)))))"

definition every :: "nat \<Rightarrow> string \<Rightarrow> rstr" where
  "every n u =
     (if n = 1 then lit ''every 1 '' @ lit u
      else lit ''every '' @ show_nat n @ lit '' '' @ lit u @ lit ''s'')"

definition interval_to_human :: "nat \<Rightarrow> rstr" where
  "interval_to_human secs =
     (if 86400 dvd secs then every (secs div 86400) ''day''
      else if 3600 dvd secs then every (secs div 3600) ''hour''
      else if 60 dvd secs then every (secs div 60) ''minute''
      else if secs = 1 then lit ''every 1 second''
      else lit ''every '' @ show_nat secs @ lit '' seconds'')"

section \<open>Tasks\<close>

record 't calendar =
  add_secs :: "'t \<Rightarrow> nat \<Rightarrow> 't"
  sub_secs :: "'t \<Rightarrow> nat \<Rightarrow> 't"

record 't scheduled_task =
  task_id :: rstr
  interval_secs :: nat
  prompt :: rstr
  recurring :: bool
  durable :: bool
  created_at :: 't
  last_fired_at :: "'t option"
  expires_at :: "'t option"

definition with_fire_immediately :: "'t calendar \<Rightarrow> 't \<Rightarrow> rstr \<Rightarrow> nat \<Rightarrow> rstr \<Rightarrow> bool \<Rightarrow> bool \<Rightarrow> bool
    \<Rightarrow> 't scheduled_task" where
  "with_fire_immediately cal now fresh secs p rec dur fire_immediately =
     \<lparr>task_id = fresh, interval_secs = secs, prompt = p, recurring = rec, durable = dur,
      created_at = (if fire_immediately then sub_secs cal now secs else now),
      last_fired_at = None,
      expires_at = (if rec then Some (add_secs cal now (7 * 86400)) else None)\<rparr>"

definition task_new :: "'t calendar \<Rightarrow> 't \<Rightarrow> rstr \<Rightarrow> nat \<Rightarrow> rstr \<Rightarrow> bool \<Rightarrow> bool \<Rightarrow> 't scheduled_task" where
  "task_new cal now fresh secs p rec dur = with_fire_immediately cal now fresh secs p rec dur False"

definition next_fire_at :: "'t calendar \<Rightarrow> 't scheduled_task \<Rightarrow> 't" where
  "next_fire_at cal t =
     add_secs cal (case last_fired_at t of Some f \<Rightarrow> f | None \<Rightarrow> created_at t) (interval_secs t)"

definition is_expired :: "'t::linorder \<Rightarrow> 't scheduled_task \<Rightarrow> bool" where
  "is_expired now t \<longleftrightarrow> (case expires_at t of Some e \<Rightarrow> e \<le> now | None \<Rightarrow> False)"

definition is_missed :: "'t::linorder calendar \<Rightarrow> 't \<Rightarrow> 't scheduled_task \<Rightarrow> bool" where
  "is_missed cal now t \<longleftrightarrow> \<not> recurring t \<and> last_fired_at t = None \<and> next_fire_at cal t < now"

section \<open>The actor\<close>

definition MAX_SCHEDULED_TASKS :: nat where
  "MAX_SCHEDULED_TASKS = 50"

text \<open>Times in notifications are kept as times; the source writes them in RFC 3339.\<close>

datatype 't notification =
    TaskCreated rstr rstr rstr "'t option"
  | TaskFired rstr rstr rstr "'t option"
  | TaskRemoved rstr

datatype 't scheduler_command = Create "'t scheduled_task" | Delete rstr | ListTasks

datatype 't reply =
    Created "scheduler_error + 't scheduled_task" | Deleted bool | Listed "'t scheduled_task list"

type_synonym 't tasks = "'t scheduled_task list"

definition task_created_payload :: "'t calendar \<Rightarrow> 't scheduled_task \<Rightarrow> 't notification" where
  "task_created_payload cal t =
     TaskCreated (task_id t) (prompt t) (interval_to_human (interval_secs t)) (Some (next_fire_at cal t))"

text \<open>
  How long the actor sleeps: \<open>None\<close> for ever, else until the earliest fire time, which is in the
  past when the sleep is empty.
\<close>

definition compute_next_fire :: "'t::linorder calendar \<Rightarrow> 't tasks \<Rightarrow> 't option" where
  "compute_next_fire cal ts =
     (if ts = [] then None else Some (Min (next_fire_at cal ` set ts)))"

definition remove_nth :: "nat \<Rightarrow> 'a list \<Rightarrow> 'a list" where
  "remove_nth i xs = take i xs @ drop (Suc i) xs"

definition fire_next_task :: "'t::linorder calendar \<Rightarrow> 't \<Rightarrow> 't tasks \<Rightarrow> 't tasks \<times> 't notification list" where
  "fire_next_task cal now ts =
     (case position (\<lambda>t. next_fire_at cal t \<le> now) ts of
        None \<Rightarrow> (ts, [])
      | Some idx \<Rightarrow>
          (let task = (ts ! idx)\<lparr>last_fired_at := Some now\<rparr>;
               should_remove = (if \<not> recurring task then True else is_expired now task);
               ts' = (if should_remove then remove_nth idx ts else ts[idx := task])
           in (ts', TaskFired (task_id task) (prompt task) (interval_to_human (interval_secs task))
                      (Some (next_fire_at cal task))
                    # (if should_remove then [TaskRemoved (task_id task)] else []))))"

definition handle_missed_tasks :: "'t::linorder calendar \<Rightarrow> 't \<Rightarrow> 't tasks \<Rightarrow> 't tasks \<times> 't notification list" where
  "handle_missed_tasks cal now ts =
     (let missed = filter (is_missed cal now) ts
      in if missed = [] then (ts, [])
         else
           let fired_ids = map task_id missed
           in (filter (\<lambda>t. task_id t \<notin> set fired_ids) ts,
               map (\<lambda>t. TaskFired (task_id t) (prompt t) (interval_to_human (interval_secs t)) None) missed
               @ map TaskRemoved fired_ids))"

definition announce_existing_tasks :: "'t calendar \<Rightarrow> 't tasks \<Rightarrow> 't notification list" where
  "announce_existing_tasks cal ts = map (task_created_payload cal) ts"

fun handle_command :: "'t calendar \<Rightarrow> 't scheduler_command \<Rightarrow> 't tasks
    \<Rightarrow> 't tasks \<times> 't notification list \<times> 't reply" where
  "handle_command cal (Create task) ts =
     (if MAX_SCHEDULED_TASKS \<le> length ts
      then (ts, [], Created (Inl (TaskLimitReached MAX_SCHEDULED_TASKS)))
      else (ts @ [task], [task_created_payload cal task], Created (Inr task)))"
| "handle_command cal (Delete i) ts =
     (let ts' = filter (\<lambda>t. task_id t \<noteq> i) ts;
          removed = (length ts \<noteq> length ts')
      in (ts', if removed then [TaskRemoved i] else [], Deleted removed))"
| "handle_command cal ListTasks ts = (ts, [], Listed ts)"

text \<open>One turn of the loop, and the whole run up to the cancellation.\<close>

datatype 't sched_event = Command "'t scheduler_command" | Tick 't

fun scheduler_step :: "'t::linorder calendar \<Rightarrow> 't tasks \<times> 't notification list \<Rightarrow> 't sched_event
    \<Rightarrow> 't tasks \<times> 't notification list" where
  "scheduler_step cal (ts, sent) (Command c) =
     (let (ts', ns, r) = handle_command cal c ts in (ts', sent @ ns))"
| "scheduler_step cal (ts, sent) (Tick now) =
     (let (ts', ns) = fire_next_task cal now ts in (ts', sent @ ns))"

definition scheduler_start :: "'t::linorder calendar \<Rightarrow> 't \<Rightarrow> 't tasks \<Rightarrow> 't tasks \<times> 't notification list" where
  "scheduler_start cal now ts =
     (let (ts', ns) = handle_missed_tasks cal now ts
      in (ts', ns @ announce_existing_tasks cal ts'))"

definition scheduler_shutdown :: "'t tasks \<times> 't notification list \<Rightarrow> 't tasks \<times> 't notification list" where
  "scheduler_shutdown st = ([], snd st @ map (\<lambda>t. TaskRemoved (task_id t)) (fst st))"

definition scheduler_run :: "'t::linorder calendar \<Rightarrow> 't \<Rightarrow> 't tasks \<Rightarrow> 't sched_event list
    \<Rightarrow> 't tasks \<times> 't notification list" where
  "scheduler_run cal now ts evs =
     scheduler_shutdown (foldl (scheduler_step cal) (scheduler_start cal now ts) evs)"

end
