(* ===== verification/SchedulerProps.thy ===== *)
theory SchedulerProps
  imports Scheduler
begin

text \<open>
  What the scheduler promises: which interval texts it accepts, that all due tasks fire in order,
  that a one-shot task fires at most once, that the number of tasks is bounded, and that the
  notifications it sends keep the client's view in step with its tasks.
\<close>

section \<open>Intervals\<close>

lemma trim_digits_unit:
  assumes "list_all is_digit ds" "ds \<noteq> []" "\<not> is_whitespace u"
  shows "trim (ds @ [u]) = ds @ [u]"
proof -
  obtain d ds' where "ds = d # ds'" using assms(2) by (cases ds) auto
  moreover have "\<not> is_whitespace d" using assms(1) calculation by (auto simp: is_digit_def is_whitespace_def)
  ultimately show ?thesis using assms(3) by (simp add: trim_def trim_start_def trim_end_def)
qed

text \<open>An interval written as a number and a unit is read as that many seconds, raised to the
  minimum of one minute; it is refused when the number is zero or the product does not fit 64
  bits. An interval that is accepted is always at least one minute and fits 64 bits. A text that
  ends in a character of more than one byte makes the parser panic.\<close>

theorem parse_interval_spec:
  "(n < 2 ^ 64 \<and> (u, secs) \<in> {(115, 1), (109, 60), (104, 3600), (100, 86400)} \<longrightarrow>
      (parse_interval dbg (show_nat n @ [u]) = Some (Inr r) \<longleftrightarrow>
         0 < n \<and> n * secs < 2 ^ 64 \<and> r = max (n * secs) 60)) \<and>
   (parse_interval dbg str = Some (Inr r) \<longrightarrow> 60 \<le> r \<and> r < 2 ^ 64) \<and>
   (parse_interval dbg str = None \<longleftrightarrow> trim str \<noteq> [] \<and> 128 \<le> last (trim str))"
proof (intro conjI impI)
  assume "n < 2 ^ 64 \<and> (u, secs) \<in> {(115, 1), (109, 60), (104, 3600), (100, 86400)}"
  then have n: "n < 2 ^ 64" and u: "(u, secs) \<in> {(115, 1), (109, 60), (104, 3600), (100, 86400)}" by simp_all
  have "list_all is_digit (show_nat n)"
    using show_nat_digits [of n] by (simp add: list_all_iff is_digit_def)
  then have t: "trim (show_nat n @ [u]) = show_nat n @ [u]"
    using u by (intro trim_digits_unit) (auto simp: is_whitespace_def)
  show "parse_interval dbg (show_nat n @ [u]) = Some (Inr r) \<longleftrightarrow>
         0 < n \<and> n * secs < 2 ^ 64 \<and> r = max (n * secs) 60"
    using u parse_show_nat [OF n]
    by (auto simp: parse_interval_def t Let_def len_utf8_def checked_mul_def MINIMUM_INTERVAL_SECS_def
        str_simps split: if_splits)
next
  assume "parse_interval dbg str = Some (Inr r)"
  then show "60 \<le> r" "r < 2 ^ 64"
    by (auto simp: parse_interval_def Let_def MINIMUM_INTERVAL_SECS_def checked_mul_def
        split: if_splits option.splits)
next
  show "parse_interval dbg str = None \<longleftrightarrow> trim str \<noteq> [] \<and> 128 \<le> last (trim str)"
    by (auto simp: parse_interval_def Let_def len_utf8_def)
qed

lemma parse_interval_spec_witness:
  "parse_interval (\<lambda>s. s) (show_nat 5 @ [109]) = Some (Inr 300) \<and>
   parse_interval (\<lambda>s. s) [53, 181] = None"
  using parse_interval_spec [of 5 109 60 "\<lambda>s. s" 300 "[53, 181]"]
  by (simp add: trim_def trim_start_def trim_end_def is_whitespace_def)

section \<open>Firing\<close>

text \<open>What the scheduler relies on from the calendar: adding a positive time moves forward.\<close>

locale calendar_laws =
  fixes cal :: "'t::linorder calendar"
  assumes add_later: "0 < n \<Longrightarrow> t < add_secs cal t n"
begin

lemma fired_not_due: "0 < interval_secs t \<Longrightarrow> \<not> next_fire_at cal (t\<lparr>last_fired_at := Some now\<rparr>) \<le> now"
  using add_later [of "interval_secs t" now] by (simp add: next_fire_at_def not_le)

end

definition due :: "'t::linorder calendar \<Rightarrow> 't \<Rightarrow> 't scheduled_task \<Rightarrow> bool" where
  "due cal now t \<longleftrightarrow> next_fire_at cal t \<le> now"

definition survives :: "'t::linorder \<Rightarrow> 't scheduled_task \<Rightarrow> bool" where
  "survives now t \<longleftrightarrow> recurring t \<and> \<not> is_expired now t"

definition mark_fired :: "'t \<Rightarrow> 't scheduled_task \<Rightarrow> 't scheduled_task" where
  "mark_fired now t = t\<lparr>last_fired_at := Some now\<rparr>"

lemma fire_next_idle: "(\<forall>t \<in> set ts. \<not> due cal now t) \<Longrightarrow> fire_next_task cal now ts = (ts, [])"
  using position_None [of "\<lambda>t. next_fire_at cal t \<le> now" ts]
  by (simp add: fire_next_task_def due_def)

lemma fire_next_first:
  assumes "\<forall>x \<in> set pre. \<not> due cal now x" "due cal now t"
  shows "fire_next_task cal now (pre @ t # post) =
    (pre @ (if survives now t then [mark_fired now t] else []) @ post,
     TaskFired (task_id t) (prompt t) (interval_to_human (interval_secs t))
       (Some (next_fire_at cal (mark_fired now t)))
     # (if survives now t then [] else [TaskRemoved (task_id t)]))"
proof -
  have "position (\<lambda>t. next_fire_at cal t \<le> now) (pre @ t # post) = Some (length pre)"
    using assms by (intro position_append) (simp_all add: due_def)
  then show ?thesis
    by (simp add: fire_next_task_def Let_def survives_def mark_fired_def remove_nth_def is_expired_def
        nth_append list_update_append)
qed

text \<open>The ids of the fired tasks, and the ids a client shows, from the notifications.\<close>

fun fired_id :: "'t notification \<Rightarrow> rstr list" where
  "fired_id (TaskFired i p h n) = [i]"
| "fired_id _ = []"

definition fired_ids :: "'t notification list \<Rightarrow> rstr list" where
  "fired_ids ns = concat (map fired_id ns)"

lemma fired_ids_simps [simp]:
  "fired_ids [] = []" "fired_ids (n # ns) = fired_id n @ fired_ids ns"
  "fired_ids (ms @ ns) = fired_ids ms @ fired_ids ns"
  by (simp_all add: fired_ids_def)

fun ticks :: "'t::linorder calendar \<Rightarrow> 't \<Rightarrow> nat \<Rightarrow> 't tasks \<times> 't notification list
    \<Rightarrow> 't tasks \<times> 't notification list" where
  "ticks cal now 0 st = st"
| "ticks cal now (Suc k) st = ticks cal now k (scheduler_step cal st (Tick now))"

context calendar_laws
begin

lemma mark_fired_not_due: "0 < interval_secs t \<Longrightarrow> \<not> due cal now (mark_fired now t)"
  using fired_not_due by (simp add: due_def mark_fired_def)

lemma ticks_drain:
  assumes "\<forall>t \<in> set ts. 0 < interval_secs t" "length (filter (due cal now) ts) = k"
  shows "\<exists>ts' ns. ticks cal now k (ts, sent) = (ts', sent @ ns) \<and> (\<forall>t \<in> set ts'. \<not> due cal now t) \<and>
           fired_ids ns = map task_id (filter (due cal now) ts)"
  using assms
proof (induction k arbitrary: ts sent)
  case 0
  then show ?case by (simp add: filter_empty_conv)
next
  case (Suc k)
  have "filter (due cal now) ts \<noteq> []" using Suc.prems by auto
  then have "\<exists>x \<in> set ts. due cal now x" by (simp add: filter_empty_conv)
  from split_list_first_prop [OF this] obtain pre t post where
    ts: "ts = pre @ t # post" "\<forall>x \<in> set pre. \<not> due cal now x" "due cal now t" by auto
  let ?ts = "pre @ (if survives now t then [mark_fired now t] else []) @ post"
  let ?ns = "snd (fire_next_task cal now ts)"
  have pos: "0 < interval_secs t" using Suc.prems ts(1) by simp
  have due: "filter (due cal now) ts = t # filter (due cal now) post"
    "filter (due cal now) ?ts = filter (due cal now) post"
    using ts mark_fired_not_due [OF pos, of now] by (auto simp: filter_empty_conv)
  have "\<forall>x \<in> set ?ts. 0 < interval_secs x" "length (filter (due cal now) ?ts) = k"
    using Suc.prems ts(1) due by (auto simp: mark_fired_def)
  from Suc.IH [OF this, of "sent @ ?ns"] obtain ts' ns where
    "ticks cal now k (?ts, sent @ ?ns) = (ts', (sent @ ?ns) @ ns)" "\<forall>t \<in> set ts'. \<not> due cal now t"
    "fired_ids ns = map task_id (filter (due cal now) ?ts)" by blast
  moreover have "fired_ids ?ns = [task_id t]"
    by (simp add: ts(1) fire_next_first [OF ts(2,3)])
  ultimately show ?case
    using due by (intro exI [of _ ts'] exI [of _ "?ns @ ns"])
      (simp add: ts(1) fire_next_first [OF ts(2,3)])
qed

end

text \<open>Times in nanoseconds since the epoch.\<close>

definition utc_calendar :: "int calendar" where
  "utc_calendar = \<lparr>add_secs = (\<lambda>t n. t + int n * 1000000000), sub_secs = (\<lambda>t n. t - int n * 1000000000)\<rparr>"

interpretation utc: calendar_laws utc_calendar
  by unfold_locales (simp add: utc_calendar_def)


definition sample_task :: "nat \<Rightarrow> bool \<Rightarrow> int scheduled_task" where
  "sample_task i rec = task_new utc_calendar 0 [i] 60 [] rec False"


section \<open>The number of tasks\<close>

text \<open>A tick that finds a due task replaces or removes one list element.\<close>

lemma fire_next_cases:
  obtains "\<forall>t \<in> set ts. \<not> due cal now t" "fire_next_task cal now ts = (ts, [])"
  | pre t post where "ts = pre @ t # post" "due cal now t"
    "fire_next_task cal now ts =
      (pre @ (if survives now t then [mark_fired now t] else []) @ post,
       TaskFired (task_id t) (prompt t) (interval_to_human (interval_secs t))
         (Some (next_fire_at cal (mark_fired now t)))
       # (if survives now t then [] else [TaskRemoved (task_id t)]))"
proof (cases "\<exists>t \<in> set ts. due cal now t")
  case True
  from split_list_first_prop [OF this] obtain pre t post where
    "ts = pre @ t # post" "\<forall>x \<in> set pre. \<not> due cal now x" "due cal now t" by auto
  with that(2) fire_next_first show ?thesis by blast
next
  case False
  with that(1) fire_next_idle show ?thesis by blast
qed

definition within_limit :: "'t tasks \<times> 't notification list \<Rightarrow> bool" where
  "within_limit st \<longleftrightarrow> length (fst st) \<le> MAX_SCHEDULED_TASKS"

lemma scheduler_step_limit:
  assumes "within_limit st"
  shows "within_limit (scheduler_step cal st e)"
proof (cases "(cal, st, e)" rule: scheduler_step.cases)
  case (1 cal' ts sent c)
  then show ?thesis
    using assms by (cases c) (auto simp: within_limit_def Let_def intro: order_trans [OF length_filter_le])
next
  case (2 cal' ts sent now)
  then show ?thesis
    using assms by (cases rule: fire_next_cases [of ts cal now]) (auto simp: within_limit_def)
qed

interpretation sched_limit: invariant_machine "scheduler_step cal" within_limit for cal
  by unfold_locales (rule scheduler_step_limit)

lemma scheduler_start_limit: "length ts \<le> MAX_SCHEDULED_TASKS \<Longrightarrow> within_limit (scheduler_start cal now ts)"
  by (auto simp: scheduler_start_def handle_missed_tasks_def Let_def within_limit_def
      intro: order_trans [OF length_filter_le])

text \<open>The actor never holds more than fifty tasks: whatever commands and ticks it processes, the
  list stays within the limit, and a create command at the limit is refused with an error that
  leaves the tasks as they were and notifies nobody.\<close>

theorem task_limit_kept:
  assumes "length ts \<le> MAX_SCHEDULED_TASKS"
    and "(ts', sent) = foldl (scheduler_step cal) (scheduler_start cal now ts) evs"
  shows "length ts' \<le> 50 \<and>
    (length ts' = 50 \<longrightarrow>
       handle_command cal (Create t) ts' = (ts', [], Created (Inl (TaskLimitReached 50)))) \<and>
    (length ts' < 50 \<longrightarrow>
       handle_command cal (Create t) ts' = (ts' @ [t], [task_created_payload cal t], Created (Inr t)))"
proof -
  have "within_limit (ts', sent)"
    unfolding assms(2) by (intro sched_limit.run_inv scheduler_start_limit assms(1))
  then show ?thesis by (simp add: within_limit_def MAX_SCHEDULED_TASKS_def)
qed

section \<open>What the client sees\<close>

text \<open>The client keeps the ids it was told of, and drops those it was told are gone.\<close>

fun view_step :: "rstr set \<Rightarrow> 't notification \<Rightarrow> rstr set" where
  "view_step V (TaskCreated i p h n) = insert i V"
| "view_step V (TaskFired i p h n) = V"
| "view_step V (TaskRemoved i) = V - {i}"

definition client_view :: "'t notification list \<Rightarrow> rstr set" where
  "client_view ns = foldl view_step {} ns"

fun created_tasks :: "'t sched_event list \<Rightarrow> 't tasks" where
  "created_tasks [] = []"
| "created_tasks (Command (Create t) # evs) = t # created_tasks evs"
| "created_tasks (e # evs) = created_tasks evs"

abbreviation created_ids :: "'t sched_event list \<Rightarrow> rstr list" where
  "created_ids evs \<equiv> map task_id (created_tasks evs)"

abbreviation ids :: "'t tasks \<Rightarrow> rstr set" where
  "ids ts \<equiv> task_id ` set ts"

lemma view_created: "foldl view_step V (map (task_created_payload cal) ts) = V \<union> ids ts"
  by (induction ts arbitrary: V) (auto simp: task_created_payload_def)

lemma view_removed: "foldl view_step V (map (\<lambda>t. TaskRemoved (f t)) ts) = V - f ` set ts"
  by (induction ts arbitrary: V) auto

lemma view_fired: "foldl view_step V (map (\<lambda>t. TaskFired (f t) (g t) (h t) (k t)) ts) = V"
  by (induction ts arbitrary: V) auto

lemma mark_fired_id [simp]: "task_id (mark_fired now t) = task_id t"
  by (simp add: mark_fired_def)

lemma mark_fired_recurring [simp]: "recurring (mark_fired now t) = recurring t"
  by (simp add: mark_fired_def)

text \<open>The view and the number of firings of a one-shot task, with the events still to come.\<close>

definition in_step :: "'t tasks \<times> 't notification list \<Rightarrow> 't sched_event list \<Rightarrow> bool" where
  "in_step st evs \<longleftrightarrow>
     distinct (map task_id (fst st) @ created_ids evs) \<and> client_view (snd st) = ids (fst st)"

lemma start_in_step:
  assumes "distinct (map task_id ts @ created_ids evs)"
  shows "in_step (scheduler_start cal now ts) evs"
proof -
  have "distinct (map task_id (filter P ts) @ created_ids evs)" for P
    using assms by (auto simp: distinct_map_filter)
  then show ?thesis
    using assms
    by (auto simp: in_step_def scheduler_start_def handle_missed_tasks_def Let_def client_view_def
        announce_existing_tasks_def view_created view_removed view_fired comp_def)
qed

lemma step_in_step:
  assumes "in_step st (e # evs)"
  shows "in_step (scheduler_step cal st e) evs"
proof (cases "(cal, st, e)" rule: scheduler_step.cases)
  case (1 cal' ts sent c)
  show ?thesis
  proof (cases c)
    case (Create t)
    with 1 assms show ?thesis
      by (auto simp: in_step_def client_view_def task_created_payload_def)
  next
    case (Delete i)
    have len: "length ts = length (filter (\<lambda>t. task_id t \<noteq> i) ts) \<longleftrightarrow> (\<forall>t \<in> set ts. task_id t \<noteq> i)"
      by (metis (mono_tags, lifting) filter_True length_filter_less linorder_less_linear order_less_irrefl)
    show ?thesis
      using Delete 1 assms len by (auto simp: in_step_def client_view_def Let_def distinct_map_filter)
  next
    case ListTasks
    with 1 assms show ?thesis by (simp add: in_step_def)
  qed
next
  case (2 cal' ts sent now)
  then show ?thesis
    using assms by (cases rule: fire_next_cases [of ts cal now])
      (auto simp: in_step_def client_view_def image_iff)
qed

lemma run_in_step:
  "in_step st (evs @ evs') \<Longrightarrow> in_step (foldl (scheduler_step cal) st evs) evs'"
  by (induction evs arbitrary: st) (simp_all add: step_in_step)

text \<open>C22: the notifications keep the client in step with the actor. When task ids are unique, the
  ids the client shows after any sequence of commands and ticks are exactly those of the actor's
  tasks, and when the actor has stopped the client shows none.\<close>

theorem client_view_in_sync:
  assumes "distinct (map task_id ts @ created_ids evs)"
    and "(ts', sent) = foldl (scheduler_step cal) (scheduler_start cal now ts) evs"
  shows "client_view sent = task_id ` set ts' \<and> distinct (map task_id ts') \<and>
         client_view (snd (scheduler_run cal now ts evs)) = {}"
proof -
  have "in_step (ts', sent) []"
    unfolding assms(2) using assms(1) by (intro run_in_step) (simp add: start_in_step)
  then show ?thesis
    by (simp add: in_step_def scheduler_run_def assms(2) [symmetric] scheduler_shutdown_def client_view_def
        view_removed)
qed

section \<open>One-shot tasks\<close>

definition one_shot :: "rstr \<Rightarrow> 't tasks \<Rightarrow> bool" where
  "one_shot i ts \<longleftrightarrow> (\<forall>t \<in> set ts. task_id t = i \<longrightarrow> \<not> recurring t)"

definition fires_left :: "rstr \<Rightarrow> 't tasks \<times> 't notification list \<Rightarrow> 't sched_event list \<Rightarrow> nat" where
  "fires_left i st evs =
     count_list (fired_ids (snd st)) i + count_list (map task_id (fst st @ created_tasks evs)) i"

lemma count_list_filter_le: "count_list (map f (filter P xs)) i \<le> count_list (map f xs) i"
  by (induction xs) auto

lemma step_fires_left:
  assumes "one_shot i (fst st @ created_tasks (e # evs))"
  shows "fires_left i (scheduler_step cal st e) evs \<le> fires_left i st (e # evs) \<and>
         one_shot i (fst (scheduler_step cal st e) @ created_tasks evs)"
proof (cases "(cal, st, e)" rule: scheduler_step.cases)
  case (1 cal' ts sent c)
  then show ?thesis
    using assms by (cases c)
      (auto simp: fires_left_def one_shot_def Let_def task_created_payload_def count_list_filter_le)
next
  case (2 cal' ts sent now)
  then show ?thesis
    using assms by (cases rule: fire_next_cases [of ts cal now])
      (auto simp: fires_left_def one_shot_def survives_def)
qed

lemma run_fires_left:
  "one_shot i (fst st @ created_tasks evs) \<Longrightarrow>
   fires_left i (foldl (scheduler_step cal) st evs) [] \<le> fires_left i st evs"
proof (induction evs arbitrary: st)
  case (Cons e evs)
  from step_fires_left [OF Cons.prems, of cal] Cons.IH [of "scheduler_step cal st e"]
  show ?case by (auto intro: order_trans)
qed simp

lemma count_list_0: "i \<notin> set xs \<Longrightarrow> count_list xs i = 0"
  by (induction xs) auto

lemma start_fires_left: "fires_left i (scheduler_start cal now ts) evs \<le> count_list (map task_id ts @ created_ids evs) i"
proof -
  let ?m = "filter (is_missed cal now) ts"
  have none: "fired_ids (map (task_created_payload cal) us) = []" "fired_ids (map (TaskRemoved \<circ> task_id) us) = []"
      "fired_ids (map (\<lambda>t. TaskFired (task_id t) (f t) (g t) None) us) = map task_id us" for us f g
    by (simp_all add: fired_ids_def task_created_payload_def comp_def concat_eq_Nil_conv)
  let ?r = "filter (\<lambda>t. task_id t \<notin> set (map task_id ?m)) ts"
  have "count_list (map task_id ?m) i + count_list (map task_id ?r) i \<le> count_list (map task_id ts) i"
  proof (cases "i \<in> set (map task_id ?m)")
    case True
    then have "i \<notin> set (map task_id ?r)" by (auto simp: image_iff)
    then have "count_list (map task_id ?r) i = 0" by (rule count_list_0)
    then show ?thesis using count_list_filter_le [of task_id "is_missed cal now" ts i] by linarith
  next
    case False
    then have "count_list (map task_id ?m) i = 0" by (rule count_list_0)
    then show ?thesis
      using count_list_filter_le [of task_id "\<lambda>t. task_id t \<notin> set (map task_id ?m)" ts i] by linarith
  qed
  then show ?thesis
    by (simp add: fires_left_def scheduler_start_def handle_missed_tasks_def Let_def none
        announce_existing_tasks_def)
qed

lemma fired_removed: "fired_ids (map (\<lambda>t. TaskRemoved (f t)) ts) = []"
  by (induction ts) auto

lemma distinct_count_list_le: "distinct xs \<Longrightarrow> count_list xs i \<le> 1"
  by (induction xs) (auto simp: count_list_0)

text \<open>A one-shot task fires at most once in the life of the actor, however commands and ticks
  interleave and whether or not it was missed while the actor was down, provided task ids are
  unique.\<close>

theorem one_shot_fires_once:
  assumes "distinct (map task_id (ts @ created_tasks evs))"
    and "t \<in> set (ts @ created_tasks evs)" "\<not> recurring t"
  shows "count_list (fired_ids (snd (scheduler_run cal now ts evs))) (task_id t) \<le> 1"
proof -
  let ?st = "scheduler_start cal now ts"
  have "\<not> recurring x" if "x \<in> set (ts @ created_tasks evs)" "task_id x = task_id t" for x
  proof -
    have "inj_on task_id (set (ts @ created_tasks evs))" using assms(1) unfolding distinct_map by blast
    from inj_onD [OF this that(2,1) assms(2)] assms(3) show ?thesis by simp
  qed
  moreover have "set (fst ?st) \<subseteq> set ts"
    by (auto simp: scheduler_start_def handle_missed_tasks_def Let_def)
  ultimately have "one_shot (task_id t) (fst ?st @ created_tasks evs)"
    unfolding one_shot_def by auto
  from run_fires_left [OF this, of cal] start_fires_left [of "task_id t" cal now ts evs]
  have "fires_left (task_id t) (foldl (scheduler_step cal) ?st evs) []
      \<le> count_list (map task_id (ts @ created_tasks evs)) (task_id t)" by simp
  also have "\<dots> \<le> 1" using assms(1) by (rule distinct_count_list_le)
  finally show ?thesis
    by (simp add: fires_left_def scheduler_run_def scheduler_shutdown_def fired_removed)
qed

section \<open>A sample run\<close>

text \<open>One recurring and one one-shot task, a third created, the second deleted.\<close>

definition sample_events :: "int sched_event list" where
  "sample_events = [Command (Create (sample_task 3 False)), Tick 60000000000, Command (Delete [2]),
     Tick 60000000000]"

lemma sample_ids: "map task_id [sample_task 1 True, sample_task 2 False] = [[1], [2]]"
    "created_tasks sample_events = [sample_task 3 False]" "task_id (sample_task i r) = [i]"
    "recurring (sample_task i r) = r"
  by (simp_all add: sample_task_def sample_events_def task_new_def with_fire_immediately_def)

lemma task_limit_kept_witness:
  "\<exists>ts' sent. (ts', sent) = foldl (scheduler_step utc_calendar)
       (scheduler_start utc_calendar 0 [sample_task 1 True]) sample_events \<and> length ts' \<le> 50"
proof -
  let ?st = "foldl (scheduler_step utc_calendar) (scheduler_start utc_calendar 0 [sample_task 1 True]) sample_events"
  have "(fst ?st, snd ?st) = ?st" by simp
  with task_limit_kept [of "[sample_task 1 True]" "fst ?st" "snd ?st"] show ?thesis
    by (auto simp: MAX_SCHEDULED_TASKS_def intro!: exI [of _ "fst ?st"] exI [of _ "snd ?st"])
qed

lemma client_view_in_sync_witness:
  "client_view (snd (scheduler_run utc_calendar 0 [sample_task 1 True, sample_task 2 False] sample_events)) = {}"
proof -
  let ?ts = "[sample_task 1 True, sample_task 2 False]"
  let ?st = "foldl (scheduler_step utc_calendar) (scheduler_start utc_calendar 0 ?ts) sample_events"
  have "distinct (map task_id ?ts @ created_ids sample_events)" by (simp add: sample_ids)
  from client_view_in_sync [OF this, of "fst ?st" "snd ?st"] show ?thesis by simp
qed

lemma one_shot_fires_once_witness:
  "count_list (fired_ids (snd (scheduler_run utc_calendar 0 [sample_task 1 True, sample_task 2 False]
     sample_events))) [3] \<le> 1"
  using one_shot_fires_once [of "[sample_task 1 True, sample_task 2 False]" sample_events "sample_task 3 False"]
  by (simp add: sample_ids)

end
