(* ===== verification/ByteText.thy ===== *)
theory ByteText
  imports Prelude
begin

text \<open>
  Strings by byte offsets, as the sources slice and search them: slices (a panic, the value \<open>None\<close>,
  when an offset is out of range or inside a character), the offsets of the matches of a pattern,
  lines with their newlines, and replacing at offsets. A text is taken apart into pieces, each a gap and
  a match, and a rest; the facts about offsets are facts about pieces.
\<close>

section \<open>Partial operations\<close>

definition nth_opt :: "'a list \<Rightarrow> nat \<Rightarrow> 'a option" where
  "nth_opt xs i = (if i < length xs then Some (xs ! i) else None)"

definition slice_opt :: "'a list \<Rightarrow> nat \<Rightarrow> nat \<Rightarrow> 'a list option" where
  "slice_opt xs a b = (if a \<le> b \<and> b \<le> length xs then Some (take (b - a) (drop a xs)) else None)"

definition checked_sub :: "nat \<Rightarrow> nat \<Rightarrow> nat option" where
  "checked_sub a b = (if b \<le> a then Some (a - b) else None)"

section \<open>Slices of strings\<close>

text \<open>\<^verbatim>\<open>&s[..i]\<close>: the characters of the first \<open>i\<close> bytes; a slice inside a character panics.\<close>

fun str_slice_to :: "rstr \<Rightarrow> nat \<Rightarrow> rstr option" where
  "str_slice_to s 0 = Some []"
| "str_slice_to [] (Suc i) = None"
| "str_slice_to (r # s) (Suc i) =
     (if len_utf8 r \<le> Suc i then map_option ((#) r) (str_slice_to s (Suc i - len_utf8 r)) else None)"

text \<open>\<^verbatim>\<open>&s[i..]\<close> and \<^verbatim>\<open>&s[i..j]\<close>.\<close>

definition str_slice_from :: "rstr \<Rightarrow> nat \<Rightarrow> rstr option" where
  "str_slice_from s i = map_option (\<lambda>p. drop (length p) s) (str_slice_to s i)"

definition str_slice :: "rstr \<Rightarrow> nat \<Rightarrow> nat \<Rightarrow> rstr option" where
  "str_slice s i j = (if i \<le> j then Option.bind (str_slice_to s j) (\<lambda>p. str_slice_from p i) else None)"

definition is_char_boundary :: "rstr \<Rightarrow> nat \<Rightarrow> bool" where
  "is_char_boundary s i \<longleftrightarrow> str_slice_to s i \<noteq> None"

fun floor_loop :: "rstr \<Rightarrow> nat \<Rightarrow> nat" where
  "floor_loop s 0 = 0"
| "floor_loop s (Suc i) = (if is_char_boundary s (Suc i) then Suc i else floor_loop s i)"

lemma str_slice_to_prefix: "str_slice_to (p @ u) (str_len p) = Some p"
proof (induction p)
  case (Cons r p)
  obtain i where i: "len_utf8 r + str_len p = Suc i"
    using len_utf8_bounds(1) [of r] by (cases "len_utf8 r + str_len p") auto
  then have "Suc i - len_utf8 r = str_len p" "len_utf8 r \<le> Suc i" by linarith+
  with Cons show ?case by (simp add: i)
qed simp

lemma str_slice_to_Some: "str_slice_to s i = Some p \<Longrightarrow> \<exists>u. s = p @ u \<and> str_len p = i"
  by (induction s i arbitrary: p rule: str_slice_to.induct) (auto split: if_splits)

lemma str_slice_from_suffix: "str_slice_from (p @ u) (str_len p) = Some u"
  by (simp add: str_slice_from_def str_slice_to_prefix)

lemma str_slice_middle: "str_slice (p @ m @ u) (str_len p) (str_len p + str_len m) = Some m"
  using str_slice_to_prefix [of "p @ m" u] by (simp add: str_slice_def str_slice_from_suffix)

lemma str_slice_Some:
  assumes "str_slice s i j = Some m"
  shows "\<exists>p u. s = p @ m @ u \<and> str_len p = i \<and> str_len p + str_len m = j"
proof -
  from assms obtain q where q: "str_slice_to s j = Some q" "str_slice_from q i = Some m"
    by (auto simp: str_slice_def split: if_splits bind_splits)
  then obtain p where p: "str_slice_to q i = Some p" "m = drop (length p) q" by (auto simp: str_slice_from_def)
  obtain u v where "s = q @ u" "str_len q = j" "q = p @ v" "str_len p = i"
    using str_slice_to_Some [OF q(1)] str_slice_to_Some [OF p(1)] by blast
  then show ?thesis using p(2) by auto
qed

lemma floor_loop_boundary: "is_char_boundary s (floor_loop s i)"
  by (induction i) (auto simp: is_char_boundary_def)

lemma floor_loop_le: "floor_loop s i \<le> i"
  by (induction i) auto

lemma floor_loop_max: "is_char_boundary s j \<Longrightarrow> j \<le> i \<Longrightarrow> j \<le> floor_loop s i"
  by (induction i) (auto simp: le_Suc_eq)

lemma str_len_prefix_eq: "p @ u = q @ v \<Longrightarrow> str_len p = str_len q \<Longrightarrow> p = q"
  by (metis option.inject str_slice_to_prefix)

lemma str_len_0 [simp]: "str_len s = 0 \<longleftrightarrow> s = []"
  using length_le_str_len [of s] by auto

lemma str_len_pos [simp]: "0 < str_len s \<longleftrightarrow> s \<noteq> []"
  using str_len_0 [of s] by linarith

section \<open>Matches of a pattern\<close>

text \<open>The offsets of \<^verbatim>\<open>str::match_indices\<close>, for a pattern that is not empty.\<close>

function match_offsets :: "nat \<Rightarrow> rstr \<Rightarrow> rstr \<Rightarrow> nat list" where
  "match_offsets off pat [] = []"
| "match_offsets off pat (c # s) =
     (if pat \<noteq> [] \<and> prefix pat (c # s)
      then off # match_offsets (off + str_len pat) pat (drop (length pat) (c # s))
      else match_offsets (off + len_utf8 c) pat s)"
  by pat_completeness auto

termination match_offsets
  by (relation "measure (\<lambda>(off, pat, s). length s)") (auto simp: neq_Nil_conv)

definition match_indices :: "rstr \<Rightarrow> rstr \<Rightarrow> nat list" where
  "match_indices s pat = match_offsets 0 pat s"

text \<open>\<^verbatim>\<open>str::find\<close> and \<^verbatim>\<open>str::rfind\<close> as byte offsets, and \<^verbatim>\<open>str::contains\<close>.\<close>

definition str_find :: "rstr \<Rightarrow> rstr \<Rightarrow> nat option" where
  "str_find s pat = map_option (\<lambda>i. str_len (take i s)) (find_sub pat s)"

definition str_rfind :: "rstr \<Rightarrow> rstr \<Rightarrow> nat option" where
  "str_rfind s pat = map_option (\<lambda>i. str_len (take i s)) (rfind_sub pat s)"

definition str_contains :: "rstr \<Rightarrow> rstr \<Rightarrow> bool" where
  "str_contains s pat \<longleftrightarrow> find_sub pat s \<noteq> None"

text \<open>\<^verbatim>\<open>str::split_inclusive\<close> at newlines: the lines with their newlines, no empty line at the end.\<close>

fun split_inclusive :: "rune \<Rightarrow> rstr \<Rightarrow> rstr list" where
  "split_inclusive c [] = []"
| "split_inclusive c (x # s) =
     (if x = c then [x] # split_inclusive c s
      else (case split_inclusive c s of [] \<Rightarrow> [[x]] | l # ls \<Rightarrow> (x # l) # ls))"

text \<open>\<^verbatim>\<open>str::split_whitespace\<close>.\<close>

fun split_ws :: "rstr \<Rightarrow> rstr \<Rightarrow> rstr list" where
  "split_ws acc [] = (if acc = [] then [] else [acc])"
| "split_ws acc (c # s) =
     (if is_whitespace c then (if acc = [] then split_ws [] s else acc # split_ws [] s)
      else split_ws (acc @ [c]) s)"

definition split_whitespace :: "rstr \<Rightarrow> rstr list" where
  "split_whitespace s = split_ws [] s"

definition count_char :: "rune \<Rightarrow> rstr \<Rightarrow> nat" where
  "count_char c s = length (filter (\<lambda>x. x = c) s)"

lemma count_char_simps [simp]:
  "count_char c [] = 0" "count_char c (x # s) = (if x = c then Suc (count_char c s) else count_char c s)"
  "count_char c (s @ t) = count_char c s + count_char c t"
  by (simp_all add: count_char_def)

lemma count_char_0 [simp]: "c \<notin> set s \<Longrightarrow> count_char c s = 0"
  by (induction s) auto

lemma count_char_pos: "c \<in> set s \<Longrightarrow> 0 < count_char c s"
  by (induction s) auto

lemma concat_split_inclusive: "concat (split_inclusive c s) = s"
  by (induction s) (auto split: list.splits)

lemma find_sub_Some:
  "find_sub p s = Some i \<Longrightarrow> s = take i s @ p @ drop (i + length p) s"
proof (induction s arbitrary: i)
  case (Cons x s)
  show ?case
  proof (cases "starts_with (x # s) p")
    case True
    then show ?thesis using Cons.prems append_take_drop_id [of "length p" "x # s"] by (simp add: starts_with_def)
  next
    case False
    then show ?thesis using Cons.prems Cons.IH by auto
  qed
qed (simp split: if_splits)

lemma find_sub_None: "find_sub p s = None \<longleftrightarrow> \<not> (\<exists>u v. s = u @ p @ v)"
proof (induction s)
  case (Cons x s)
  have "(\<exists>u v. x # s = u @ p @ v) \<longleftrightarrow> starts_with (x # s) p \<or> (\<exists>u v. s = u @ p @ v)"
  proof
    assume "\<exists>u v. x # s = u @ p @ v"
    then obtain u v where "x # s = u @ p @ v" by blast
    then show "starts_with (x # s) p \<or> (\<exists>u v. s = u @ p @ v)"
      by (cases u) (auto simp: starts_with_def)
  next
    assume "starts_with (x # s) p \<or> (\<exists>u v. s = u @ p @ v)"
    then show "\<exists>u v. x # s = u @ p @ v"
    proof
      assume "starts_with (x # s) p"
      then have "x # s = [] @ p @ drop (length p) (x # s)"
        using append_take_drop_id [of "length p" "x # s"] by (simp add: starts_with_def)
      then show ?thesis by blast
    next
      assume "\<exists>u v. s = u @ p @ v"
      then obtain u v where "s = u @ p @ v" by blast
      then have "x # s = (x # u) @ p @ v" by simp
      then show ?thesis by blast
    qed
  qed
  with Cons show ?case by simp
qed simp

lemma str_find_Some:
  assumes "str_find s pat = Some i"
  shows "\<exists>u v. s = u @ pat @ v \<and> i = str_len u"
  using assms find_sub_Some by (fastforce simp: str_find_def)

section \<open>Pieces of a text\<close>

text \<open>A text in pieces: every piece is a gap and a match, and a rest follows the last match.\<close>

type_synonym pieces = "(rstr \<times> rstr) list"

definition pieces_text :: "pieces \<Rightarrow> rstr" where
  "pieces_text ps = concat (map (\<lambda>(g, m). g @ m) ps)"

definition put_new :: "rstr \<Rightarrow> pieces \<Rightarrow> rstr" where
  "put_new r ps = concat (map (\<lambda>(g, m). g @ r) ps)"

fun piece_offsets :: "nat \<Rightarrow> pieces \<Rightarrow> (nat \<times> nat) list" where
  "piece_offsets off [] = []"
| "piece_offsets off ((g, m) # ps) = (off + str_len g, str_len m) # piece_offsets (off + str_len g + str_len m) ps"

lemma pieces_simps [simp]:
  "pieces_text [] = []" "pieces_text ((g, m) # ps) = g @ m @ pieces_text ps"
  "put_new r [] = []" "put_new r ((g, m) # ps) = g @ r @ put_new r ps"
  by (simp_all add: pieces_text_def put_new_def)

lemma length_piece_offsets [simp]: "length (piece_offsets off ps) = length ps"
  by (induction off ps rule: piece_offsets.induct) auto

text \<open>The matches of a pattern, from the left and without overlap.\<close>

function match_pieces :: "rstr \<Rightarrow> rstr \<Rightarrow> rstr \<Rightarrow> pieces \<times> rstr" where
  "match_pieces pat gap [] = ([], gap)"
| "match_pieces pat gap (c # s) =
     (if pat \<noteq> [] \<and> prefix pat (c # s)
      then (case match_pieces pat [] (drop (length pat) (c # s)) of (ps, t) \<Rightarrow> ((gap, pat) # ps, t))
      else match_pieces pat (gap @ [c]) s)"
  by pat_completeness auto

termination match_pieces
  by (relation "measure (\<lambda>(pat, gap, s). length s)") (auto simp: neq_Nil_conv)

lemma match_pieces_miss:
  assumes "\<not> (pat \<noteq> [] \<and> prefix pat (c # s))"
  shows "match_pieces pat gap (c # s) = match_pieces pat (gap @ [c]) s"
    "match_offsets off pat (c # s) = match_offsets (off + len_utf8 c) pat s"
    "replace_all pat r (c # s) = c # replace_all pat r s"
  unfolding match_pieces.simps match_offsets.simps replace_all.simps if_not_P [OF assms] by (rule refl)+

lemma match_pieces_text:
  "match_pieces pat gap s = (ps, t) \<Longrightarrow> pieces_text ps @ t = gap @ s \<and> (\<forall>(g, m) \<in> set ps. m = pat)"
proof (induction pat gap s arbitrary: ps t rule: match_pieces.induct)
  case (2 pat gap c s)
  show ?case
  proof (cases "pat \<noteq> [] \<and> prefix pat (c # s)")
    case True
    then obtain qs where qs: "match_pieces pat [] (drop (length pat) (c # s)) = (qs, t)" "ps = (gap, pat) # qs"
      using "2.prems" by (auto split: prod.splits)
    then have IH: "pieces_text qs @ t = drop (length pat) (c # s)" "\<forall>(g, m) \<in> set qs. m = pat"
      using "2.IH"(1) [OF True qs(1)] by simp_all
    moreover have "pat @ drop (length pat) (c # s) = c # s" using True by (auto simp: prefix_def)
    ultimately show ?thesis by (simp add: qs(2))
  next
    case False
    have "match_pieces pat (gap @ [c]) s = (ps, t)" using "2.prems" by (simp only: match_pieces_miss [OF False])
    then show ?thesis using "2.IH"(2) [OF False, of ps t] by simp
  qed
qed simp

lemma match_offsets_pieces:
  "match_pieces pat gap s = (ps, t) \<Longrightarrow>
   match_offsets (off + str_len gap) pat s = map fst (piece_offsets off ps)"
proof (induction pat gap s arbitrary: ps t off rule: match_pieces.induct)
  case (2 pat gap c s)
  show ?case
  proof (cases "pat \<noteq> [] \<and> prefix pat (c # s)")
    case True
    then obtain qs where qs: "match_pieces pat [] (drop (length pat) (c # s)) = (qs, t)" "ps = (gap, pat) # qs"
      using "2.prems" by (auto split: prod.splits)
    then show ?thesis
      using "2.IH"(1) [OF True qs(1), of "off + str_len gap + str_len pat"] True by simp
  next
    case False
    have "match_pieces pat (gap @ [c]) s = (ps, t)" using "2.prems" by (simp only: match_pieces_miss [OF False])
    then show ?thesis
      using "2.IH"(2) [OF False, of ps t off] by (simp add: match_pieces_miss [OF False] add.assoc del: match_offsets.simps)
  qed
qed simp

lemma replace_all_pieces:
  "match_pieces pat gap s = (ps, t) \<Longrightarrow> gap @ replace_all pat r s = put_new r ps @ t"
proof (induction pat gap s arbitrary: ps t rule: match_pieces.induct)
  case (2 pat gap c s)
  show ?case
  proof (cases "pat \<noteq> [] \<and> prefix pat (c # s)")
    case True
    then obtain qs where qs: "match_pieces pat [] (drop (length pat) (c # s)) = (qs, t)" "ps = (gap, pat) # qs"
      using "2.prems" by (auto split: prod.splits)
    then show ?thesis using "2.IH"(1) [OF True qs(1)] True by simp
  next
    case False
    have "match_pieces pat (gap @ [c]) s = (ps, t)" using "2.prems" by (simp only: match_pieces_miss [OF False])
    then show ?thesis
      using "2.IH"(2) [OF False, of ps t] by (simp add: match_pieces_miss [OF False] del: replace_all.simps)
  qed
qed simp

lemma match_indices_pieces:
  obtains ps t where "match_pieces pat [] s = (ps, t)" "pieces_text ps @ t = s" "\<forall>(g, m) \<in> set ps. m = pat"
    "match_indices s pat = map fst (piece_offsets 0 ps)" "\<And>r. replace_all pat r s = put_new r ps @ t"
proof -
  obtain ps t where ps: "match_pieces pat [] s = (ps, t)" by fastforce
  show thesis
    using that [OF ps] match_pieces_text [OF ps] match_offsets_pieces [OF ps, of 0] replace_all_pieces [OF ps]
    by (simp add: match_indices_def)
qed

end
