(* ===== verification/Monitor.thy ===== *)
theory Monitor
  imports ByteText
begin

text \<open>
  The output monitor (\<^verbatim>\<open>ds_build/monitor/types.rs\<close>, \<^verbatim>\<open>event.rs\<close>, \<^verbatim>\<open>rate_limiter.rs\<close>, the pipeline of
  \<^verbatim>\<open>tool.rs\<close>) and the text the model is shown for its events (\<^verbatim>\<open>reminders/task_completion.rs\<close>). A
  background process writes to a file; the pipeline reads what is new, cuts it into lines, batches
  them, limits their rate and sends them on. Panics are the value \<open>None\<close>.
\<close>

section \<open>Constants and input\<close>

definition LINE_TRUNCATION_LIMIT :: nat where
  "LINE_TRUNCATION_LIMIT = 500"

definition BATCH_TRUNCATION_LIMIT :: nat where
  "BATCH_TRUNCATION_LIMIT = 3000"

definition BUFFER_CAP_BYTES :: nat where
  "BUFFER_CAP_BYTES = 1048576"

definition RATE_LIMIT_CAPACITY :: nat where
  "RATE_LIMIT_CAPACITY = 10"

definition RATE_LIMIT_REFILL_MS :: nat where
  "RATE_LIMIT_REFILL_MS = 2000"

definition AUTO_KILL_THRESHOLD_MS :: nat where
  "AUTO_KILL_THRESHOLD_MS = 30000"

definition DEFAULT_TIMEOUT_MS :: nat where
  "DEFAULT_TIMEOUT_MS = 36000000"

definition MAX_TIMEOUT_MS :: nat where
  "MAX_TIMEOUT_MS = 36000000"

record monitor_input =
  mi_command :: rstr
  mi_description :: rstr
  mi_timeout_ms :: "nat option"
  mi_persistent :: "bool option"

datatype monitor_error = TimeoutExceedsMax

definition validate :: "monitor_input \<Rightarrow> monitor_error + unit" where
  "validate i =
     (let persistent = (case mi_persistent i of Some b \<Rightarrow> b | None \<Rightarrow> False)
      in case mi_timeout_ms i of
           Some timeout \<Rightarrow>
             if \<not> persistent \<and> MAX_TIMEOUT_MS < timeout then Inl TimeoutExceedsMax else Inr ()
         | None \<Rightarrow> Inr ())"

definition resolved_timeout_ms :: "monitor_input \<Rightarrow> nat" where
  "resolved_timeout_ms i =
     (if (case mi_persistent i of Some b \<Rightarrow> b | None \<Rightarrow> False) then 0
      else (case mi_timeout_ms i of Some t \<Rightarrow> t | None \<Rightarrow> DEFAULT_TIMEOUT_MS))"

section \<open>Cuts\<close>

definition floor_char_boundary :: "rstr \<Rightarrow> nat \<Rightarrow> nat" where
  "floor_char_boundary s index = (if str_len s \<le> index then str_len s else floor_loop s index)"

section \<open>Lines\<close>

definition truncate_line :: "rstr \<Rightarrow> rstr option" where
  "truncate_line line =
     (if LINE_TRUNCATION_LIMIT < str_len line then
        map_option (\<lambda>p. p @ lit ''...(truncated)'')
          (str_slice_to line (floor_char_boundary line LINE_TRUNCATION_LIMIT))
      else Some line)"

text \<open>The loop of \<^verbatim>\<open>LineProcessor::push\<close>: the lines taken out, and the buffer that is left.\<close>

function extract_lines :: "bytes \<Rightarrow> (rstr list \<times> bytes) option" where
  "extract_lines buf =
     (case position (\<lambda>b. b = 10) buf of
        None \<Rightarrow> Some ([], buf)
      | Some nl_pos \<Rightarrow>
          (let raw = take (nl_pos + 1) buf;
               text = trim (from_utf8_lossy raw)
           in case extract_lines (drop (nl_pos + 1) buf) of
                None \<Rightarrow> None
              | Some (ls, rest) \<Rightarrow>
                  if text = [] then Some (ls, rest)
                  else (case truncate_line text of None \<Rightarrow> None | Some l \<Rightarrow> Some (l # ls, rest))))"
  by pat_completeness auto

lemma position_less: "position P xs = Some i \<Longrightarrow> i < length xs"
  by (induction xs arbitrary: i) (auto split: if_splits)

termination extract_lines
  by (relation "measure length") (auto dest: position_less)

declare extract_lines.simps [simp del]

definition cap_buffer :: "bytes \<Rightarrow> bytes" where
  "cap_buffer buf =
     (if BUFFER_CAP_BYTES < length buf then drop (length buf - BUFFER_CAP_BYTES) buf else buf)"

definition line_push :: "bytes \<Rightarrow> bytes \<Rightarrow> (rstr list \<times> bytes) option" where
  "line_push buf chunk = extract_lines (cap_buffer (buf @ chunk))"

definition line_flush :: "bytes \<Rightarrow> (rstr option \<times> bytes) option" where
  "line_flush buf =
     (if buf = [] then Some (None, buf)
      else
        let text = trim (from_utf8_lossy buf)
        in if text = [] then Some (None, [])
           else map_option (\<lambda>l. (Some l, [])) (truncate_line text))"

definition batch_lines :: "rstr list \<Rightarrow> rstr option" where
  "batch_lines ls =
     (let joined = join [10] ls
      in if BATCH_TRUNCATION_LIMIT < str_len joined then
           map_option (\<lambda>p. p @ [10] @ lit ''...(truncated)'')
             (str_slice_to joined (floor_char_boundary joined BATCH_TRUNCATION_LIMIT))
         else Some joined)"

section \<open>Rate limit\<close>

record token_bucket =
  capacity :: nat
  tokens :: nat
  refill_interval :: duration
  last_refill :: instant

definition bucket_new :: "instant \<Rightarrow> nat \<Rightarrow> nat \<Rightarrow> token_bucket" where
  "bucket_new now cap refill_interval_ms =
     \<lparr>capacity = cap, tokens = cap, refill_interval = from_millis refill_interval_ms, last_refill = now\<rparr>"

text \<open>A refill interval below one millisecond makes the division panic.\<close>

definition try_consume :: "instant \<Rightarrow> token_bucket \<Rightarrow> (bool \<times> token_bucket) option" where
  "try_consume now b =
     (if as_millis (refill_interval b) = 0 then None
      else
        let elapsed = now - last_refill b;
            refills = as_millis elapsed div as_millis (refill_interval b) mod 2 ^ 32;
            b1 = (if 0 < refills then
                    b\<lparr>tokens := min (sat_add 32 (tokens b) refills) (capacity b),
                      last_refill := last_refill b + refill_interval b * refills\<rparr>
                  else b)
        in Some (if 0 < tokens b1 then (True, b1\<lparr>tokens := tokens b1 - 1\<rparr>) else (False, b1)))"

record suppression_tracker =
  suppressed_count :: nat
  last_suppression :: "instant option"
  suppression_start :: "instant option"
  killed :: bool
  kill_tool_name :: rstr

definition suppression_new :: suppression_tracker where
  "suppression_new = \<lparr>suppressed_count = 0, last_suppression = None, suppression_start = None,
     killed = False, kill_tool_name = []\<rparr>"

datatype rate_limit_outcome = Allowed "rstr option" | Suppressed | AutoKill rstr

definition catch_up_notice :: "suppression_tracker \<Rightarrow> rstr" where
  "catch_up_notice s =
     lit ''['' @ show_nat (suppressed_count s) @
     lit '' events suppressed -- output rate too high. Consider using '' @
     (if kill_tool_name s = [] then lit ''kill_command_or_subagent'' else kill_tool_name s) @
     lit '' to restart this monitor with a more selective filter.]''"

definition kill_message :: "nat \<Rightarrow> nat \<Rightarrow> rstr" where
  "kill_message suppressed secs =
     lit ''[Monitor stopped -- your script produced too much output ('' @ show_nat suppressed @
     lit '' events suppressed over '' @ show_nat secs @ lit ''s). '' @
     lit ''Write a new monitor command that filters more aggressively -- '' @
     lit ''pipe through grep --line-buffered, awk, or a wrapper script '' @
     lit ''that only emits the specific events you need.]''"

text \<open>The clock readings of one call are taken to coincide.\<close>

definition suppression_process :: "instant \<Rightarrow> bool \<Rightarrow> suppression_tracker
    \<Rightarrow> rate_limit_outcome \<times> suppression_tracker" where
  "suppression_process now token_available s =
     (if killed s then (Suppressed, s)
      else if token_available then
        (if 0 < suppressed_count s then
           (Allowed (Some (catch_up_notice s)),
            s\<lparr>suppressed_count := 0,
              suppression_start :=
                (case last_suppression s of
                   Some t \<Rightarrow>
                     if from_millis (RATE_LIMIT_REFILL_MS * 3) < now - t then None
                     else suppression_start s
                 | None \<Rightarrow> suppression_start s)\<rparr>)
         else (Allowed None, s))
      else
        (let start = (case suppression_start s of None \<Rightarrow> now | Some t \<Rightarrow> t);
             s1 = s\<lparr>suppressed_count := (suppressed_count s + 1) mod 2 ^ 64,
                    last_suppression := Some now, suppression_start := Some start\<rparr>;
             elapsed = now - start
         in if from_millis AUTO_KILL_THRESHOLD_MS < elapsed then
              (AutoKill (kill_message (suppressed_count s1) (elapsed div 1000000000)),
               s1\<lparr>killed := True\<rparr>)
            else (Suppressed, s1)))"

record monitor_rate_limiter =
  bucket :: token_bucket
  suppression :: suppression_tracker

definition limiter_new :: "instant \<Rightarrow> nat \<Rightarrow> nat \<Rightarrow> rstr \<Rightarrow> monitor_rate_limiter" where
  "limiter_new now cap refill_interval_ms kill_name =
     \<lparr>bucket = bucket_new now cap refill_interval_ms,
      suppression = suppression_new\<lparr>kill_tool_name := kill_name\<rparr>\<rparr>"

definition limiter_process :: "instant \<Rightarrow> monitor_rate_limiter
    \<Rightarrow> (rate_limit_outcome \<times> monitor_rate_limiter) option" where
  "limiter_process now l =
     map_option (\<lambda>(available, b).
         let (outcome, s) = suppression_process now available (suppression l)
         in (outcome, \<lparr>bucket = b, suppression = s\<rparr>))
       (try_consume now (bucket l))"

definition is_killed :: "monitor_rate_limiter \<Rightarrow> bool" where
  "is_killed l = killed (suppression l)"

section \<open>Events\<close>

definition sanitize_monitor_description :: "rstr \<Rightarrow> rstr" where
  "sanitize_monitor_description d =
     map (\<lambda>c. if c = 10 \<or> c = 13 then 32 else c) (map (\<lambda>c. if c = 34 then 39 else c) d)"

abbreviation quote :: rstr where
  "quote \<equiv> [34]"

definition wrap_monitor_event :: "rstr \<Rightarrow> rstr \<Rightarrow> rstr \<Rightarrow> rstr" where
  "wrap_monitor_event description event_text task_id =
     lit ''<monitor-event description='' @ quote @ sanitize_monitor_description description @ quote @
     lit '' task_id='' @ quote @ task_id @ quote @ lit ''>'' @ [10] @ event_text @ [10] @
     lit ''</monitor-event>''"

record monitor_event =
  me_task_id :: rstr
  me_description :: rstr
  me_event_text :: rstr
  me_raw_text :: rstr
  me_owner :: "rstr option"

definition monitor_event_of :: "rstr \<Rightarrow> rstr \<Rightarrow> rstr option \<Rightarrow> rstr \<Rightarrow> monitor_event" where
  "monitor_event_of task_id description owner raw =
     \<lparr>me_task_id = task_id, me_description = description,
      me_event_text = wrap_monitor_event description raw task_id, me_raw_text = raw, me_owner = owner\<rparr>"

definition process_event :: "rstr \<Rightarrow> rstr \<Rightarrow> rstr option \<Rightarrow> instant \<Rightarrow> rstr \<Rightarrow> monitor_rate_limiter
    \<Rightarrow> (monitor_event list \<times> monitor_rate_limiter) option" where
  "process_event task_id description owner now event_text rl =
     map_option (\<lambda>(outcome, rl').
         (case outcome of
            Allowed notice \<Rightarrow>
              (case notice of
                 Some n \<Rightarrow> [monitor_event_of task_id description owner n]
               | None \<Rightarrow> []) @
              [monitor_event_of task_id description owner event_text]
          | Suppressed \<Rightarrow> []
          | AutoKill message \<Rightarrow> [monitor_event_of task_id description owner message], rl'))
       (limiter_process now rl)"

section \<open>The pipeline\<close>

text \<open>
  One turn of the loop sees: whether the terminal backend still lives; the task's snapshot, if
  any, with its completion flag and owner; the bytes of the output file, when it can be opened,
  sized and positioned; how many bytes the read returns, when it succeeds; and the time.
\<close>

record monitor_tick =
  backend_alive :: bool
  snapshot :: "(bool \<times> rstr option) option"
  output_bytes :: "bytes option"
  read_returns :: "nat option"
  tick_now :: instant

definition read_new_bytes :: "monitor_tick \<Rightarrow> nat \<Rightarrow> bytes \<times> nat" where
  "read_new_bytes tick off =
     (case output_bytes tick of
        None \<Rightarrow> ([], off)
      | Some d \<Rightarrow>
          if length d \<le> off then ([], off)
          else
            (case read_returns tick of
               None \<Rightarrow> ([], off)
             | Some n \<Rightarrow>
                 (let n = min n (min (length d - off) (1024 * 1024))
                  in (take n (drop off d), off + n))))"

record monitor_pipeline =
  rate_limiter :: monitor_rate_limiter
  line_buffer :: bytes
  last_read_offset :: nat
  last_owner :: "rstr option"
  sent_events :: "monitor_event list"

definition send_event :: "rstr \<Rightarrow> rstr \<Rightarrow> rstr option \<Rightarrow> instant \<Rightarrow> rstr \<Rightarrow> monitor_pipeline
    \<Rightarrow> monitor_pipeline option" where
  "send_event task_id description owner now text p =
     map_option (\<lambda>(evs, rl). p\<lparr>rate_limiter := rl, sent_events := sent_events p @ evs\<rparr>)
       (process_event task_id description owner now text (rate_limiter p))"

definition push_bytes :: "rstr \<Rightarrow> rstr \<Rightarrow> rstr option \<Rightarrow> instant \<Rightarrow> bytes \<Rightarrow> monitor_pipeline
    \<Rightarrow> monitor_pipeline option" where
  "push_bytes task_id description owner now new_bytes p =
     (if new_bytes = [] then Some p
      else
        (case line_push (line_buffer p) new_bytes of
           None \<Rightarrow> None
         | Some (ls, rest) \<Rightarrow>
             if ls = [] then Some (p\<lparr>line_buffer := rest\<rparr>)
             else (case batch_lines ls of
                     None \<Rightarrow> None
                   | Some batched \<Rightarrow>
                       send_event task_id description owner now batched (p\<lparr>line_buffer := rest\<rparr>))))"

definition flush_line :: "rstr \<Rightarrow> rstr \<Rightarrow> rstr option \<Rightarrow> instant \<Rightarrow> monitor_pipeline
    \<Rightarrow> monitor_pipeline option" where
  "flush_line task_id description owner now p =
     (case line_flush (line_buffer p) of
        None \<Rightarrow> None
      | Some (None, rest) \<Rightarrow> Some (p\<lparr>line_buffer := rest\<rparr>)
      | Some (Some remaining, rest) \<Rightarrow>
          send_event task_id description owner now remaining (p\<lparr>line_buffer := rest\<rparr>))"

text \<open>One turn: whether the loop goes on, and the state.\<close>

definition pipeline_tick :: "rstr \<Rightarrow> rstr \<Rightarrow> monitor_tick \<Rightarrow> monitor_pipeline
    \<Rightarrow> (bool \<times> monitor_pipeline) option" where
  "pipeline_tick task_id description tick p =
     (if \<not> backend_alive tick then Some (False, p)
      else
        let completed = (case snapshot tick of None \<Rightarrow> True | Some (c, _) \<Rightarrow> c);
            snapshot_owner = (case snapshot tick of None \<Rightarrow> None | Some (_, w) \<Rightarrow> w);
            p1 = (if snapshot_owner \<noteq> None then p\<lparr>last_owner := snapshot_owner\<rparr> else p);
            owner = (if snapshot_owner \<noteq> None then snapshot_owner else last_owner p1);
            (new_bytes, off) = read_new_bytes tick (last_read_offset p1);
            p2 = p1\<lparr>last_read_offset := off\<rparr>
        in case push_bytes task_id description owner (tick_now tick) new_bytes p2 of
             None \<Rightarrow> None
           | Some p3 \<Rightarrow>
               if completed then
                 map_option (Pair False) (flush_line task_id description owner (tick_now tick) p3)
               else Some (\<not> is_killed (rate_limiter p3), p3))"

definition pipeline_new :: "instant \<Rightarrow> rstr option \<Rightarrow> nat \<Rightarrow> monitor_pipeline" where
  "pipeline_new now kill_name start_offset =
     \<lparr>rate_limiter = limiter_new now RATE_LIMIT_CAPACITY RATE_LIMIT_REFILL_MS
        (case kill_name of Some n \<Rightarrow> n | None \<Rightarrow> lit ''kill_command_or_subagent''),
      line_buffer = [], last_read_offset = start_offset, last_owner = None, sent_events = []\<rparr>"

text \<open>The loop over the turns of its life; the flag is whether it would go on.\<close>

fun pipeline_loop :: "rstr \<Rightarrow> rstr \<Rightarrow> monitor_tick list \<Rightarrow> monitor_pipeline
    \<Rightarrow> (bool \<times> monitor_pipeline) option" where
  "pipeline_loop task_id description [] p = Some (True, p)"
| "pipeline_loop task_id description (tick # ticks) p =
     (case pipeline_tick task_id description tick p of
        None \<Rightarrow> None
      | Some (go_on, p') \<Rightarrow>
          if go_on then pipeline_loop task_id description ticks p' else Some (False, p'))"

definition run_monitor_pipeline :: "rstr \<Rightarrow> rstr \<Rightarrow> instant \<Rightarrow> rstr option \<Rightarrow> nat \<Rightarrow> monitor_tick list
    \<Rightarrow> (bool \<times> monitor_pipeline) option" where
  "run_monitor_pipeline task_id description now kill_name start_offset ticks =
     pipeline_loop task_id description ticks (pipeline_new now kill_name start_offset)"

section \<open>The tool\<close>

text \<open>
  What the tool asks of the terminal; the working directory, the environment and the handles that
  it passes on unchanged are left out. Starting the process is the argument \<open>run_background\<close>, which
  gives the task id or an error; \<open>folder\<close> is the session's folder, or the error when the terminal or
  the folder is missing.
\<close>

record monitor_request =
  rq_command :: rstr
  rq_timeout :: duration
  rq_output_byte_limit :: nat
  rq_output_file :: rstr
  rq_display_command :: rstr

record monitor_output =
  mo_task_id :: rstr
  mo_timeout_ms :: nat
  mo_persistent :: bool

datatype monitor_tool_error = InvalidArguments monitor_error | MissingResource rstr | ProcessManager rstr

definition monitor_run :: "(monitor_request \<Rightarrow> rstr + rstr) \<Rightarrow> rstr + rstr \<Rightarrow> rstr \<Rightarrow> monitor_input
    \<Rightarrow> monitor_tool_error + monitor_output" where
  "monitor_run run_background folder call_id i =
     (case validate i of
        Inl e \<Rightarrow> Inl (InvalidArguments e)
      | Inr _ \<Rightarrow>
          (let resolved_timeout = resolved_timeout_ms i
           in case folder of
                Inl e \<Rightarrow> Inl (MissingResource e)
              | Inr session_folder \<Rightarrow>
                  (case run_background
                     \<lparr>rq_command = mi_command i,
                      rq_timeout = (if resolved_timeout = 0 then from_secs (86400 * 365)
                                    else from_millis resolved_timeout),
                      rq_output_byte_limit = 10 * 1024 * 1024,
                      rq_output_file = session_folder @ lit ''/terminal/monitor-'' @ call_id @ lit ''.log'',
                      rq_display_command = lit ''[monitor] '' @ mi_description i\<rparr> of
                     Inl e \<Rightarrow> Inl (ProcessManager e)
                   | Inr task_id \<Rightarrow>
                       Inr \<lparr>mo_task_id = task_id, mo_timeout_ms = resolved_timeout,
                            mo_persistent = (resolved_timeout = 0)\<rparr>)))"

section \<open>What the model is shown\<close>

record monitor_event_notification =
  mn_task_id :: rstr
  mn_event_text :: rstr
  mn_owner :: "rstr option"

definition split_wrapped_monitor_event :: "rstr \<Rightarrow> (rstr \<times> rstr) option" where
  "split_wrapped_monitor_event event_text =
     (case strip_prefix event_text (lit ''<monitor-event description='' @ quote) of
        None \<Rightarrow> None
      | Some rest \<Rightarrow>
          (case find_sub (lit ''>'' @ [10]) rest of
             None \<Rightarrow> None
           | Some open_end \<Rightarrow>
               (let open_tag = take open_end rest
                in case rfind_sub (quote @ lit '' task_id='' @ quote) open_tag of
                     None \<Rightarrow> None
                   | Some desc_end \<Rightarrow>
                       (case strip_suffix (drop (open_end + 2) rest) ([10] @ lit ''</monitor-event>'') of
                          None \<Rightarrow> None
                        | Some inner \<Rightarrow> Some (take desc_end open_tag, inner)))))"

fun group_event :: "(rstr \<times> monitor_event_notification list) list \<Rightarrow> monitor_event_notification
    \<Rightarrow> (rstr \<times> monitor_event_notification list) list" where
  "group_event [] e = [(mn_task_id e, [e])]"
| "group_event ((i, g) # gs) e =
     (if i = mn_task_id e then (i, g @ [e]) # gs else (i, g) # group_event gs e)"

definition group_events :: "monitor_event_notification list
    \<Rightarrow> (rstr \<times> monitor_event_notification list) list" where
  "group_events events = foldl group_event [] events"

definition group_description :: "monitor_event_notification list \<Rightarrow> rstr" where
  "group_description g =
     sanitize_monitor_description
       (case List.map_filter (\<lambda>e. split_wrapped_monitor_event (mn_event_text e)) g of
          (d, _) # _ \<Rightarrow> if d = [] then lit ''event'' else d
        | [] \<Rightarrow> lit ''event'')"

definition inner_text :: "monitor_event_notification \<Rightarrow> rstr" where
  "inner_text e =
     (case split_wrapped_monitor_event (mn_event_text e) of
        Some (_, inner) \<Rightarrow> inner
      | None \<Rightarrow> mn_event_text e)"

definition format_group :: "rstr \<times> monitor_event_notification list \<Rightarrow> rstr" where
  "format_group ig =
     (let (i, g) = ig
      in [10, 10] @ lit ''<monitor description='' @ quote @ group_description g @ quote @
         lit '' task_id='' @ quote @ i @ quote @ lit ''>'' @
         concat (map (\<lambda>(n, e). [10] @ lit ''['' @ show_nat (n + 1) @ lit ''] '' @ inner_text e)
                   (enumerate 0 g)) @
         [10] @ lit ''</monitor>'')"

definition format_monitor_events :: "monitor_event_notification list \<Rightarrow> rstr option \<Rightarrow> rstr option" where
  "format_monitor_events events task_output_name =
     (let tool_hint = (case task_output_name of
                         Some n \<Rightarrow> n
                       | None \<Rightarrow> lit ''get_command_or_subagent_output'')
      in case events of
           [] \<Rightarrow> None
         | [event] \<Rightarrow>
             (let (label, inner) =
                    (case split_wrapped_monitor_event (mn_event_text event) of
                       Some (desc, inner) \<Rightarrow> (if desc \<noteq> [] then desc else lit ''event'', inner)
                     | None \<Rightarrow> (lit ''event'', mn_event_text event))
              in Some (lit ''<monitor-event task_id='' @ quote @ mn_task_id event @ quote @ lit ''>'' @ [10] @
                   lit ''['' @ sanitize_monitor_description label @ lit ''] '' @ inner @ [10] @
                   lit ''</monitor-event>''))
         | _ \<Rightarrow>
             (let groups = group_events events
              in Some (show_nat (length events) @ lit '' monitor events from '' @
                   show_nat (length groups) @ lit '' '' @
                   (if length groups = 1 then lit ''monitor'' else lit ''monitors'') @
                   lit '' (use '' @ tool_hint @ lit '' to identify each monitor):'' @
                   concat (map format_group groups))))"

end
