(* ===== verification/MonitorProps.thy ===== *)
theory MonitorProps
  imports Monitor ReadFileProps "HOL-Library.Multiset"
begin

text \<open>
  What the monitor promises: lines do not depend on how the output arrives in chunks, no cut
  panics, the event rate is bounded, the text shown to the model can be taken apart again, and
  every byte of the output is processed at most once and in order.
\<close>

section \<open>Truncation\<close>

text \<open>The longest prefix of whole characters within a number of bytes is unique.\<close>

lemma longest_prefix_unique:
  assumes "s = p @ u" "str_len p \<le> n" "u = [] \<or> n < str_len p + len_utf8 (hd u)"
    and "s = q @ v" "str_len q \<le> n" "v = [] \<or> n < str_len q + len_utf8 (hd v)"
  shows "p = q"
proof -
  have no: False if "p' = q' @ w # ws" "p' @ u' = q' @ v'" "str_len p' \<le> n"
      "v' = [] \<or> n < str_len q' + len_utf8 (hd v')" for p' q' u' v' and w :: rune and ws
    using that by auto
  from assms(1,4) obtain ws where "p = q @ ws \<or> q = p @ ws"
    by (metis append_eq_append_conv2)
  then show ?thesis
    using no [of p q "hd ws" "tl ws" u v] no [of q p "hd ws" "tl ws" v u] assms
    by (cases ws) auto
qed

lemma str_slice_floor:
  "str_slice_to s (floor_char_boundary s n) = Some (take_at_char_boundary s n)"
proof (cases "str_len s \<le> n")
  case True
  then show ?thesis
    using str_slice_to_prefix [of s "[]"] by (simp add: floor_char_boundary_def take_at_char_boundary_def)
next
  case False
  let ?i = "floor_loop s n"
  obtain p where p: "str_slice_to s ?i = Some p" using floor_loop_boundary [of s n] by (auto simp: is_char_boundary_def)
  then obtain u where u: "s = p @ u" "str_len p = ?i" using str_slice_to_Some by blast
  have max: "u = [] \<or> n < str_len p + len_utf8 (hd u)"
  proof (rule ccontr)
    assume "\<not> (u = [] \<or> n < str_len p + len_utf8 (hd u))"
    then obtain c v where c: "u = c # v" "str_len p + len_utf8 c \<le> n" by (cases u) auto
    have "is_char_boundary s (str_len (p @ [c]))"
      using str_slice_to_prefix [of "p @ [c]" v] by (simp add: is_char_boundary_def u c)
    from floor_loop_max [OF this, of n] c u show False using len_utf8_bounds(1) [of c] by simp
  qed
  have "str_len p \<le> n" using u(2) floor_loop_le [of s n] by simp
  moreover obtain v where "s = take_at_char_boundary s n @ v"
      "str_len (take_at_char_boundary s n) \<le> n" "v = [] \<or> n < str_len (take_at_char_boundary s n) + len_utf8 (hd v)"
    using take_at_char_boundary_longest by blast
  ultimately have "p = take_at_char_boundary s n"
    using longest_prefix_unique [OF u(1) _ max] by blast
  with p False show ?thesis by (simp add: floor_char_boundary_def)
qed

definition shown :: "rstr \<Rightarrow> rstr" where
  "shown l = (if str_len l \<le> 500 then l else take_at_char_boundary l 500 @ lit ''...(truncated)'')"

definition shown_batch :: "rstr \<Rightarrow> rstr" where
  "shown_batch l =
     (if str_len l \<le> 3000 then l else take_at_char_boundary l 3000 @ [10] @ lit ''...(truncated)'')"

lemma truncate_line_shown [simp]: "truncate_line l = Some (shown l)"
  by (simp add: truncate_line_def shown_def LINE_TRUNCATION_LIMIT_def str_slice_floor not_le)

lemma batch_lines_shown [simp]: "batch_lines ls = Some (shown_batch (join [10] ls))"
  by (simp add: batch_lines_def shown_batch_def BATCH_TRUNCATION_LIMIT_def str_slice_floor not_le Let_def)

lemma line_flush_not_None [simp]: "line_flush b \<noteq> None"
  by (simp add: line_flush_def Let_def)

section \<open>Lines and chunks\<close>

abbreviation line_of :: "bytes \<Rightarrow> rstr" where
  "line_of l \<equiv> trim (from_utf8_lossy (l @ [10]))"

definition output_lines :: "bytes \<Rightarrow> rstr list" where
  "output_lines bs = map shown (filter (\<lambda>l. l \<noteq> []) (map line_of (butlast (split_on 10 bs))))"

lemma position_take:
  "position (\<lambda>b. b = c) xs = Some i \<Longrightarrow> take i xs @ [c] = take (Suc i) xs \<and> c \<notin> set (take i xs)"
  by (induction xs arbitrary: i) (auto split: if_splits)

lemma extract_lines_eq: "extract_lines buf = Some (output_lines buf, last (split_on 10 buf))"
proof (induction buf rule: extract_lines.induct)
  case (1 buf)
  show ?case
  proof (cases "position (\<lambda>b. b = 10) buf")
    case None
    then have "10 \<notin> set buf" by (auto simp: position_None)
    then show ?thesis
      using None by (simp add: extract_lines.simps [of buf] output_lines_def split_on_id)
  next
    case (Some i)
    let ?l = "take i buf" and ?r = "drop (Suc i) buf"
    have l: "?l @ [10] = take (Suc i) buf" "10 \<notin> set ?l" using position_take [OF Some] by auto
    then have "split_on 10 buf = ?l # split_on 10 ?r"
      using split_on_append [OF l(2), of ?r] by (metis append_Cons append_Nil append_assoc append_take_drop_id)
    moreover have "extract_lines ?r = Some (output_lines ?r, last (split_on 10 ?r))"
      using 1 Some by simp
    ultimately show ?thesis
      using Some by (simp add: extract_lines.simps [of buf] output_lines_def l(1) Let_def)
  qed
qed

lemma line_push_eq: "length (buf @ c) \<le> BUFFER_CAP_BYTES \<Longrightarrow>
   line_push buf c = Some (output_lines (buf @ c), last (split_on 10 (buf @ c)))"
  by (simp add: line_push_def cap_buffer_def extract_lines_eq)

fun push_all :: "bytes \<Rightarrow> bytes list \<Rightarrow> (rstr list \<times> bytes) option" where
  "push_all buf [] = Some ([], buf)"
| "push_all buf (c # cs) =
     (case line_push buf c of
        None \<Rightarrow> None
      | Some (ls, b) \<Rightarrow> map_option (\<lambda>(ms, b'). (ls @ ms, b')) (push_all b cs))"

lemma split_on_append2:
  "split_on c (a @ b) =
   butlast (split_on c a) @ (last (split_on c a) @ hd (split_on c b)) # tl (split_on c b)"
proof (induction a)
  case (Cons x a)
  obtain l ls where "split_on c a = l # ls" by (meson neq_Nil_conv split_on_ne)
  with Cons show ?case by (cases ls) auto
qed simp

lemma output_lines_append:
  "output_lines (a @ b) = output_lines a @ output_lines (last (split_on 10 a) @ b)"
  "last (split_on 10 (a @ b)) = last (split_on 10 (last (split_on 10 a) @ b))"
proof -
  let ?r = "last (split_on 10 a)"
  have "10 \<notin> set ?r" by (rule split_on_no_sep [OF last_in_set]) simp
  then have "split_on 10 (?r @ b) = (?r @ hd (split_on 10 b)) # tl (split_on 10 b)"
    using split_on_append2 [of 10 ?r b] by (simp add: split_on_id)
  then have "split_on 10 (a @ b) = butlast (split_on 10 a) @ split_on 10 (?r @ b)"
    by (simp add: split_on_append2 [of 10 a b])
  then show "output_lines (a @ b) = output_lines a @ output_lines (?r @ b)"
    "last (split_on 10 (a @ b)) = last (split_on 10 (?r @ b))"
    by (simp_all add: output_lines_def butlast_append)
qed

lemma push_all_eq:
  assumes "\<forall>c \<in> set cs. length c \<le> k" "\<forall>l \<in> set (split_on 10 (buf @ concat cs)). length l \<le> m"
    and "k + m \<le> BUFFER_CAP_BYTES" "10 \<notin> set buf"
  shows "push_all buf cs = Some (output_lines (buf @ concat cs), last (split_on 10 (buf @ concat cs)))"
  using assms(1,2,4)
proof (induction cs arbitrary: buf)
  case Nil
  then show ?case by (simp add: output_lines_def split_on_id)
next
  case (Cons c cs)
  let ?b = "last (split_on 10 (buf @ c))"
  have "buf @ hd (split_on 10 (c @ concat cs)) \<in> set (split_on 10 (buf @ c @ concat cs))"
    using split_on_append2 [of 10 buf "c @ concat cs"] Cons.prems(3) by (simp add: split_on_id)
  then have "length buf \<le> m" using Cons.prems(2) by fastforce
  with Cons.prems(1) have "length (buf @ c) \<le> BUFFER_CAP_BYTES" using assms(3) by simp
  then have push: "line_push buf c = Some (output_lines (buf @ c), ?b)" by (rule line_push_eq)
  have nl: "10 \<notin> set ?b" by (rule split_on_no_sep [OF last_in_set]) simp
  have "set (split_on 10 (?b @ concat cs)) \<subseteq> set (split_on 10 ((buf @ c) @ concat cs))"
    using split_on_append2 [of 10 "buf @ c" "concat cs"] split_on_append2 [of 10 ?b "concat cs"]
    by (auto simp: split_on_id [OF nl])
  then have "push_all ?b cs = Some (output_lines (?b @ concat cs), last (split_on 10 (?b @ concat cs)))"
    using Cons.prems nl by (intro Cons.IH) auto
  then show ?case
    using output_lines_append [of "buf @ c" "concat cs"] by (simp add: push)
qed

text \<open>What the monitor reports does not depend on how the output arrives. When no chunk and no
  line is so long that together they exceed the buffer, feeding the chunks one by one gives, for
  any way of cutting the output, exactly its complete lines in order (trimmed, the blank ones left
  out, the long ones cut at a character), and leaves the unfinished last line in the buffer; no
  cut panics.\<close>

theorem lines_independent_of_chunks:
  assumes "\<forall>c \<in> set cs. length c \<le> k" "\<forall>l \<in> set (split_on 10 (concat cs)). length l \<le> m"
    and "k + m \<le> BUFFER_CAP_BYTES"
  shows "push_all [] cs = Some (output_lines (concat cs), last (split_on 10 (concat cs)))"
  using push_all_eq [of cs k "[]" m] assms by simp

lemma lines_independent_of_chunks_witness:
  "push_all [] [[104], [105, 10, 10], [120]] = Some (output_lines [104, 105, 10, 10, 120], [120])"
  using lines_independent_of_chunks [of "[[104], [105, 10, 10], [120]]" 3 3]
  by (simp add: BUFFER_CAP_BYTES_def)

section \<open>The rate of events\<close>

fun limiter_run :: "instant list \<Rightarrow> monitor_rate_limiter
    \<Rightarrow> (rate_limit_outcome list \<times> monitor_rate_limiter) option" where
  "limiter_run [] l = Some ([], l)"
| "limiter_run (t # ts) l =
     (case limiter_process t l of
        None \<Rightarrow> None
      | Some (r, l') \<Rightarrow> map_option (\<lambda>(rs, l''). (r # rs, l'')) (limiter_run ts l'))"

fun allowed :: "rate_limit_outcome \<Rightarrow> bool" where
  "allowed (Allowed n) = True"
| "allowed _ = False"

text \<open>The bucket after \<open>n\<close> tokens were taken since \<open>t0\<close>, when it was full.\<close>

definition bucket_ok :: "nat \<Rightarrow> nat \<Rightarrow> instant \<Rightarrow> nat \<Rightarrow> token_bucket \<Rightarrow> bool" where
  "bucket_ok cap ms t0 n b \<longleftrightarrow>
     refill_interval b = from_millis ms \<and>
     (\<exists>k. last_refill b = t0 + from_millis ms * k \<and> n + tokens b \<le> cap + k)"

lemma refills_le: "as_millis e div as_millis (from_millis ms) \<le> e div from_millis ms"
  by (simp add: as_millis_def from_millis_def div_mult2_eq mult.commute [of ms])

lemma as_from_millis [simp]: "as_millis (from_millis ms) = ms"
  by (simp add: as_millis_def from_millis_def)

lemma try_consume_ok:
  assumes "bucket_ok cap ms t0 n b" "0 < ms"
  shows "\<exists>ok b'. try_consume now b = Some (ok, b') \<and>
           bucket_ok cap ms t0 (if ok then Suc n else n) b' \<and> last_refill b' \<le> max now (last_refill b)"
proof -
  let ?I = "from_millis ms"
  define r where "r = as_millis (now - last_refill b) div as_millis (refill_interval b) mod 2 ^ 32"
  define b1 where "b1 = (if 0 < r then b\<lparr>tokens := min (sat_add 32 (tokens b) r) (capacity b),
      last_refill := last_refill b + refill_interval b * r\<rparr> else b)"
  obtain k where k: "refill_interval b = ?I" "last_refill b = t0 + ?I * k" "n + tokens b \<le> cap + k"
    using assms(1) by (auto simp: bucket_ok_def)
  have "r \<le> (now - last_refill b) div ?I"
    using refills_le [of "now - last_refill b" ms] mod_less_eq_dividend le_trans unfolding r_def k(1) by blast
  then have time: "?I * r \<le> now - last_refill b"
    using assms(2) by (simp add: from_millis_def less_eq_div_iff_mult_less_eq mult.commute)
  have "tokens b1 \<le> tokens b + r" by (auto simp: b1_def sat_add_def)
  moreover have "last_refill b1 = t0 + ?I * (k + r)" "refill_interval b1 = ?I"
    using k by (auto simp: b1_def distrib_left)
  ultimately have "bucket_ok cap ms t0 n b1"
    unfolding bucket_ok_def using k(3) by (intro conjI exI [of _ "k + r"]) simp_all
  moreover have "try_consume now b =
      Some (if 0 < tokens b1 then (True, b1\<lparr>tokens := tokens b1 - 1\<rparr>) else (False, b1))"
    using assms(2) k(1) unfolding try_consume_def Let_def r_def [symmetric] b1_def [symmetric]
    by (simp only: as_from_millis) simp
  moreover have "last_refill b1 \<le> max now (last_refill b)"
    using time k(1) by (auto simp: b1_def)
  ultimately show ?thesis by (cases "0 < tokens b1") (auto simp: bucket_ok_def)
qed

lemma limiter_process_ok:
  assumes "bucket_ok cap ms t0 n (bucket l)" "0 < ms"
  shows "\<exists>r l'. limiter_process now l = Some (r, l') \<and>
           bucket_ok cap ms t0 (if allowed r then Suc n else n) (bucket l') \<and>
           last_refill (bucket l') \<le> max now (last_refill (bucket l))"
proof -
  obtain ok b' where b: "try_consume now (bucket l) = Some (ok, b')"
      "bucket_ok cap ms t0 (if ok then Suc n else n) b'" "last_refill b' \<le> max now (last_refill (bucket l))"
    using try_consume_ok [OF assms] by blast
  obtain r s where rs: "suppression_process now ok (suppression l) = (r, s)" by fastforce
  then have "allowed r \<longrightarrow> ok" by (auto simp: suppression_process_def Let_def split: if_splits)
  then have "bucket_ok cap ms t0 (if allowed r then Suc n else n) b'"
    using b(2) by (auto simp: bucket_ok_def split: if_splits intro: Suc_leD)
  with b rs show ?thesis by (simp add: limiter_process_def)
qed

lemma limiter_run_ok:
  assumes "bucket_ok cap ms t0 n (bucket l)" "0 < ms" "sorted (t # ts)" "last_refill (bucket l) \<le> t"
  shows "\<exists>rs l'. limiter_run ts l = Some (rs, l') \<and>
           bucket_ok cap ms t0 (n + length (filter allowed rs)) (bucket l') \<and>
           last_refill (bucket l') \<le> last (t # ts)"
  using assms(1,3,4)
proof (induction ts arbitrary: n l t)
  case (Cons u ts)
  obtain r l1 where l1: "limiter_process u l = Some (r, l1)"
      "bucket_ok cap ms t0 (if allowed r then Suc n else n) (bucket l1)"
      "last_refill (bucket l1) \<le> max u (last_refill (bucket l))"
    using limiter_process_ok [OF Cons.prems(1) assms(2)] by blast
  have "last_refill (bucket l1) \<le> u" using l1(3) Cons.prems by auto
  from Cons.IH [OF l1(2) _ this] Cons.prems(2) l1(1) show ?case
    by (cases "allowed r") auto
qed simp

text \<open>C24: the rate limit holds for any sequence of events. From a new limiter with a bucket of
  \<open>cap\<close> tokens and one refill every \<open>ms\<close> milliseconds, the events allowed up to some moment
  are never more than the capacity and one for every full interval since the start, and the
  limiter never panics.\<close>

theorem allowed_events_bounded:
  assumes "0 < ms" "sorted (t0 # ts)"
  shows "\<exists>rs l. limiter_run ts (limiter_new t0 cap ms name) = Some (rs, l) \<and>
           length (filter allowed rs) \<le> cap + (last (t0 # ts) - t0) div from_millis ms"
proof -
  let ?l = "limiter_new t0 cap ms name"
  have "bucket_ok cap ms t0 0 (bucket ?l)" "last_refill (bucket ?l) \<le> t0"
    by (simp_all add: bucket_ok_def limiter_new_def bucket_new_def)
  from limiter_run_ok [OF this(1) assms this(2)] obtain rs l k where l: "limiter_run ts ?l = Some (rs, l)"
      "t0 + from_millis ms * k \<le> last (t0 # ts)" "length (filter allowed rs) \<le> cap + k"
    by (auto simp: bucket_ok_def)
  then have "k \<le> (last (t0 # ts) - t0) div from_millis ms"
    using assms(1) by (simp add: from_millis_def less_eq_div_iff_mult_less_eq mult.commute del: last.simps)
  with l show ?thesis by (intro exI [of _ rs] exI [of _ l]) simp
qed

lemma allowed_events_bounded_witness:
  "\<exists>rs l. limiter_run (replicate 20 0 @ [4000000000]) (limiter_new 0 10 2000 []) = Some (rs, l) \<and>
     length (filter allowed rs) \<le> 12"
  using allowed_events_bounded [of 2000 0 "replicate 20 0 @ [4000000000]" 10 "[]"]
  by (simp add: sorted_append from_millis_def)

section \<open>The automatic stop\<close>

lemma limiter_run_append:
  "limiter_run ts l = Some (rs, l1) \<Longrightarrow> limiter_run us l1 = Some (ss, l2) \<Longrightarrow>
   limiter_run (ts @ us) l = Some (rs @ ss, l2)"
  by (induction ts arbitrary: l rs) (auto split: option.splits prod.splits)

lemma try_consume_no_refill:
  assumes "as_millis (now - last_refill b) < as_millis (refill_interval b)"
  shows "try_consume now b =
    Some (if 0 < tokens b then (True, b\<lparr>tokens := tokens b - 1\<rparr>) else (False, b))"
  using assms by (simp add: try_consume_def Let_def)

lemma burst_allowed:
  assumes "as_millis (now - last_refill b) < as_millis (refill_interval b)"
    and "tokens b = k" "\<not> killed s" "suppressed_count s = 0"
  shows "limiter_run (replicate k now) \<lparr>bucket = b, suppression = s\<rparr> =
    Some (replicate k (Allowed None), \<lparr>bucket = b\<lparr>tokens := 0\<rparr>, suppression = s\<rparr>)"
  using assms(1,2)
proof (induction k arbitrary: b)
  case (Suc k)
  let ?b = "b\<lparr>tokens := k\<rparr>"
  have "limiter_process now \<lparr>bucket = b, suppression = s\<rparr> =
      Some (Allowed None, \<lparr>bucket = ?b, suppression = s\<rparr>)"
    using Suc.prems assms(3,4)
    by (simp add: limiter_process_def try_consume_no_refill suppression_process_def)
  with Suc.IH [of ?b] Suc.prems show ?case by simp
qed simp

lemma empty_bucket_suppresses:
  assumes "as_millis (now - last_refill b) < as_millis (refill_interval b)" "tokens b = 0"
  shows "limiter_run [now] \<lparr>bucket = b, suppression = s\<rparr> =
    Some ([fst (suppression_process now False s)],
          \<lparr>bucket = b, suppression = snd (suppression_process now False s)\<rparr>)"
  using assms by (simp add: limiter_process_def try_consume_no_refill split: prod.splits)

definition burst_times :: "instant \<Rightarrow> instant list" where
  "burst_times t = replicate 10 0 @ [0] @ [2000000000] @ [t] @ replicate 9 t @ [t]"

lemma second_burst:
  assumes "32000000000 \<le> t" "t < 2 ^ 32 * 2000000000"
  shows "\<exists>l. limiter_run (burst_times t) (limiter_new 0 10 2000 name) =
    Some (replicate 10 (Allowed None) @ [Suppressed] @
          [Allowed (Some (catch_up_notice (suppression_new\<lparr>suppressed_count := 1, kill_tool_name := name\<rparr>)))] @
          [Allowed None] @ replicate 9 (Allowed None) @ [AutoKill (kill_message 1 (t div 1000000000))], l)"
proof -
  define b0 where "b0 = bucket_new 0 10 2000"
  define s0 where "s0 = suppression_new\<lparr>kill_tool_name := name\<rparr>"
  define s1 where "s1 = s0\<lparr>suppressed_count := 1, last_suppression := Some 0, suppression_start := Some 0\<rparr>"
  define s2 where "s2 = s1\<lparr>suppressed_count := 0\<rparr>"
  define r where "r = as_millis (t - 2000000000) div 2000"
  define b3 where "b3 = b0\<lparr>tokens := 9, last_refill := 2000000000 + from_millis 2000 * r\<rparr>"
  note defs = b0_def s0_def s1_def s2_def bucket_new_def suppression_new_def
  have n: "limiter_new 0 10 2000 name = \<lparr>bucket = b0, suppression = s0\<rparr>"
    by (simp add: limiter_new_def defs)
  have 1: "limiter_run (replicate 10 0) \<lparr>bucket = b0, suppression = s0\<rparr> =
      Some (replicate 10 (Allowed None), \<lparr>bucket = b0\<lparr>tokens := 0\<rparr>, suppression = s0\<rparr>)"
    by (rule burst_allowed) (simp_all add: defs as_millis_def from_millis_def)
  have 2: "limiter_run [0] \<lparr>bucket = b0\<lparr>tokens := 0\<rparr>, suppression = s0\<rparr> =
      Some ([Suppressed], \<lparr>bucket = b0\<lparr>tokens := 0\<rparr>, suppression = s1\<rparr>)"
    by (subst empty_bucket_suppresses)
      (simp_all add: defs as_millis_def from_millis_def suppression_process_def Let_def)
  have 3: "limiter_run [2000000000] \<lparr>bucket = b0\<lparr>tokens := 0\<rparr>, suppression = s1\<rparr> =
      Some ([Allowed (Some (catch_up_notice s1))],
        \<lparr>bucket = b0\<lparr>tokens := 0, last_refill := 2000000000\<rparr>, suppression = s2\<rparr>)"
    by (simp add: limiter_process_def try_consume_def suppression_process_def Let_def defs
        as_millis_def from_millis_def sat_add_def RATE_LIMIT_REFILL_MS_def)
  have "r < 2 ^ 32" "15 \<le> r" using assms by (simp_all add: r_def as_millis_def)
  then have 4: "limiter_run [t] \<lparr>bucket = b0\<lparr>tokens := 0, last_refill := 2000000000\<rparr>, suppression = s2\<rparr> =
      Some ([Allowed None], \<lparr>bucket = b3, suppression = s2\<rparr>)"
    unfolding limiter_run.simps limiter_process_def try_consume_def
    by (simp add: Let_def suppression_process_def defs b3_def sat_add_def flip: r_def)
  have no: "as_millis (t - last_refill b3) < as_millis (refill_interval b3)"
    using assms(1) by (simp add: b3_def b0_def bucket_new_def r_def as_millis_def from_millis_def)
  have 5: "limiter_run (replicate 9 t) \<lparr>bucket = b3, suppression = s2\<rparr> =
      Some (replicate 9 (Allowed None), \<lparr>bucket = b3\<lparr>tokens := 0\<rparr>, suppression = s2\<rparr>)"
    using no by (intro burst_allowed) (simp_all add: b3_def defs)
  have 6: "\<exists>l. limiter_run [t] \<lparr>bucket = b3\<lparr>tokens := 0\<rparr>, suppression = s2\<rparr> =
      Some ([AutoKill (kill_message 1 (t div 1000000000))], l)"
    using no assms(1)
    by (subst empty_bucket_suppresses)
      (simp_all add: defs suppression_process_def Let_def from_millis_def AUTO_KILL_THRESHOLD_MS_def)
  have notice: "catch_up_notice s1 = catch_up_notice (suppression_new\<lparr>suppressed_count := 1, kill_tool_name := name\<rparr>)"
    by (simp add: catch_up_notice_def s1_def s0_def)
  from 6 obtain l where "limiter_run [t] \<lparr>bucket = b3\<lparr>tokens := 0\<rparr>, suppression = s2\<rparr> =
      Some ([AutoKill (kill_message 1 (t div 1000000000))], l)" by blast
  from limiter_run_append [OF 1 limiter_run_append [OF 2 limiter_run_append [OF 3
        limiter_run_append [OF 4 limiter_run_append [OF 5 this]]]]]
  show ?thesis unfolding n notice burst_times_def by blast
qed

text \<open>The automatic stop does not need thirty seconds of continuous overload. A monitor that
  exceeded its rate once, by one event, and then reported one event two seconds later keeps the
  moment of that first suppression for ever: after any silence, however long, the next single
  event over the rate stops the monitor, with a message that counts the whole silence as
  overload.\<close>

theorem old_burst_stops_monitor:
  assumes "32000000000 \<le> t" "t < 2 ^ 32 * 2000000000"
  shows "\<exists>rs l. limiter_run (burst_times t) (limiter_new 0 10 2000 name) =
      Some (rs @ [AutoKill (kill_message 1 (t div 1000000000))], l) \<and>
    length (filter allowed rs) = 21 \<and> length rs = 22"
  using second_burst [OF assms, of name] by fastforce

lemma old_burst_stops_monitor_witness:
  "\<exists>rs l. limiter_run (burst_times 3600000000000) (limiter_new 0 10 2000 []) =
      Some (rs @ [AutoKill (kill_message 1 3600)], l)"
  using old_burst_stops_monitor [of 3600000000000 "[]"] by auto

section \<open>What the model is shown\<close>

lemma find_sub_newline: "10 \<notin> set w \<Longrightarrow> find_sub [62, 10] (w @ 62 # 10 # v) = Some (length w)"
proof (induction w)
  case (Cons x w)
  then have "\<not> starts_with (x # w @ 62 # 10 # v) [62, 10]"
    by (cases w) (auto simp: starts_with_def)
  with Cons show ?case by simp
qed (simp add: starts_with_def)

lemma rfind_sub_None: "x \<in> set p \<Longrightarrow> x \<notin> set s \<Longrightarrow> rfind_sub p s = None"
proof (induction s)
  case (Cons y s)
  have "\<not> starts_with (y # s) p"
    using Cons.prems by (metis in_set_takeD starts_with_def)
  with Cons show ?case by simp
qed auto

lemma rfind_sub_append: "rfind_sub p v = Some 0 \<Longrightarrow> rfind_sub p (w @ v) = Some (length w)"
  by (induction w) auto

lemma rfind_task_id:
  assumes "32 \<notin> set i"
  shows "rfind_sub (quote @ lit '' task_id='' @ quote) (quote @ lit '' task_id='' @ quote @ i @ quote) = Some 0"
proof -
  have "rfind_sub (quote @ lit '' task_id='' @ quote) (i @ quote) = None"
    using assms by (intro rfind_sub_None [where x = 32]) (auto simp: str_simps)
  moreover have "\<not> starts_with (34 # i @ [34]) (quote @ lit '' task_id='' @ quote)"
    using assms by (cases i) (auto simp: starts_with_def str_simps)
  ultimately show ?thesis by (simp add: str_simps) (simp add: starts_with_def)
qed

lemma sanitize_clean: "34 \<notin> set (sanitize_monitor_description d)" "10 \<notin> set (sanitize_monitor_description d)"
  by (auto simp: sanitize_monitor_description_def)

lemma split_wrapped:
  assumes "10 \<notin> set i" "32 \<notin> set i"
  shows "split_wrapped_monitor_event (wrap_monitor_event d text i) = Some (sanitize_monitor_description d, text)"
proof -
  let ?d = "sanitize_monitor_description d" and ?q = "quote @ lit '' task_id='' @ quote"
  let ?close = "[10] @ lit ''</monitor-event>''"
  define tag where "tag = ?d @ ?q @ i @ quote"
  have gt: "lit ''>'' = [62]" by (simp add: str_simps)
  have "strip_prefix (wrap_monitor_event d text i) (lit ''<monitor-event description='' @ quote) =
      Some (tag @ 62 # 10 # text @ ?close)"
    by (simp add: wrap_monitor_event_def strip_prefix_iff gt tag_def)
  moreover have "find_sub [62, 10] (tag @ 62 # 10 # text @ ?close) = Some (length tag)"
    using assms(1) sanitize_clean(2) by (intro find_sub_newline) (auto simp: tag_def str_simps)
  moreover have "rfind_sub ?q tag = Some (length ?d)"
    using rfind_sub_append [OF rfind_task_id [OF assms(2)]] by (simp add: tag_def)
  moreover have "take (length ?d) tag = ?d" by (simp add: tag_def)
  moreover have "strip_suffix (text @ ?close) ?close = Some text" by (rule strip_suffix_append)
  ultimately show ?thesis
    by (simp add: split_wrapped_monitor_event_def gt Let_def)
qed

text \<open>An event survives its wrapping. For a task id without white space, taking apart the wrapped
  text gives back the event text unchanged, whatever tags, quotes or newlines it contains, and the
  description with quotes and line breaks replaced, so that no description can forge the tag.\<close>

theorem wrapped_event_roundtrip:
  assumes "10 \<notin> set i" "32 \<notin> set i"
  shows "split_wrapped_monitor_event (wrap_monitor_event d text i) =
      Some (sanitize_monitor_description d, text) \<and>
    inner_text \<lparr>mn_task_id = i, mn_event_text = wrap_monitor_event d text i, mn_owner = w\<rparr> = text \<and>
    set (sanitize_monitor_description d) \<inter> {34, 10, 13} = {}"
  using split_wrapped [OF assms]
  by (auto simp: inner_text_def sanitize_monitor_description_def)

lemma wrapped_event_roundtrip_witness:
  "split_wrapped_monitor_event (wrap_monitor_event [34, 10] [62, 10, 60] [116, 45, 49]) = Some ([39, 32], [62, 10, 60])"
  using wrapped_event_roundtrip [of "[116, 45, 49]" "[34, 10]" "[62, 10, 60]" None]
  by (simp add: sanitize_monitor_description_def)

definition first_seen :: "'a list \<Rightarrow> 'a list" where
  "first_seen xs = rev (remdups (rev xs))"

lemma first_seen_snoc: "first_seen (xs @ [x]) = first_seen xs @ (if x \<in> set xs then [] else [x])"
  by (simp add: first_seen_def)

lemma set_first_seen [simp]: "set (first_seen xs) = set xs" and distinct_first_seen [simp]: "distinct (first_seen xs)"
  by (simp_all add: first_seen_def)

lemma group_event_map:
  "distinct is \<Longrightarrow> group_event (map (\<lambda>i. (i, F i)) is) e =
   map (\<lambda>i. (i, F i @ (if i = mn_task_id e then [e] else []))) is @
   (if mn_task_id e \<in> set is then [] else [(mn_task_id e, [e])])"
  by (induction "is") auto

lemma group_events_eq:
  "group_events es = map (\<lambda>i. (i, filter (\<lambda>e. mn_task_id e = i) es)) (first_seen (map mn_task_id es))"
proof (induction es rule: rev_induct)
  case (snoc e es)
  have "group_events (es @ [e]) = group_event (group_events es) e" by (simp add: group_events_def)
  also have "\<dots> = map (\<lambda>i. (i, filter (\<lambda>e. mn_task_id e = i) (es @ [e]))) (first_seen (map mn_task_id (es @ [e])))"
    unfolding snoc.IH by (subst group_event_map) (auto simp: first_seen_snoc filter_empty_conv image_iff)
  finally show ?case .
qed (simp add: group_events_def first_seen_def)

lemma mset_groups:
  "distinct is \<Longrightarrow> mset (concat (map (\<lambda>i. filter (\<lambda>e. f e = i) es) is)) = filter_mset (\<lambda>e. f e \<in> set is) (mset es)"
proof (induction "is")
  case (Cons i "is")
  then have "mset (concat (map (\<lambda>i. filter (\<lambda>e. f e = i) es) (i # is))) =
      filter_mset (\<lambda>e. f e = i) (mset es) + filter_mset (\<lambda>e. f e \<in> set is) (mset es)" by simp
  also have "\<dots> = filter_mset (\<lambda>e. f e \<in> set (i # is)) (mset es)"
    using Cons.prems by (intro multiset_eqI) auto
  finally show ?case .
qed simp

text \<open>Several events are shown grouped by monitor without losing, repeating or reordering any:
  there is one group for each task id, in the order the ids are first seen, and it holds the events
  of that task in their order.\<close>

theorem events_grouped_by_monitor:
  "group_events es = map (\<lambda>i. (i, filter (\<lambda>e. mn_task_id e = i) es)) (first_seen (map mn_task_id es)) \<and>
   mset (concat (map snd (group_events es))) = mset es"
proof -
  have "filter_mset (\<lambda>e. mn_task_id e \<in> mn_task_id ` set es) (mset es) = mset es"
    using filter_mset_cong [of "mset es" "mset es" "\<lambda>e. mn_task_id e \<in> mn_task_id ` set es" "\<lambda>_. True"] by simp
  then show ?thesis
    by (simp add: group_events_eq comp_def mset_groups)
qed

section \<open>The pipeline\<close>

definition live_limiter :: "monitor_rate_limiter \<Rightarrow> bool" where
  "live_limiter l \<longleftrightarrow> as_millis (refill_interval (bucket l)) \<noteq> 0"

lemma limiter_process_live:
  assumes "live_limiter l"
  shows "\<exists>r l'. limiter_process now l = Some (r, l') \<and> live_limiter l'"
  using assms by (auto simp: limiter_process_def try_consume_def live_limiter_def Let_def split: prod.splits)

lemma send_event_live:
  assumes "live_limiter (rate_limiter p)"
  shows "\<exists>p'. send_event i d w now text p = Some p' \<and> live_limiter (rate_limiter p') \<and>
           line_buffer p' = line_buffer p \<and> last_read_offset p' = last_read_offset p"
proof -
  obtain r l where "limiter_process now (rate_limiter p) = Some (r, l)" "live_limiter l"
    using limiter_process_live [OF assms] by blast
  then show ?thesis by (simp add: send_event_def process_event_def)
qed

lemma push_bytes_live:
  assumes "live_limiter (rate_limiter p)"
  shows "\<exists>p'. push_bytes i d w now nb p = Some p' \<and> live_limiter (rate_limiter p') \<and>
           last_read_offset p' = last_read_offset p \<and>
           (if nb = [] then line_buffer p' = line_buffer p
            else \<exists>ls. line_push (line_buffer p) nb = Some (ls, line_buffer p'))"
proof -
  obtain ls b where l: "line_push (line_buffer p) nb = Some (ls, b)"
    by (simp add: line_push_def extract_lines_eq)
  show ?thesis
    using assms l send_event_live [of "p\<lparr>line_buffer := b\<rparr>" i d w now "shown_batch (join [10] ls)"]
    by (auto simp: push_bytes_def)
qed

lemma flush_line_live:
  assumes "live_limiter (rate_limiter p)"
  shows "\<exists>p'. flush_line i d w now p = Some p' \<and> live_limiter (rate_limiter p') \<and>
           last_read_offset p' = last_read_offset p"
proof -
  obtain r b where f: "line_flush (line_buffer p) = Some (r, b)"
    using line_flush_not_None [of "line_buffer p"] by (cases "line_flush (line_buffer p)") auto
  show ?thesis
    using assms f send_event_live [of "p\<lparr>line_buffer := b\<rparr>" i d w now]
    by (cases r) (fastforce simp: flush_line_def)+
qed

lemma read_new_bytes_prefix:
  assumes "read_new_bytes tick off = (nb, off')" "\<forall>x. output_bytes tick = Some x \<longrightarrow> prefix x final"
    and "off \<le> length final"
  shows "off' = off + length nb" "nb = drop off (take off' final)" "off' \<le> length final"
proof -
  have "off' = off + length nb \<and> nb = drop off (take off' final) \<and> off' \<le> length final"
  proof (cases "nb = []")
    case True
    with assms(1,3) show ?thesis
      by (auto simp: read_new_bytes_def Let_def split: option.splits if_splits)
  next
    case False
    then obtain x n where x: "output_bytes tick = Some x" "nb = take n (drop off x)" "off' = off + n"
        "n \<le> length x - off" "off < length x"
      using assms(1) by (auto simp: read_new_bytes_def Let_def split: option.splits if_splits)
    obtain y where "final = x @ y" using assms(2) x(1) by (auto simp: prefix_def)
    with x show ?thesis by (simp add: drop_take)
  qed
  then show "off' = off + length nb" "nb = drop off (take off' final)" "off' \<le> length final" by blast+
qed

lemma drop_take_append:
  assumes "a \<le> b" "b \<le> c"
  shows "drop a (take b xs) @ drop b (take c xs) = drop a (take c xs)"
proof -
  have "take ((b - a) + (c - b)) (drop a xs) = take (b - a) (drop a xs) @ take (c - b) (drop (b - a) (drop a xs))"
    by (rule take_add)
  then show ?thesis using assms by (simp add: drop_take)
qed

text \<open>One turn: it never panics, moves the offset by the bytes it read, and pushes exactly these.\<close>

lemma pipeline_tick_step:
  assumes "live_limiter (rate_limiter p)"
    and "read_new_bytes tick (last_read_offset p) = (nb, off)"
  obtains go p' where "pipeline_tick i d tick p = Some (go, p')" "live_limiter (rate_limiter p')"
    "backend_alive tick \<longrightarrow> last_read_offset p' = off" "\<not> backend_alive tick \<longrightarrow> \<not> go \<and> p' = p"
    "backend_alive tick \<and> (snapshot tick = None \<or> (\<exists>w. snapshot tick = Some (True, w))) \<longrightarrow> \<not> go"
    "go \<longrightarrow> (if nb = [] then line_buffer p' = line_buffer p
             else \<exists>ls. line_push (line_buffer p) nb = Some (ls, line_buffer p'))"
proof (cases "backend_alive tick")
  case True
  define completed where "completed = (case snapshot tick of None \<Rightarrow> True | Some (c, _) \<Rightarrow> c)"
  define so where "so = (case snapshot tick of None \<Rightarrow> None | Some (_, w) \<Rightarrow> w)"
  define p1 where "p1 = (if so \<noteq> None then p\<lparr>last_owner := so\<rparr> else p)"
  define w where "w = (if so \<noteq> None then so else last_owner p1)"
  have p1: "rate_limiter p1 = rate_limiter p" "line_buffer p1 = line_buffer p"
      "last_read_offset p1 = last_read_offset p" by (simp_all add: p1_def)
  have "live_limiter (rate_limiter (p1\<lparr>last_read_offset := off\<rparr>))" using assms(1) p1 by simp
  moreover have lb: "line_buffer (p1\<lparr>last_read_offset := off\<rparr>) = line_buffer p"
      "last_read_offset (p1\<lparr>last_read_offset := off\<rparr>) = off" using p1 by simp_all
  ultimately
  obtain p3 where p3: "push_bytes i d w (tick_now tick) nb (p1\<lparr>last_read_offset := off\<rparr>) = Some p3"
      "live_limiter (rate_limiter p3)" "last_read_offset p3 = off"
      "if nb = [] then line_buffer p3 = line_buffer p
       else \<exists>ls. line_push (line_buffer p) nb = Some (ls, line_buffer p3)"
    using push_bytes_live [of "p1\<lparr>last_read_offset := off\<rparr>" i d w "tick_now tick" nb] unfolding lb by blast
  have tick: "pipeline_tick i d tick p =
      (if completed then map_option (Pair False) (flush_line i d w (tick_now tick) p3)
       else Some (\<not> is_killed (rate_limiter p3), p3))"
    unfolding pipeline_tick_def Let_def completed_def [symmetric] so_def [symmetric] p1_def [symmetric]
      w_def [symmetric] p1(3) assms(2) using True p3(1) by simp
  show ?thesis
  proof (cases completed)
    case True
    obtain p4 where "flush_line i d w (tick_now tick) p3 = Some p4" "live_limiter (rate_limiter p4)"
        "last_read_offset p4 = off" using flush_line_live [OF p3(2), of i d w "tick_now tick"] p3(3) by auto
    with True tick \<open>backend_alive tick\<close> show ?thesis by (intro that [of False p4]) simp_all
  next
    case False
    then have "\<not> (snapshot tick = None \<or> (\<exists>w. snapshot tick = Some (True, w)))"
      by (auto simp: completed_def split: option.splits)
    with False p3 tick \<open>backend_alive tick\<close> show ?thesis
      by (intro that [of "\<not> is_killed (rate_limiter p3)" p3]) auto
  qed
next
  case False
  with assms(1) show ?thesis by (intro that [of False p]) (simp_all add: pipeline_tick_def)
qed

lemma pipeline_loop_once:
  assumes "live_limiter (rate_limiter p)" "last_read_offset p \<le> length final"
    and "\<forall>tick \<in> set ticks. \<forall>x. output_bytes tick = Some x \<longrightarrow> prefix x final"
  shows "\<exists>go p' cs. pipeline_loop i d ticks p = Some (go, p') \<and> live_limiter (rate_limiter p') \<and>
    last_read_offset p \<le> last_read_offset p' \<and> last_read_offset p' \<le> length final \<and>
    concat cs = drop (last_read_offset p) (take (last_read_offset p') final) \<and>
    (go \<longrightarrow> (\<exists>ls. push_all (line_buffer p) cs = Some (ls, line_buffer p')))"
  using assms
proof (induction ticks arbitrary: p)
  case Nil
  then show ?case by (intro exI [of _ True] exI [of _ p] exI [of _ "[]"]) simp
next
  case (Cons tick ticks)
  obtain nb off where rd: "read_new_bytes tick (last_read_offset p) = (nb, off)" by fastforce
  have new: "off = last_read_offset p + length nb" "nb = drop (last_read_offset p) (take off final)"
      "off \<le> length final"
    using read_new_bytes_prefix [OF rd _ Cons.prems(2)] Cons.prems(3) by simp_all
  have le: "last_read_offset p \<le> off" using new(1) by simp
  obtain go p1 where p1: "pipeline_tick i d tick p = Some (go, p1)" "live_limiter (rate_limiter p1)"
      "backend_alive tick \<longrightarrow> last_read_offset p1 = off" "\<not> backend_alive tick \<longrightarrow> \<not> go \<and> p1 = p"
      "backend_alive tick \<and> (snapshot tick = None \<or> (\<exists>w. snapshot tick = Some (True, w))) \<longrightarrow> \<not> go"
      "go \<longrightarrow> (if nb = [] then line_buffer p1 = line_buffer p
             else \<exists>ls. line_push (line_buffer p) nb = Some (ls, line_buffer p1))"
    by (rule pipeline_tick_step [OF Cons.prems(1) rd, of i d])
  show ?case
  proof (cases go)
    case False
    show ?thesis
    proof (cases "backend_alive tick")
      case True
      with False p1(1-3) le new(3) new(2) [symmetric] show ?thesis
        by (intro exI [of _ False] exI [of _ p1] exI [of _ "[nb]"]) simp
    next
      case alive: False
      with False p1 Cons.prems show ?thesis
        by (intro exI [of _ False] exI [of _ p] exI [of _ "[]"]) simp
    qed
  next
    case True
    then have off: "last_read_offset p1 = off" using p1(3,4) by blast
    obtain go' p2 cs where IH: "pipeline_loop i d ticks p1 = Some (go', p2)" "live_limiter (rate_limiter p2)"
        "off \<le> last_read_offset p2" "last_read_offset p2 \<le> length final"
        "concat cs = drop off (take (last_read_offset p2) final)"
        "go' \<longrightarrow> (\<exists>ls. push_all (line_buffer p1) cs = Some (ls, line_buffer p2))"
      using Cons.IH [OF p1(2)] Cons.prems(3) new(3) off by auto
    have cat: "concat (nb # cs) = drop (last_read_offset p) (take (last_read_offset p2) final)"
      using new(2) [symmetric] IH(5) drop_take_append [OF le IH(3), of final] by simp
    have push: "push_all (line_buffer p) (if nb = [] then cs else nb # cs) = Some (ls', line_buffer p2)"
      if "push_all (line_buffer p1) cs = Some (ls, line_buffer p2)"
        "ls' = (if nb = [] then ls else fst (the (line_push (line_buffer p) nb)) @ ls)" for ls ls'
      using that p1(6) True by auto
    have "concat (if nb = [] then cs else nb # cs) = drop (last_read_offset p) (take (last_read_offset p2) final)"
      using cat by (cases "nb = []") simp_all
    with IH p1(1) True le push show ?thesis
      by (intro exI [of _ go'] exI [of _ p2] exI [of _ "if nb = [] then cs else nb # cs"]) auto
  qed
qed

text \<open>The pipeline never panics, and it processes every byte of the output at most once and in
  order. Over a file that only grows, whatever the reads return, the chunks handed to the line
  processor are together exactly the bytes between the start and the offset reached; while the
  pipeline runs, its buffer is what pushing these chunks leaves.\<close>

theorem output_processed_once:
  assumes "start \<le> length final"
    and "\<forall>tick \<in> set ticks. \<forall>x. output_bytes tick = Some x \<longrightarrow> prefix x final"
  shows "\<exists>go p cs. run_monitor_pipeline i d now name start ticks = Some (go, p) \<and>
    start \<le> last_read_offset p \<and> last_read_offset p \<le> length final \<and>
    concat cs = drop start (take (last_read_offset p) final) \<and>
    (go \<longrightarrow> (\<exists>ls. push_all [] cs = Some (ls, line_buffer p)))"
proof -
  have "live_limiter (rate_limiter (pipeline_new now name start))"
      "last_read_offset (pipeline_new now name start) = start" "line_buffer (pipeline_new now name start) = []"
    by (simp_all add: live_limiter_def pipeline_new_def limiter_new_def bucket_new_def RATE_LIMIT_REFILL_MS_def)
  then show ?thesis
    using pipeline_loop_once [of "pipeline_new now name start" final ticks i d] assms
    unfolding run_monitor_pipeline_def by auto
qed

definition sample_tick :: "bool \<Rightarrow> bytes \<Rightarrow> monitor_tick" where
  "sample_tick completed d = \<lparr>backend_alive = True, snapshot = Some (completed, None), output_bytes = Some d,
     read_returns = Some (length d), tick_now = 0\<rparr>"

lemma output_processed_once_witness:
  "\<exists>go p cs. run_monitor_pipeline [] [] 0 None 0 [sample_tick False [104, 105, 10], sample_tick True [104, 105, 10, 120]] =
     Some (go, p) \<and> last_read_offset p \<le> length [104, 105, 10, 120 :: nat] \<and>
     concat cs = drop 0 (take (last_read_offset p) [104, 105, 10, 120 :: nat])"
proof -
  have "\<forall>tick \<in> set [sample_tick False [104, 105, 10], sample_tick True [104, 105, 10, 120]].
      \<forall>x. output_bytes tick = Some x \<longrightarrow> prefix x [104, 105, 10, 120]"
    by (simp add: sample_tick_def)
  from output_processed_once [OF _ this, of 0 "[]" "[]" 0 None] show ?thesis by blast
qed

lemma pipeline_loop_append:
  "pipeline_loop i d ts p = Some (True, p') \<Longrightarrow> pipeline_loop i d (ts @ us) p = pipeline_loop i d us p'"
  by (induction ts arbitrary: p) (auto split: option.splits if_splits)

lemma pipeline_loop_live:
  assumes "live_limiter (rate_limiter p)" "pipeline_loop i d ts p = Some (go, p')"
  shows "live_limiter (rate_limiter p')"
  using assms
proof (induction ts arbitrary: p)
  case (Cons tick ts)
  obtain nb off where "read_new_bytes tick (last_read_offset p) = (nb, off)" by fastforce
  from pipeline_tick_step [OF Cons.prems(1) this, of i d] obtain go1 p1 where
    "pipeline_tick i d tick p = Some (go1, p1)" "live_limiter (rate_limiter p1)" by metis
  with Cons show ?case by (auto split: if_splits)
qed simp

text \<open>The end of a large output is lost. When the process has ended and more than one mebibyte of
  its output is still unread, the pipeline reads one more chunk and stops: it ends with an offset
  before the end of the file, whatever turns would follow, and the rest is never reported.\<close>

theorem large_tail_lost:
  assumes "run_monitor_pipeline i d now name start ticks = Some (True, p)"
    and "backend_alive tick" "snapshot tick = Some (True, w)" "output_bytes tick = Some x"
    and "last_read_offset p + 1048576 < length x"
  shows "\<exists>p'. run_monitor_pipeline i d now name start (ticks @ tick # later) = Some (False, p') \<and>
           last_read_offset p' \<le> last_read_offset p + 1048576 \<and> last_read_offset p' < length x"
proof -
  have "live_limiter (rate_limiter (pipeline_new now name start))"
    by (simp add: live_limiter_def pipeline_new_def limiter_new_def bucket_new_def RATE_LIMIT_REFILL_MS_def)
  then have live: "live_limiter (rate_limiter p)"
    using assms(1) pipeline_loop_live unfolding run_monitor_pipeline_def by blast
  obtain nb off where rd: "read_new_bytes tick (last_read_offset p) = (nb, off)" by fastforce
  then have "off \<le> last_read_offset p + 1048576"
    using assms(4) by (auto simp: read_new_bytes_def Let_def split: if_splits option.splits)
  moreover obtain p' where "pipeline_tick i d tick p = Some (False, p')" "last_read_offset p' = off"
    using assms(2,3) by (rule_tac pipeline_tick_step [OF live rd, of i d]) auto
  ultimately show ?thesis
    using assms(5) pipeline_loop_append [OF assms(1) [unfolded run_monitor_pipeline_def], of "tick # later"]
    by (simp add: run_monitor_pipeline_def)
qed

lemma large_tail_lost_witness:
  "\<exists>p'. run_monitor_pipeline [] [] 0 None 0 [sample_tick True (replicate 3000000 120)] = Some (False, p') \<and>
     last_read_offset p' \<le> 1048576"
  using large_tail_lost [of "[]" "[]" 0 None 0 "[]" "pipeline_new 0 None 0" "sample_tick True (replicate 3000000 120)"
      None "replicate 3000000 120" "[]"]
  by (simp add: sample_tick_def run_monitor_pipeline_def pipeline_new_def) blast

section \<open>Starting a monitor\<close>

text \<open>What starting a monitor does with its deadline. It starts exactly when the deadline is at most
  ten hours or the monitor is persistent (and the session and the terminal allow it); every other
  request is an error that starts nothing. A monitor that is not persistent runs at most for its
  deadline, ten hours when none is given, with one exception: a deadline of zero milliseconds, which
  runs for a year and is reported as persistent although that was not asked for.\<close>

theorem monitor_started:
  "monitor_run run_background folder call_id i =
     (if mi_persistent i \<noteq> Some True \<and> (\<exists>t. mi_timeout_ms i = Some t \<and> 36000000 < t)
      then Inl (InvalidArguments TimeoutExceedsMax)
      else case folder of
        Inl e \<Rightarrow> Inl (MissingResource e)
      | Inr f \<Rightarrow>
          (let forever = (mi_persistent i = Some True \<or> mi_timeout_ms i = Some 0);
               deadline = (if mi_persistent i = Some True then 0
                           else case mi_timeout_ms i of Some t \<Rightarrow> t | None \<Rightarrow> 36000000)
           in case run_background
                \<lparr>rq_command = mi_command i,
                 rq_timeout = (if forever then 365 * 24 * 3600 * 1000000000 else deadline * 1000000),
                 rq_output_byte_limit = 10485760,
                 rq_output_file = f @ lit ''/terminal/monitor-'' @ call_id @ lit ''.log'',
                 rq_display_command = lit ''[monitor] '' @ mi_description i\<rparr> of
                Inl e \<Rightarrow> Inl (ProcessManager e)
              | Inr t \<Rightarrow> Inr \<lparr>mo_task_id = t, mo_timeout_ms = deadline, mo_persistent = forever\<rparr>))"
proof -
  have p: "(case mi_persistent i of Some b \<Rightarrow> b | None \<Rightarrow> False) \<longleftrightarrow> mi_persistent i = Some True"
    by (simp split: option.splits)
  show ?thesis
    unfolding monitor_run_def validate_def resolved_timeout_ms_def p Let_def MAX_TIMEOUT_MS_def
      DEFAULT_TIMEOUT_MS_def from_millis_def from_secs_def
    by (cases "mi_timeout_ms i"; cases folder) (simp_all split: sum.split)
qed

end
