(* ===== verification/PermissionRules.thy ===== *)
theory PermissionRules
  imports Prelude
begin

text \<open>
  The vocabulary of permissions (\<^verbatim>\<open>ds-workspace/src/permission/types.rs\<close>) and the language of rule
  texts (\<^verbatim>\<open>rules.rs\<close>). Positions in a rule text count characters instead of bytes: the characters
  searched for are ASCII, so the slices are the same. The arguments of an MCP call are of a type
  \<open>'j\<close>, since no decision of the code below depends on their form.
\<close>

section \<open>Accesses, decisions and rules\<close>

datatype 'j access_kind =
    Read "rstr option"
  | Grep "rstr option" "rstr option"
  | Edit rstr
  | Bash rstr
  | MCPTool rstr 'j
  | WebFetch rstr
  | WebSearch rstr

datatype decision = Allow | Ask | FollowupMessage rstr | Reject rstr | PolicyDeny rstr | Cancelled

datatype edit_policy = EditAsk | EditAllow | EditReject

datatype prompt_policy = PromptAsk | PromptDeny | PromptAuto

datatype pattern_mode = Glob | Domain

datatype rule_action = RuleAllow | RuleDeny | RuleAsk

datatype tool_filter =
  AnyTool | BashTool | EditTool | ReadTool | GrepTool | McpTool | WebFetchTool | WebSearchTool

record permission_rule =
  pr_action :: rule_action
  pr_tool :: tool_filter
  pr_pattern :: "rstr option"
  pr_pattern_mode :: pattern_mode

record permission_config =
  pc_rules :: "permission_rule list"
  pc_prompt_policy :: prompt_policy

text \<open>The inputs of the tools, as far as an access is derived from them.\<close>

datatype 'j tool_input =
    InReadFile rstr
  | InListDir rstr
  | InGrep "rstr option" "rstr option"
  | InTodoWrite | InTaskOutput | InWaitTasks | InKillTask | InSkill
  | InWebSearch rstr
  | InSearchReplace rstr
  | InApplyPatch rstr
  | InHashlineEdit rstr
  | InWrite rstr
  | InBash rstr
  | InMonitor rstr
  | InMCPTool rstr 'j
  | InUseTool rstr 'j
  | InWebFetch rstr
  | InOther

fun access_of_input :: "'j tool_input \<Rightarrow> 'j access_kind" where
  "access_of_input (InReadFile p) = Read (Some p)"
| "access_of_input (InListDir d) = Read (Some d)"
| "access_of_input (InGrep p g) = Grep p g"
| "access_of_input InTodoWrite = Read None"
| "access_of_input InTaskOutput = Read None"
| "access_of_input InWaitTasks = Read None"
| "access_of_input InKillTask = Read None"
| "access_of_input InSkill = Read None"
| "access_of_input (InWebSearch q) = WebSearch q"
| "access_of_input (InSearchReplace p) = Edit p"
| "access_of_input (InApplyPatch patch) = Edit (lit ''apply_patch'')"
| "access_of_input (InHashlineEdit p) = Edit p"
| "access_of_input (InWrite p) = Edit p"
| "access_of_input (InBash c) = Bash c"
| "access_of_input (InMonitor c) = Bash c"
| "access_of_input (InMCPTool n j) = MCPTool n j"
| "access_of_input (InUseTool n j) = MCPTool n j"
| "access_of_input (InWebFetch u) = WebFetch u"
| "access_of_input InOther = Read None"

section \<open>Modes\<close>

datatype default_permission_mode =
  ModeDefault | AcceptEdits | Plan | ModeAuto | DontAsk | BypassPermissions

definition mode_from_str :: "rstr \<Rightarrow> rstr + default_permission_mode" where
  "mode_from_str s =
     (if s = lit ''default'' then Inr ModeDefault
      else if s = lit ''acceptEdits'' then Inr AcceptEdits
      else if s = lit ''plan'' then Inr Plan
      else if s = lit ''auto'' then Inr ModeAuto
      else if s = lit ''dontAsk'' then Inr DontAsk
      else if s = lit ''bypassPermissions'' then Inr BypassPermissions
      else Inl s)"

record default_mode_effects =
  ef_prompt_policy :: prompt_policy
  ef_accept_edits :: bool
  ef_bypass_permissions :: bool

definition no_effects :: default_mode_effects where
  "no_effects = \<lparr>ef_prompt_policy = PromptAsk, ef_accept_edits = False, ef_bypass_permissions = False\<rparr>"

fun effects :: "default_permission_mode \<Rightarrow> default_mode_effects" where
  "effects AcceptEdits = no_effects\<lparr>ef_accept_edits := True\<rparr>"
| "effects BypassPermissions = no_effects\<lparr>ef_bypass_permissions := True\<rparr>"
| "effects ModeDefault = no_effects"
| "effects Plan = no_effects"
| "effects DontAsk = no_effects\<lparr>ef_prompt_policy := PromptDeny\<rparr>"
| "effects ModeAuto = no_effects\<lparr>ef_prompt_policy := PromptAuto\<rparr>"

section \<open>Rule texts\<close>

datatype rule_parse_error =
  UnsupportedToolPrefix rstr | UnknownToolPrefix rstr | MalformedRule rstr

definition tool_name_to_filter :: "rstr \<Rightarrow> tool_filter option" where
  "tool_name_to_filter name =
     (if name = lit ''Bash'' then Some BashTool
      else if name = lit ''Read'' \<or> name = lit ''NotebookRead'' then Some ReadTool
      else if name = lit ''Edit'' \<or> name = lit ''Write'' \<or> name = lit ''NotebookEdit'' then Some EditTool
      else if name = lit ''MCPTool'' then Some McpTool
      else if name = lit ''Grep'' \<or> name = lit ''Glob'' then Some GrepTool
      else if name = lit ''WebFetch'' then Some WebFetchTool
      else if name = lit ''WebSearch'' then Some WebSearchTool
      else None)"

abbreviation backslash :: rune where
  "backslash \<equiv> 92"

abbreviation lparen :: rune where
  "lparen \<equiv> 40"

abbreviation rparen :: rune where
  "rparen \<equiv> 41"

definition is_unescaped :: "rstr \<Rightarrow> nat \<Rightarrow> bool" where
  "is_unescaped s pos = even (length (takeWhile (\<lambda>c. c = backslash) (rev (take pos s))))"

definition find_first_unescaped :: "rstr \<Rightarrow> rune \<Rightarrow> nat option" where
  "find_first_unescaped s target =
     find (\<lambda>i. s ! i = target \<and> is_unescaped s i) [0..<length s]"

definition find_last_unescaped :: "rstr \<Rightarrow> rune \<Rightarrow> nat option" where
  "find_last_unescaped s target =
     find (\<lambda>i. s ! i = target \<and> is_unescaped s i) (rev [0..<length s])"

definition unescape_rule_content :: "rstr \<Rightarrow> rstr" where
  "unescape_rule_content s =
     (if backslash \<notin> set s then s
      else replace_all [backslash, backslash] [backslash]
             (replace_all [backslash, rparen] [rparen] (replace_all [backslash, lparen] [lparen] s)))"

definition strip_domain_prefix :: "rstr \<Rightarrow> rstr \<times> pattern_mode" where
  "strip_domain_prefix pattern =
     (case strip_prefix pattern (lit ''domain:'') of
        Some domain \<Rightarrow> (domain, Domain)
      | None \<Rightarrow> (pattern, Glob))"

definition strip_bash_colon_wildcard :: "rstr \<Rightarrow> rstr" where
  "strip_bash_colon_wildcard pattern =
     (case strip_suffix pattern (lit '':*'') of Some p \<Rightarrow> p | None \<Rightarrow> pattern)"

definition non_empty :: "rstr \<Rightarrow> rstr option" where
  "non_empty s = (if s = [] then None else Some s)"

definition parse_permission_rule :: "rstr \<Rightarrow> rule_action \<Rightarrow> rule_parse_error + permission_rule" where
  "parse_permission_rule text action =
     (let rule = trim text
      in case find_first_unescaped rule lparen of
           Some open_paren \<Rightarrow>
             (let prefix_trimmed = trim (take open_paren rule);
                  content_and_close = drop (open_paren + 1) rule
              in case find_last_unescaped content_and_close rparen of
                   None \<Rightarrow> Inl (MalformedRule (lit ''missing closing parenthesis''))
                 | Some close_paren \<Rightarrow>
                     (let raw_content = trim (take close_paren content_and_close);
                          pattern = (if raw_content = [] \<or> raw_content = lit ''*'' then []
                                     else unescape_rule_content raw_content)
                      in case tool_name_to_filter prefix_trimmed of
                           None \<Rightarrow>
                             if prefix_trimmed = lit ''EnterWorktree''
                             then Inl (UnsupportedToolPrefix prefix_trimmed)
                             else Inl (UnknownToolPrefix prefix_trimmed)
                         | Some tool \<Rightarrow>
                             (let pattern = (if tool = BashTool then strip_bash_colon_wildcard pattern
                                             else pattern);
                                  (pattern, mode) = strip_domain_prefix pattern
                              in Inr \<lparr>pr_action = action, pr_tool = tool,
                                      pr_pattern = non_empty pattern, pr_pattern_mode = mode\<rparr>)))
         | None \<Rightarrow>
             (case tool_name_to_filter rule of
                Some tool \<Rightarrow>
                  Inr \<lparr>pr_action = action, pr_tool = tool, pr_pattern = None, pr_pattern_mode = Glob\<rparr>
              | None \<Rightarrow>
                  Inr \<lparr>pr_action = action, pr_tool = AnyTool, pr_pattern = non_empty rule,
                       pr_pattern_mode = Glob\<rparr>))"

section \<open>Escapes\<close>

text \<open>The reading that the documentation of the escapes gives: one pass from the left.\<close>

fun unescape_pass :: "rstr \<Rightarrow> rstr" where
  "unescape_pass [] = []"
| "unescape_pass [c] = [c]"
| "unescape_pass (c # d # s) =
     (if c = backslash \<and> d \<in> {backslash, lparen, rparen} then d # unescape_pass s
      else c # unescape_pass (d # s))"

definition unescape_passes :: "rstr \<Rightarrow> rstr" where
  "unescape_passes s =
     replace_all [backslash, backslash] [backslash]
       (replace_all [backslash, rparen] [rparen] (replace_all [backslash, lparen] [lparen] s))"

lemma replace_pair_other [simp]: "c \<noteq> a \<Longrightarrow> replace_all [a, b] r (c # s) = c # replace_all [a, b] r s"
  by simp

lemma replace_pair_hit [simp]: "replace_all [a, b] r (a # b # s) = r @ replace_all [a, b] r s"
  by simp

lemma replace_pair_miss [simp]:
  "d \<noteq> b \<Longrightarrow> replace_all [a, b] r (a # d # s) = a # replace_all [a, b] r (d # s)"
  by simp

lemma replace_pair_single [simp]: "replace_all [a, b] r [c] = [c]"
  by simp

declare replace_all.simps(2) [simp del]

lemma replace_pair_head:
  assumes "s = [] \<or> hd s \<noteq> b" "b \<noteq> a"
  shows "replace_all [a, b] [b] (a # s) = a # replace_all [a, b] [b] s"
  using assms by (cases s) auto

lemma replace_pair_start:
  "s = [] \<or> hd s \<noteq> d \<Longrightarrow> d \<notin> {a, b} \<Longrightarrow>
     replace_all [a, b] [b] s = [] \<or> hd (replace_all [a, b] [b] s) \<noteq> d"
  by (induction "[a, b]" "[b]" s rule: replace_all.induct) (auto simp: replace_all.simps(2))

lemma unescape_passes_backslashes: "unescape_passes (backslash # backslash # s) = backslash # unescape_passes s"
proof (cases "s = [] \<or> hd s \<notin> {lparen, rparen}")
  case True
  let ?f1 = "replace_all [backslash, lparen] [lparen]" and ?f2 = "replace_all [backslash, rparen] [rparen]"
  have f1: "?f1 (backslash # backslash # s) = backslash # backslash # ?f1 s"
    using True replace_pair_head [of s lparen backslash] by auto
  have "?f1 s = [] \<or> hd (?f1 s) \<noteq> rparen"
    using True by (intro replace_pair_start) auto
  then have "?f2 (backslash # backslash # ?f1 s) = backslash # backslash # ?f2 (?f1 s)"
    by (simp add: replace_pair_head)
  then show ?thesis by (simp add: unescape_passes_def f1)
next
  case False
  then show ?thesis by (cases s) (auto simp: unescape_passes_def)
qed

lemma unescape_passes_eq: "unescape_passes s = unescape_pass s"
proof (induction s rule: unescape_pass.induct)
  case (3 c d s)
  consider "c \<noteq> backslash" | "c = backslash" "d = backslash" | "c = backslash" "d \<in> {lparen, rparen}"
    | "c = backslash" "d \<notin> {backslash, lparen, rparen}" by blast
  then show ?case
  proof cases
    case 1
    then have "unescape_passes (c # d # s) = c # unescape_passes (d # s)" by (simp add: unescape_passes_def)
    with 1 3 show ?thesis by simp
  next
    case 2
    with 3 show ?thesis by (simp add: unescape_passes_backslashes)
  next
    case 3
    then have "unescape_passes (c # d # s) = d # unescape_passes s" by (auto simp: unescape_passes_def)
    with 3 "3.IH" show ?thesis by auto
  next
    case 4
    then have "unescape_passes (c # d # s) = c # unescape_passes (d # s)" by (simp add: unescape_passes_def)
    with 4 3 show ?thesis by simp
  qed
qed (simp_all add: unescape_passes_def)

lemma unescape_pass_id: "backslash \<notin> set s \<Longrightarrow> unescape_pass s = s"
  by (induction s rule: unescape_pass.induct) auto

lemma unescape_rule_content_eq: "unescape_rule_content s = unescape_pass s"
  unfolding unescape_rule_content_def unescape_passes_def [symmetric] unescape_passes_eq
  by (simp add: unescape_pass_id)

section \<open>Writing and reading rules\<close>

text \<open>A rule text for a tool and a pattern: the three special characters are escaped.\<close>

fun escape_rule_content :: "rstr \<Rightarrow> rstr" where
  "escape_rule_content [] = []"
| "escape_rule_content (c # s) =
     (if c \<in> {backslash, lparen, rparen} then [backslash, c] else [c]) @ escape_rule_content s"

fun filter_name :: "tool_filter \<Rightarrow> rstr" where
  "filter_name AnyTool = []"
| "filter_name BashTool = lit ''Bash''"
| "filter_name EditTool = lit ''Edit''"
| "filter_name ReadTool = lit ''Read''"
| "filter_name GrepTool = lit ''Grep''"
| "filter_name McpTool = lit ''MCPTool''"
| "filter_name WebFetchTool = lit ''WebFetch''"
| "filter_name WebSearchTool = lit ''WebSearch''"

definition rule_text :: "tool_filter \<Rightarrow> rstr \<Rightarrow> rstr" where
  "rule_text tool p = filter_name tool @ [lparen] @ escape_rule_content p @ [rparen]"

lemma unescape_escape: "unescape_pass (escape_rule_content p) = p"
proof (induction p)
  case (Cons c p)
  have "unescape_pass (c # escape_rule_content p) = c # unescape_pass (escape_rule_content p)"
    if "c \<noteq> backslash" using that by (cases "escape_rule_content p") auto
  with Cons show ?case by auto
qed simp

lemma escape_eq_Nil [simp]: "escape_rule_content p = [] \<longleftrightarrow> p = []"
  by (cases p) auto

lemma escape_rule_content_append:
  "escape_rule_content (p @ q) = escape_rule_content p @ escape_rule_content q"
  by (induction p) auto

lemma trailing_backslashes_even:
  "even (length (takeWhile (\<lambda>c. c = backslash) (rev (escape_rule_content p))))"
proof (induction p rule: rev_induct)
  case (snoc c p)
  then show ?case by (auto simp: escape_rule_content_append)
qed simp

lemma find_last_closing: "find_last_unescaped (escape_rule_content p @ [rparen]) rparen = Some (length (escape_rule_content p))"
  by (simp add: find_last_unescaped_def is_unescaped_def trailing_backslashes_even nth_append)

lemma find_upt_first:
  assumes "n < m" "P n" "\<forall>i < n. \<not> P i"
  shows "find P [0..<m] = Some n"
  unfolding find_Some_iff using assms by (intro exI [of _ n]) simp

lemma find_first_opening:
  assumes "set name \<inter> {lparen, backslash} = {}"
  shows "find_first_unescaped (name @ lparen # rest) lparen = Some (length name)"
  unfolding find_first_unescaped_def
proof (rule find_upt_first)
  have "takeWhile (\<lambda>c. c = backslash) (rev name) = []"
    using assms by (cases "rev name") (auto simp: disjoint_iff dest: arg_cong [of _ _ set])
  then show "(name @ lparen # rest) ! length name = lparen \<and> is_unescaped (name @ lparen # rest) (length name)"
    by (simp add: is_unescaped_def nth_append)
  show "\<forall>i < length name. \<not> ((name @ lparen # rest) ! i = lparen \<and> is_unescaped (name @ lparen # rest) i)"
    using assms by (auto simp: nth_append dest: nth_mem)
qed simp

lemma tool_name_chars: "set (filter_name tool) \<inter> {lparen, rparen, backslash} = {}"
  by (cases tool) (simp_all add: lit_def)

lemma trim_id: "s \<noteq> [] \<Longrightarrow> \<not> is_whitespace (hd s) \<Longrightarrow> \<not> is_whitespace (last s) \<Longrightarrow> trim s = s"
proof -
  assume a: "s \<noteq> []" "\<not> is_whitespace (hd s)" "\<not> is_whitespace (last s)"
  have "trim_end s = s" using a(1,3) by (cases s rule: rev_cases) (simp_all add: trim_end_def)
  moreover have "trim_start s = s" using a(1,2) by (cases s) (simp_all add: trim_start_def)
  ultimately show ?thesis by (simp add: trim_def)
qed

lemma whitespace_special [simp]:
  "\<not> is_whitespace backslash" "\<not> is_whitespace lparen" "\<not> is_whitespace rparen"
  by (simp_all add: is_whitespace_def)

lemma trim_tool_name: "tool \<noteq> AnyTool \<Longrightarrow> trim (filter_name tool) = filter_name tool"
  by (cases tool) (simp_all add: trim_id lit_simps is_whitespace_def)

lemma tool_name_filter: "tool \<noteq> AnyTool \<Longrightarrow> tool_name_to_filter (filter_name tool) = Some tool"
  by (cases tool) (simp_all add: tool_name_to_filter_def lit_def)

lemma escape_hd: "p \<noteq> [] \<Longrightarrow> hd (escape_rule_content p) = (if hd p \<in> {lparen, rparen} then backslash else hd p)"
  by (cases p) auto

lemma escape_last: "p \<noteq> [] \<Longrightarrow> last (escape_rule_content p) = last p"
  by (cases p rule: rev_cases) (auto simp: escape_rule_content_append)

lemma trim_escape:
  assumes "p \<noteq> []" "\<not> is_whitespace (hd p)" "\<not> is_whitespace (last p)"
  shows "trim (escape_rule_content p) = escape_rule_content p"
  using assms by (intro trim_id) (auto simp: escape_hd escape_last)

lemma trim_rule_text: "tool \<noteq> AnyTool \<Longrightarrow> trim (rule_text tool p) = rule_text tool p"
  by (intro trim_id) (cases tool; simp add: rule_text_def lit_simps is_whitespace_def)+

lemma escape_star: "escape_rule_content p = lit ''*'' \<longleftrightarrow> p = lit ''*''"
proof
  assume e: "escape_rule_content p = lit ''*''"
  have "p = unescape_pass (lit ''*'')" using unescape_escape [of p] by (simp add: e)
  then show "p = lit ''*''" by (simp add: lit_simps)
qed (simp add: lit_simps)

lemma parse_rule_text:
  assumes "tool \<noteq> AnyTool" "p \<noteq> []" "\<not> is_whitespace (hd p)" "\<not> is_whitespace (last p)" "p \<noteq> lit ''*''"
  shows "parse_permission_rule (rule_text tool p) action =
    (let (q, mode) = strip_domain_prefix (if tool = BashTool then strip_bash_colon_wildcard p else p)
     in Inr \<lparr>pr_action = action, pr_tool = tool, pr_pattern = non_empty q, pr_pattern_mode = mode\<rparr>)"
proof -
  have "set (filter_name tool) \<inter> {lparen, backslash} = {}" using tool_name_chars by blast
  from find_first_opening [OF this]
  have "find_first_unescaped (rule_text tool p) lparen = Some (length (filter_name tool))"
    by (simp add: rule_text_def)
  moreover have "drop (length (filter_name tool) + 1) (rule_text tool p) = escape_rule_content p @ [rparen]"
    "take (length (filter_name tool)) (rule_text tool p) = filter_name tool" by (simp_all add: rule_text_def)
  ultimately show ?thesis
    using assms
    by (simp add: parse_permission_rule_def trim_rule_text find_last_closing trim_tool_name
        tool_name_filter trim_escape escape_star unescape_rule_content_eq unescape_escape Let_def)
qed

text \<open>Every pattern can be written down as a rule and is read back. For a tool and a pattern that
  does not begin or end in white space and is not the lone star, the text with parentheses and
  backslashes escaped is parsed into a rule for that tool with exactly that pattern, whatever
  characters it holds; the two idioms (a trailing colon and star for commands, a leading
  \<open>domain:\<close>) are the only further reading. Undoing the escapes in three passes is the same as
  one pass from the left, as they are documented.\<close>

theorem rule_text_roundtrip:
  assumes "tool \<noteq> AnyTool" "p \<noteq> []" "\<not> is_whitespace (hd p)" "\<not> is_whitespace (last p)" "p \<noteq> lit ''*''"
  shows "parse_permission_rule (rule_text tool p) action =
      (let (q, mode) = strip_domain_prefix (if tool = BashTool then strip_bash_colon_wildcard p else p)
       in Inr \<lparr>pr_action = action, pr_tool = tool, pr_pattern = non_empty q, pr_pattern_mode = mode\<rparr>) \<and>
    unescape_rule_content s = unescape_pass s"
  using parse_rule_text [OF assms] unescape_rule_content_eq by blast

lemma rule_text_roundtrip_witness:
  "parse_permission_rule (rule_text ReadTool [97, lparen, backslash, rparen]) RuleDeny =
     Inr \<lparr>pr_action = RuleDeny, pr_tool = ReadTool, pr_pattern = Some [97, lparen, backslash, rparen],
       pr_pattern_mode = Glob\<rparr>"
  using rule_text_roundtrip [of ReadTool "[97, lparen, backslash, rparen]" RuleDeny]
  by (simp add: lit_simps is_whitespace_def strip_domain_prefix_def strip_prefix_def starts_with_def non_empty_def)

end
