(* ===== verification/BashCommand.thy ===== *)
theory BashCommand
  imports Prelude
begin

text \<open>
  How a shell script is taken apart before its permission is decided
  (\<^verbatim>\<open>ds-workspace/src/permission/bash_command_splitting.rs\<close>): from the syntax tree of the script to
  the words of its commands, and from the words of a command to the program behind wrappers such as
  \<^verbatim>\<open>timeout\<close>. The parser is tree-sitter with its bash grammar, an argument: it gives a tree or none.
\<close>

section \<open>Syntax trees\<close>

datatype ts_node = Node (kind: rstr) (is_named: bool) (start_byte: nat) (end_byte: nat)
  (children: "ts_node list")

record ts_tree =
  root_node :: ts_node
  has_error :: bool

type_synonym shell_parser = "rstr \<Rightarrow> ts_tree option"

definition named_children :: "ts_node \<Rightarrow> ts_node list" where
  "named_children n = filter is_named (children n)"

text \<open>\<^verbatim>\<open>Node::utf8_text\<close>: the bytes of a node, if they are UTF-8.\<close>

definition utf8_text :: "rstr \<Rightarrow> ts_node \<Rightarrow> rstr option" where
  "utf8_text src n = from_utf8 (take (end_byte n - start_byte n) (drop (start_byte n) (as_bytes src)))"

section \<open>Commands of a script\<close>

definition ALLOWED_KINDS :: "rstr list" where
  "ALLOWED_KINDS = map lit
     [''program'', ''list'', ''pipeline'', ''command'', ''command_name'', ''word'', ''string'',
      ''string_content'', ''raw_string'', ''number'', ''concatenation'', ''variable_assignment'',
      ''variable_name'', ''redirected_statement'', ''file_redirect'', ''file_descriptor'', ''comment'',
      ''heredoc_redirect'', ''heredoc_start'', ''heredoc_body'', ''heredoc_content'', ''heredoc_end'']"

definition double_quote :: rstr where
  "double_quote = [34]"

definition single_quote :: rstr where
  "single_quote = [39]"

definition ALLOWED_PUNCT_TOKENS :: "rstr list" where
  "ALLOWED_PUNCT_TOKENS = map lit [''&&'', ''||'', '';'', ''|''] @ [double_quote, single_quote] @
     map lit [''='', ''>'', ''>>'', ''<'', ''<<'', ''>&'', ''&>'', ''&>>'']"

definition node_allowed :: "ts_node \<Rightarrow> bool" where
  "node_allowed n =
     (if is_named n then kind n \<in> set ALLOWED_KINDS
      else if (\<exists>c \<in> set (kind n). c \<in> set (lit ''&;|'')) \<and> kind n \<notin> set ALLOWED_PUNCT_TOKENS then False
      else kind n \<in> set ALLOWED_PUNCT_TOKENS \<or> trim (kind n) = [])"

definition is_command_node :: "ts_node \<Rightarrow> bool" where
  "is_command_node n \<longleftrightarrow> is_named n \<and> kind n = lit ''command''"

lemma size_children: "(\<Sum>n\<leftarrow>children t. size n) < size t"
proof (cases t)
  case (Node k b s e ch)
  have "(\<Sum>n\<leftarrow>ch. size n) \<le> size_list size ch" by (induction ch) auto
  then show ?thesis by (simp add: Node)
qed

text \<open>The walk over the tree with a stack, whose top is the head of the list here.\<close>

function command_walk :: "ts_node list \<Rightarrow> ts_node list \<Rightarrow> ts_node list option" where
  "command_walk [] command_nodes = Some command_nodes"
| "command_walk (node # stack) command_nodes =
     (if node_allowed node then
        command_walk (rev (children node) @ stack)
          (if is_command_node node then command_nodes @ [node] else command_nodes)
      else None)"
  by pat_completeness auto

termination command_walk
  by (relation "measure (\<lambda>(stack, _). \<Sum>n\<leftarrow>stack. size n)") (simp_all add: size_children rev_map [symmetric] sum_list_rev)

record plain_command =
  pc_words :: "rstr list"
  pc_span_start :: nat
  pc_span_end :: nat

text \<open>The text of one child as a word, with the node that its span covers.\<close>

definition child_word :: "rstr \<Rightarrow> ts_node \<Rightarrow> (rstr \<times> ts_node) option" where
  "child_word src child =
     (if kind child = lit ''command_name'' then
        (case named_children child of
           [] \<Rightarrow> None
         | word_node # _ \<Rightarrow>
             if kind word_node \<noteq> lit ''word'' then None
             else map_option (\<lambda>text. (text, word_node)) (utf8_text src word_node))
      else if kind child = lit ''word'' \<or> kind child = lit ''number'' then
        map_option (\<lambda>text. (text, child)) (utf8_text src child)
      else if kind child = lit ''string'' then
        (case children child of
           [q1, content_node, q2] \<Rightarrow>
             if kind q1 = double_quote \<and> kind content_node = lit ''string_content'' \<and> kind q2 = double_quote
             then map_option (\<lambda>text. (text, child)) (utf8_text src content_node)
             else None
         | _ \<Rightarrow> None)
      else if kind child = lit ''raw_string'' then
        (case utf8_text src child of
           None \<Rightarrow> None
         | Some raw_string \<Rightarrow>
             (case strip_prefix raw_string single_quote of
                None \<Rightarrow> None
              | Some s \<Rightarrow> map_option (\<lambda>text. (text, child)) (strip_suffix s single_quote)))
      else if kind child = lit ''concatenation'' then
        map_option (\<lambda>text. (text, child)) (utf8_text src child)
      else None)"

fun plain_words :: "rstr \<Rightarrow> ts_node list \<Rightarrow> rstr list \<Rightarrow> nat option \<Rightarrow> nat option
    \<Rightarrow> (rstr list \<times> nat option \<times> nat option) option" where
  "plain_words src [] words span_start span_end = Some (words, span_start, span_end)"
| "plain_words src (child # rest) words span_start span_end =
     (if kind child = lit ''variable_assignment'' then plain_words src rest words span_start span_end
      else
        (case child_word src child of
           None \<Rightarrow> None
         | Some (text, covered) \<Rightarrow>
             plain_words src rest (words @ [text])
               (case span_start of None \<Rightarrow> Some (start_byte covered) | Some n \<Rightarrow> Some n)
               (Some (end_byte covered))))"

definition parse_plain_command_from_node :: "rstr \<Rightarrow> ts_node \<Rightarrow> plain_command option" where
  "parse_plain_command_from_node src cmd =
     (if kind cmd \<noteq> lit ''command'' then None
      else map_option (\<lambda>(words, span_start, span_end).
               \<lparr>pc_words = words,
                pc_span_start = (case span_start of Some n \<Rightarrow> n | None \<Rightarrow> start_byte cmd),
                pc_span_end = (case span_end of Some n \<Rightarrow> n | None \<Rightarrow> end_byte cmd)\<rparr>)
             (plain_words src (named_children cmd) [] None None))"

fun all_or_none :: "('a \<Rightarrow> 'b option) \<Rightarrow> 'a list \<Rightarrow> 'b list option" where
  "all_or_none f [] = Some []"
| "all_or_none f (x # xs) =
     (case f x of None \<Rightarrow> None | Some y \<Rightarrow> map_option ((#) y) (all_or_none f xs))"

definition try_parse_word_only_commands_sequence :: "ts_tree \<Rightarrow> rstr \<Rightarrow> plain_command list option" where
  "try_parse_word_only_commands_sequence tree src =
     (if has_error tree then None
      else
        (case command_walk [root_node tree] [] of
           None \<Rightarrow> None
         | Some command_nodes \<Rightarrow>
             all_or_none (parse_plain_command_from_node src) (sort_key start_byte command_nodes)))"

definition all_commands_from_script :: "shell_parser \<Rightarrow> rstr \<Rightarrow> plain_command list option" where
  "all_commands_from_script parse script =
     (case parse script of
        None \<Rightarrow> None
      | Some tree \<Rightarrow> try_parse_word_only_commands_sequence tree script)"

section \<open>Wrappers\<close>

definition is_setup_command :: "rstr list \<Rightarrow> bool" where
  "is_setup_command cmd =
     (case cmd of
        [] \<Rightarrow> True
      | w # _ \<Rightarrow> w \<in> lit ` {''cd'', ''pushd'', ''popd'', ''export'', ''unset'', ''set'', ''sleep'', ''timeout''})"

definition is_ascii_alphabetic :: "rune \<Rightarrow> bool" where
  "is_ascii_alphabetic c \<longleftrightarrow> 65 \<le> c \<and> c \<le> 90 \<or> 97 \<le> c \<and> c \<le> 122"

definition is_env_assignment :: "rstr \<Rightarrow> bool" where
  "is_env_assignment tok =
     (case position (\<lambda>c. c = 61) tok of
        None \<Rightarrow> False
      | Some eq \<Rightarrow>
          (case take eq tok of
             [] \<Rightarrow> False
           | b # name \<Rightarrow>
               (is_ascii_alphabetic b \<or> b = 95) \<and>
               list_all (\<lambda>b. is_ascii_alphabetic b \<or> is_digit b \<or> b = 95) (b # name)))"

text \<open>The basename: what follows the last slash or backslash.\<close>

definition basename :: "rstr \<Rightarrow> rstr" where
  "basename w = rev (takeWhile (\<lambda>c. c \<noteq> 47 \<and> c \<noteq> 92) (rev w))"

function env_scan_from :: "rstr list \<Rightarrow> nat \<Rightarrow> rstr option \<Rightarrow> rstr option \<times> nat" where
  "env_scan_from cmd i chdir =
     (if i < length cmd then
        let tok = cmd ! i
        in if tok = lit ''--'' then (chdir, i + 1)
           else if tok \<noteq> lit ''-'' \<and> starts_with tok (lit ''-'') then
             if tok = lit ''-C'' \<or> tok = lit ''--chdir'' then
               env_scan_from cmd (i + 2) (if i + 1 < length cmd then Some (cmd ! (i + 1)) else None)
             else if starts_with tok (lit ''--chdir='') then
               env_scan_from cmd (i + 1) (Some (drop 8 tok))
             else if starts_with tok (lit ''-C'') \<and> drop 2 tok \<noteq> [] then
               env_scan_from cmd (i + 1) (Some (drop 2 tok))
             else if tok \<in> lit ` {''-u'', ''--unset'', ''-S'', ''--split-string''} then
               env_scan_from cmd (i + 2) chdir
             else env_scan_from cmd (i + 1) chdir
           else if is_env_assignment tok then env_scan_from cmd (i + 1) chdir
           else (chdir, i)
      else (chdir, i))"
  by pat_completeness auto

termination env_scan_from
  by (relation "measure (\<lambda>(cmd, i, _). length cmd - i)") auto

declare env_scan_from.simps [simp del]

definition env_scan :: "rstr list \<Rightarrow> rstr option \<times> nat" where
  "env_scan cmd = env_scan_from cmd 1 None"

text \<open>The loops over the options of a wrapper: a listed option takes the next word along.\<close>

function skip_options :: "rstr list \<Rightarrow> rstr list \<Rightarrow> nat \<Rightarrow> nat" where
  "skip_options takes_value cmd i =
     (if i < length cmd \<and> starts_with (cmd ! i) (lit ''-'') then
        skip_options takes_value cmd (if cmd ! i \<in> set takes_value then i + 2 else i + 1)
      else i)"
  by pat_completeness auto

termination skip_options
  by (relation "measure (\<lambda>(_, cmd, i). length cmd - i)") auto

declare skip_options.simps [simp del]

definition inner_from :: "rstr list \<Rightarrow> nat \<Rightarrow> rstr list option" where
  "inner_from cmd i = (if i < length cmd then Some (drop i cmd) else None)"

definition strip_wrapper_command :: "rstr list \<Rightarrow> rstr list option" where
  "strip_wrapper_command cmd =
     (case cmd of
        [] \<Rightarrow> None
      | w # _ \<Rightarrow>
          (let head = basename w
           in if head = lit ''timeout'' then
                (let i = skip_options (map lit [''-k'', ''-s'', ''--kill-after'', ''--signal'']) cmd 1
                 in if length cmd \<le> i then None else inner_from cmd (i + 1))
              else if head = lit ''nice'' then
                inner_from cmd (skip_options (map lit [''-n'', ''--adjustment'']) cmd 1)
              else if head = lit ''ionice'' then
                inner_from cmd (skip_options (map lit [''-c'', ''-n'', ''-p'', ''-P'', ''-u'', ''--class'',
                  ''--classdata'', ''--pid'', ''--pgid'', ''--uid'']) cmd 1)
              else if head = lit ''chrt'' then
                (let i = skip_options [] cmd 1
                 in if length cmd \<le> i then None else inner_from cmd (i + 1))
              else if head = lit ''stdbuf'' then
                inner_from cmd (skip_options (map lit [''-i'', ''-o'', ''-e'']) cmd 1)
              else if head = lit ''env'' then inner_from cmd (snd (env_scan cmd))
              else None))"

definition is_wrapper_command :: "rstr list \<Rightarrow> bool" where
  "is_wrapper_command words =
     (case words of
        [] \<Rightarrow> False
      | w # _ \<Rightarrow> basename w \<in> lit ` {''timeout'', ''nice'', ''ionice'', ''chrt'', ''stdbuf'', ''env''})"

fun unwrap_rounds :: "nat \<Rightarrow> rstr list \<Rightarrow> rstr list" where
  "unwrap_rounds 0 current = current"
| "unwrap_rounds (Suc n) current =
     (case strip_wrapper_command current of
        Some inner \<Rightarrow> unwrap_rounds n inner
      | None \<Rightarrow> current)"

definition unwrap_wrappers :: "rstr list \<Rightarrow> rstr list" where
  "unwrap_wrappers words = unwrap_rounds 8 words"

fun chdir_rounds :: "nat \<Rightarrow> rstr list \<Rightarrow> bool" where
  "chdir_rounds 0 current = False"
| "chdir_rounds (Suc n) current =
     (if current \<noteq> [] \<and> basename (hd current) = lit ''env'' \<and> fst (env_scan current) \<noteq> None then True
      else (case strip_wrapper_command current of
              Some inner \<Rightarrow> chdir_rounds n inner
            | None \<Rightarrow> False))"

definition wrapper_has_chdir :: "rstr list \<Rightarrow> bool" where
  "wrapper_has_chdir words = chdir_rounds 8 words"

end
