(* ===== verification/PermissionManager.thy ===== *)
theory PermissionManager
  imports PermissionPolicy
begin

text \<open>
  The permission manager (\<^verbatim>\<open>ds-workspace/src/permission/manager.rs\<close>) with the state it keeps
  (\<^verbatim>\<open>state.rs\<close>), the fast path of auto mode (\<^verbatim>\<open>auto_mode.rs\<close>) and the allow-list of hosts
  (\<^verbatim>\<open>web_fetch/domain.rs\<close>). The actor handles one command at a time. What happens outside of it
  during a request is an argument: the verdict of the classifier, the answer of the user, the
  decision on the files a shell script touches and the sandbox's flag. A hash set is a list
  without repetition; its order only picks which of several prefixes a rejection names.
\<close>

section \<open>State\<close>

record permission_state =
  edit_policy :: edit_policy
  allow_bash_execute :: bool
  allowed_bash_commands :: "rstr list"
  disallowed_bash_commands :: "rstr list"
  allowed_web_fetch_domains :: "rstr list"
  allowed_mcp_tools :: "rstr list"
  allowed_mcp_servers :: "rstr list"

definition default_permission_state :: permission_state where
  "default_permission_state = \<lparr>edit_policy = EditAsk, allow_bash_execute = False,
     allowed_bash_commands = [], disallowed_bash_commands = [], allowed_web_fetch_domains = [],
     allowed_mcp_tools = [], allowed_mcp_servers = []\<rparr>"

definition set_insert :: "'a \<Rightarrow> 'a list \<Rightarrow> 'a list" where
  "set_insert x xs = (if x \<in> set xs then xs else xs @ [x])"

datatype prompt_outcome =
    AllowOnce
  | AllowAlways
  | AllowEditsForSession
  | AllowAlwaysBashCommand rstr
  | AllowAlwaysDomain rstr
  | AllowAlwaysMcpTool rstr
  | AllowAlwaysMcpServer rstr
  | RejectOnce
  | RejectAlwaysBashCommand rstr
  | PromptCancelled
  | PromptFollowup rstr
  | PromptError rstr

datatype reason =
    YOLO | POLICY_ALLOW | POLICY_DENY | POLICY_ASK | AUTO_FAST_PATH | AUTO_CLASSIFIER_ALLOW
  | AUTO_CLASSIFIER_BLOCK | SANDBOX_AUTO | PERSISTED_GRANT | SESSION_GRANT | STATIC_ALLOWLIST
  | SAFE_COMMAND | SESSION_DENY | PROMPT_DENY | NEEDS_USER

section \<open>Names of MCP tools\<close>

definition is_id_char :: "rune \<Rightarrow> bool" where
  "is_id_char c \<longleftrightarrow> is_ascii_alphabetic c \<or> is_digit c \<or> c = 95 \<or> c = 45"

definition is_valid_segment :: "rstr \<Rightarrow> bool" where
  "is_valid_segment s \<longleftrightarrow> s \<noteq> [] \<and> list_all is_id_char s"

definition is_well_formed_tool_id :: "rstr \<Rightarrow> bool" where
  "is_well_formed_tool_id s =
     (case split_on 58 s of
        [first] \<Rightarrow> is_valid_segment first
      | [first, second] \<Rightarrow> is_valid_segment first \<and> is_valid_segment second
      | _ \<Rightarrow> False)"

text \<open>The positions of the delimiter, overlapping ones included.\<close>

fun delimiter_positions :: "nat \<Rightarrow> rstr \<Rightarrow> nat list" where
  "delimiter_positions i (a # b # s) =
     (if a = 95 \<and> b = 95 then [i] else []) @ delimiter_positions (i + 1) (b # s)"
| "delimiter_positions i _ = []"

definition parse_mcp_qualified_name :: "rstr \<Rightarrow> (rstr \<times> rstr) option" where
  "parse_mcp_qualified_name name =
     (case delimiter_positions 0 name of
        [boundary] \<Rightarrow>
          (let server = take boundary name; tool = drop (boundary + 2) name
           in if server = [] \<or> tool = [] then None
              else if is_well_formed_tool_id name then Some (server, tool) else None)
      | _ \<Rightarrow> None)"

definition mcp_server_prefix_allowed :: "rstr \<Rightarrow> rstr list \<Rightarrow> bool" where
  "mcp_server_prefix_allowed name servers \<longleftrightarrow> servers \<noteq> [] \<and>
     (case parse_mcp_qualified_name name of None \<Rightarrow> False | Some (server, _) \<Rightarrow> server \<in> set servers)"

definition mcp_pre_decision :: "rstr \<Rightarrow> permission_state \<Rightarrow> bool \<Rightarrow> bool \<Rightarrow> decision option" where
  "mcp_pre_decision name st policy_forced_prompt remember_tool_approvals =
     (if policy_forced_prompt \<and> \<not> remember_tool_approvals then None
      else if name \<in> set (allowed_mcp_tools st) then Some Allow
      else if mcp_server_prefix_allowed name (allowed_mcp_servers st) then Some Allow
      else None)"

section \<open>Hosts\<close>

datatype host_entry = AnyPath | PathPrefixes "rstr list"

type_synonym domain_matcher = "rstr \<rightharpoonup> host_entry"

definition add_domain_entry :: "crates \<Rightarrow> domain_matcher \<Rightarrow> rstr \<Rightarrow> domain_matcher" where
  "add_domain_entry cr entries raw =
     (let normalized = normalize_domain cr raw
      in if normalized = [] then entries
         else
           (case position (\<lambda>c. c = 47) normalized of
              None \<Rightarrow> entries(normalized \<mapsto> AnyPath)
            | Some i \<Rightarrow>
                (let host = take i normalized; raw_path = drop i normalized
                 in if entries host = Some AnyPath then entries
                    else
                      (let pre = trim_end_char 47 raw_path
                       in if pre = [] \<or> pre = lit ''/'' then entries(host \<mapsto> AnyPath)
                          else
                            (let pre = (if starts_with pre (lit ''/'') then pre else lit ''/'' @ pre)
                             in entries(host \<mapsto>
                                  (case entries host of
                                     Some (PathPrefixes v) \<Rightarrow> PathPrefixes (set_insert pre v)
                                   | Some AnyPath \<Rightarrow> AnyPath
                                   | None \<Rightarrow> PathPrefixes [pre])))))))"

definition domain_matcher_new :: "crates \<Rightarrow> rstr list \<Rightarrow> domain_matcher" where
  "domain_matcher_new cr raw_entries = foldl (add_domain_entry cr) Map.empty raw_entries"

text \<open>Whether \<^verbatim>\<open>DomainMatcher::check\<close> permits the URL (its value \<^verbatim>\<open>None\<close>).\<close>

definition domain_permitted :: "crates \<Rightarrow> domain_matcher \<Rightarrow> url \<Rightarrow> bool" where
  "domain_permitted cr entries u =
     (case host_str u of
        None \<Rightarrow> False
      | Some raw_host \<Rightarrow>
          (case entries (normalize_domain cr raw_host) of
             Some AnyPath \<Rightarrow> True
           | Some (PathPrefixes ps) \<Rightarrow>
               (let p = to_lowercase cr (url_path u)
                in list_ex (\<lambda>pre. p = pre \<or> starts_with p pre \<and> starts_with (drop (length pre) p) (lit ''/'')) ps)
           | None \<Rightarrow> False))"

section \<open>Safe and dangerous commands\<close>

definition rg_has_pre_flag :: "rstr list \<Rightarrow> bool" where
  "rg_has_pre_flag words \<longleftrightarrow> words \<noteq> [] \<and> hd words = lit ''rg'' \<and>
     list_ex (\<lambda>w. w = lit ''--pre'' \<or> starts_with w (lit ''--pre='')) words"

definition matches_command_prefix :: "rstr \<Rightarrow> rstr \<Rightarrow> bool" where
  "matches_command_prefix cmd pattern \<longleftrightarrow>
     cmd = pattern \<or> starts_with cmd pattern \<and> starts_with (drop (length pattern) cmd) [32]"

definition SAFE_PREFIXES :: "rstr list" where
  "SAFE_PREFIXES = map lit
     [''ls'', ''cat'', ''pwd'', ''date'', ''git status'', ''git branch'', ''git log'', ''git diff'',
      ''git ls-files'', ''git show'', ''git rev-parse'', ''cargo check'', ''whoami'', ''hostname'',
      ''uptime'', ''grep'', ''rg'', ''kubectl get'', ''kubectl logs'', ''kubectl describe'', ''ps'',
      ''bin/explorer ls'', ''head'', ''tail'', ''wc'', ''sort'', ''uniq'', ''tr'', ''cut'']"

definition is_safe_command_words_str :: "rstr \<Rightarrow> bool" where
  "is_safe_command_words_str cmd = list_ex (matches_command_prefix cmd) SAFE_PREFIXES"

definition is_safe_command_words :: "rstr list \<Rightarrow> bool" where
  "is_safe_command_words words \<longleftrightarrow>
     words \<noteq> [] \<and> \<not> rg_has_pre_flag words \<and> is_safe_command_words_str (join [32] words)"

definition ALWAYS_SAFE_COMMANDS :: "rstr list" where
  "ALWAYS_SAFE_COMMANDS = map lit
     [''ls'', ''cat'', ''pwd'', ''date'', ''whoami'', ''hostname'', ''uptime'', ''ps'', ''git status'',
      ''git branch'', ''git log'', ''git diff'', ''git ls-files'', ''git show'', ''git rev-parse'',
      ''grep'', ''rg'', ''cargo check'', ''kubectl get'', ''kubectl logs'', ''kubectl describe'',
      ''bin/explorer ls'']"

definition is_always_safe_command_words :: "rstr list \<Rightarrow> bool" where
  "is_always_safe_command_words words \<longleftrightarrow>
     words \<noteq> [] \<and> \<not> rg_has_pre_flag words \<and>
     list_ex (matches_command_prefix (join [32] words)) ALWAYS_SAFE_COMMANDS"

definition default_always_allow_scope :: "rstr list \<Rightarrow> nat" where
  "default_always_allow_scope words =
     (if words = [] then 0
      else if is_safe_command_words words \<and> is_safe_command_words_str (hd words) then 1
      else if is_safe_command_words words \<and> 2 \<le> length words \<and>
        is_safe_command_words_str (join [32] (take 2 words)) then 2
      else
        min (length words) 2 +
          length (takeWhile (\<lambda>w. starts_with w (lit ''-'')) (drop 2 words)))"

definition DANGEROUS_PREFIXES :: "rstr list" where
  "DANGEROUS_PREFIXES = map lit
     [''rm'', ''chmod'', ''chown'', ''chgrp'', ''chattr'', ''pkill'', ''kill'', ''killall'', ''git push'']"

definition is_dangerous_command_words :: "rstr list \<Rightarrow> bool" where
  "is_dangerous_command_words words \<longleftrightarrow>
     words \<noteq> [] \<and> list_ex (matches_command_prefix (join [32] words)) DANGEROUS_PREFIXES"

datatype segment_evaluation =
    AutoAllow (via_session_grant: bool)
  | SegmentReject rstr
  | NeedsPrompts "rstr list" bool
  | Unparseable

fun segments_loop :: "permission_state \<Rightarrow> bool \<Rightarrow> rstr list list \<Rightarrow> rstr list \<Rightarrow> bool \<Rightarrow> bool
    \<Rightarrow> segment_evaluation" where
  "segments_loop st honor_safe_lists [] needs_prompt any_dangerous via_grant =
     (if needs_prompt = [] then AutoAllow via_grant else NeedsPrompts needs_prompt any_dangerous)"
| "segments_loop st honor_safe_lists (raw_words # rest) needs_prompt any_dangerous via_grant =
     (let words = unwrap_wrappers raw_words
      in if is_setup_command words then
           segments_loop st honor_safe_lists rest needs_prompt any_dangerous via_grant
         else
           (let s = join [32] words
            in case find (matches_command_prefix s) (disallowed_bash_commands st) of
                 Some d \<Rightarrow>
                   SegmentReject (lit ''User previously rejected `'' @ d @ lit ''` for this session'')
               | None \<Rightarrow>
                   if is_dangerous_command_words words then
                     segments_loop st honor_safe_lists rest (needs_prompt @ [s]) True via_grant
                   else
                     (let matched_grant = list_ex (matches_command_prefix s) (allowed_bash_commands st);
                          matched_safe = (honor_safe_lists \<and>
                            (is_safe_command_words words \<or> is_always_safe_command_words words))
                      in if matched_grant \<or> matched_safe then
                           segments_loop st honor_safe_lists rest needs_prompt any_dangerous
                             (via_grant \<or> matched_grant)
                         else
                           segments_loop st honor_safe_lists rest (needs_prompt @ [s]) any_dangerous via_grant)))"

definition evaluate_bash_segments_inner :: "crates \<Rightarrow> rstr \<Rightarrow> permission_state \<Rightarrow> bool \<Rightarrow> segment_evaluation" where
  "evaluate_bash_segments_inner cr cmd st honor_safe_lists =
     (case all_commands_from_script (parse_shell cr) cmd of
        None \<Rightarrow> Unparseable
      | Some segments \<Rightarrow> segments_loop st honor_safe_lists (map pc_words segments) [] False False)"

section \<open>Grants\<close>

definition clamp_yolo :: "bool \<Rightarrow> bool \<Rightarrow> bool" where
  "clamp_yolo requested pinned \<longleftrightarrow> requested \<and> \<not> pinned"

definition auto_prompt_blocks_allow :: "'j access_kind \<Rightarrow> bool" where
  "auto_prompt_blocks_allow access = (case access of Bash _ \<Rightarrow> False | _ \<Rightarrow> True)"

definition persisted_bash_auto_allows :: "permission_state \<Rightarrow> rstr \<Rightarrow> bool \<Rightarrow> bool" where
  "persisted_bash_auto_allows st cmd pinned \<longleftrightarrow>
     allow_bash_execute st \<and> \<not> pinned \<or> cmd \<in> set (allowed_bash_commands st)"

record bash_grant_opts =
  honor_safe_lists :: bool
  allow_blanket :: bool
  conservative_blanket :: bool

definition PRE_CLASSIFIER :: bash_grant_opts where
  "PRE_CLASSIFIER = \<lparr>honor_safe_lists = True, allow_blanket = True, conservative_blanket = True\<rparr>"

definition ASK_FLOOR_REMEMBER :: bash_grant_opts where
  "ASK_FLOOR_REMEMBER = \<lparr>honor_safe_lists = False, allow_blanket = False, conservative_blanket = False\<rparr>"

definition post_classify :: "bool \<Rightarrow> bash_grant_opts" where
  "post_classify auto_forced_prompt =
     \<lparr>honor_safe_lists = True, allow_blanket = \<not> auto_forced_prompt, conservative_blanket = False\<rparr>"

definition bash_grant_pre_decision :: "crates \<Rightarrow> rstr \<Rightarrow> permission_state \<Rightarrow> bool \<Rightarrow> bash_grant_opts
    \<Rightarrow> (decision \<times> reason) option" where
  "bash_grant_pre_decision cr cmd st pinned opts =
     (case evaluate_bash_segments_inner cr cmd st (honor_safe_lists opts) of
        SegmentReject r \<Rightarrow> Some (Reject r, SESSION_DENY)
      | AutoAllow via \<Rightarrow> Some (Allow, if via then SESSION_GRANT else SAFE_COMMAND)
      | NeedsPrompts _ any_dangerous \<Rightarrow>
          if \<not> allow_blanket opts then None
          else if any_dangerous \<and> conservative_blanket opts then None
          else if persisted_bash_auto_allows st cmd pinned then Some (Allow, SESSION_GRANT)
          else None
      | Unparseable \<Rightarrow>
          if \<not> allow_blanket opts then None
          else if (if conservative_blanket opts then cmd \<in> set (allowed_bash_commands st)
                   else persisted_bash_auto_allows st cmd pinned)
          then Some (Allow, SESSION_GRANT)
          else None)"

definition session_grant_pre_decision :: "crates \<Rightarrow> 'j access_kind \<Rightarrow> permission_state \<Rightarrow> bool
    \<Rightarrow> domain_matcher \<Rightarrow> bool \<Rightarrow> (decision \<times> reason) option" where
  "session_grant_pre_decision cr access st allow_edits matcher pinned =
     (case access of
        MCPTool name _ \<Rightarrow> map_option (\<lambda>d. (d, SESSION_GRANT)) (mcp_pre_decision name st False False)
      | WebFetch u \<Rightarrow>
          (case url_parse cr u of
             None \<Rightarrow> None
           | Some parsed \<Rightarrow>
               if domain_permitted cr matcher parsed then Some (Allow, STATIC_ALLOWLIST)
               else
                 (case host_str parsed of
                    None \<Rightarrow> None
                  | Some host \<Rightarrow>
                      if normalize_domain cr host \<in> set (allowed_web_fetch_domains st)
                      then Some (Allow, SESSION_GRANT) else None))
      | Edit _ \<Rightarrow> if allow_edits then Some (Allow, SESSION_GRANT) else None
      | Bash cmd \<Rightarrow> bash_grant_pre_decision cr cmd st pinned PRE_CLASSIFIER
      | _ \<Rightarrow> None)"

section \<open>Auto mode\<close>

definition tool_name_for_access :: "'j access_kind \<Rightarrow> rstr" where
  "tool_name_for_access access =
     (case access of
        Read _ \<Rightarrow> lit ''read_file''
      | Grep _ _ \<Rightarrow> lit ''grep''
      | Edit _ \<Rightarrow> lit ''search_replace''
      | Bash _ \<Rightarrow> lit ''run_terminal_command''
      | MCPTool name _ \<Rightarrow> lit ''mcp:'' @ name
      | WebFetch _ \<Rightarrow> lit ''web_fetch''
      | WebSearch _ \<Rightarrow> lit ''web_search'')"

definition to_ascii_lowercase :: "rstr \<Rightarrow> rstr" where
  "to_ascii_lowercase s = map (\<lambda>c. if 65 \<le> c \<and> c \<le> 90 then c + 32 else c) s"

definition contains :: "rstr \<Rightarrow> string \<Rightarrow> bool" where
  "contains s p \<longleftrightarrow> find_sub (lit p) s \<noteq> None"

definition access_requires_user_interaction :: "rstr \<Rightarrow> 'j access_kind \<Rightarrow> bool" where
  "access_requires_user_interaction tool_name access =
     (let t = to_ascii_lowercase tool_name
      in if contains t ''ask_user'' \<or> contains t ''askuserquestion'' \<or> contains t ''user_question'' \<or>
            t = lit ''ask_user_question'' then True
         else
           (case access of
              MCPTool name _ \<Rightarrow>
                (let n = to_ascii_lowercase name
                 in contains n ''ask_user'' \<or> contains n ''confirm'' \<and> contains n ''human'')
            | _ \<Rightarrow> False))"

definition is_auto_mode_allowlisted_access :: "'j access_kind \<Rightarrow> bool" where
  "is_auto_mode_allowlisted_access access =
     (case access of Read _ \<Rightarrow> True | Grep _ _ \<Rightarrow> True | WebSearch _ \<Rightarrow> True | _ \<Rightarrow> False)"

definition is_auto_mode_allowlisted_tool_name :: "rstr \<Rightarrow> bool" where
  "is_auto_mode_allowlisted_tool_name tool_name \<longleftrightarrow> tool_name \<in> lit `
     {''todo_write'', ''TodoWrite'', ''task_output'', ''TaskOutput'', ''wait_tasks'', ''WaitTasks'',
      ''ask_user_question'', ''AskUserQuestion'', ''enter_plan_mode'', ''EnterPlanMode'',
      ''exit_plan_mode'', ''ExitPlanMode'', ''switch_mode'', ''SwitchMode'', ''create_plan'',
      ''CreatePlan'', ''update_plan'', ''UpdatePlan'', ''list_mcp_resources'', ''ListMcpResources'',
      ''read_mcp_resource'', ''ReadMcpResource'', ''tool_search'', ''ToolSearch'', ''sleep'', ''Sleep''}"

datatype auto_fast_path = FastAllow | FastPromptUser | FastClassify

definition auto_mode_fast_path :: "'j access_kind \<Rightarrow> rstr \<Rightarrow> bool \<Rightarrow> auto_fast_path" where
  "auto_mode_fast_path access tool_name requires_user_interaction =
     (if requires_user_interaction then FastPromptUser
      else if is_auto_mode_allowlisted_access access \<or> is_auto_mode_allowlisted_tool_name tool_name
      then FastAllow
      else
        (case access of
           Edit _ \<Rightarrow> FastAllow
         | Bash cmd \<Rightarrow> if trim cmd \<in> lit ` {''true'', '':'', ''false''} then FastAllow else FastClassify
         | _ \<Rightarrow> FastClassify))"

datatype classifier_verdict = VerdictAllow | VerdictBlock | VerdictUnavailable

section \<open>The actor\<close>

record manager_config =
  mc_crates :: crates
  mc_policy :: "compiled_policy option"
  mc_prompt_policy :: prompt_policy
  mc_matcher :: domain_matcher
  mc_remember :: bool
  mc_pinned :: bool

record manager =
  pm_state :: permission_state
  pm_disk :: permission_state
  pm_yolo :: bool
  pm_auto :: bool
  pm_has_classifier :: bool
  pm_allow_edits :: bool

text \<open>What is decided outside of the actor while it handles a request.\<close>

record request_env =
  re_shell_file :: "decision option"
  re_verdict :: classifier_verdict
  re_sandbox_auto :: bool
  re_outcome :: prompt_outcome

text \<open>The event of a decision: whether it was approved automatically, whether the user was asked, and why.\<close>

record permission_event =
  ev_decision :: decision
  ev_auto_approved :: bool
  ev_user_prompted :: bool
  ev_reason :: reason

definition persist :: "manager \<Rightarrow> manager" where
  "persist m = m\<lparr>pm_disk := pm_state m\<rparr>"

text \<open>The answer of the user to a prompt for a shell script.\<close>

definition bash_prompt :: "rstr \<Rightarrow> prompt_outcome \<Rightarrow> manager \<Rightarrow> decision \<times> manager" where
  "bash_prompt cmd outcome m =
     (case outcome of
        AllowOnce \<Rightarrow> (Allow, m)
      | AllowAlways \<Rightarrow>
          (Allow, persist (m\<lparr>pm_state := (pm_state m)\<lparr>allowed_bash_commands :=
             set_insert cmd (allowed_bash_commands (pm_state m))\<rparr>\<rparr>))
      | AllowAlwaysBashCommand pre \<Rightarrow>
          (Allow, persist (m\<lparr>pm_state := (pm_state m)\<lparr>allowed_bash_commands :=
             set_insert pre (allowed_bash_commands (pm_state m))\<rparr>\<rparr>))
      | AllowAlwaysDomain _ \<Rightarrow> (Allow, m)
      | AllowAlwaysMcpTool _ \<Rightarrow> (Allow, m)
      | AllowAlwaysMcpServer _ \<Rightarrow> (Allow, m)
      | AllowEditsForSession \<Rightarrow> (Allow, m)
      | RejectOnce \<Rightarrow> (Reject (lit ''User rejected the execution''), m)
      | RejectAlwaysBashCommand pre \<Rightarrow>
          (Reject (lit ''User rejected the execution and excluded '' @ pre @ lit '' from this session''),
           persist (m\<lparr>pm_state := (pm_state m)\<lparr>disallowed_bash_commands :=
             set_insert pre (disallowed_bash_commands (pm_state m))\<rparr>\<rparr>))
      | PromptCancelled \<Rightarrow> (Cancelled, m)
      | PromptFollowup msg \<Rightarrow> (FollowupMessage msg, m)
      | PromptError e \<Rightarrow> (Reject (lit ''Failed to request permission from user: '' @ e), m))"

definition allow_mcp_tool :: "rstr \<Rightarrow> manager \<Rightarrow> manager" where
  "allow_mcp_tool name m =
     m\<lparr>pm_state := (pm_state m)\<lparr>allowed_mcp_tools := set_insert name (allowed_mcp_tools (pm_state m))\<rparr>\<rparr>"

text \<open>\<^verbatim>\<open>split_once("__")\<close>, the part before, when it is not empty.\<close>

definition canonical_server :: "rstr \<Rightarrow> rstr option" where
  "canonical_server name =
     (case find_sub (lit ''__'') name of
        None \<Rightarrow> None
      | Some i \<Rightarrow> if take i name = [] then None else Some (take i name))"

text \<open>The answer of the user to any other prompt.\<close>

definition other_prompt :: "'j access_kind \<Rightarrow> prompt_outcome \<Rightarrow> manager \<Rightarrow> decision \<times> manager" where
  "other_prompt access outcome m =
     (case outcome of
        AllowOnce \<Rightarrow> (Allow, m)
      | AllowEditsForSession \<Rightarrow> (Allow, m\<lparr>pm_allow_edits := True\<rparr>)
      | AllowAlways \<Rightarrow>
          (Allow, persist (case access of MCPTool name _ \<Rightarrow> allow_mcp_tool name m | _ \<Rightarrow> m))
      | AllowAlwaysBashCommand _ \<Rightarrow> (Allow, m)
      | AllowAlwaysDomain domain \<Rightarrow>
          (Allow,
           (case access of
              WebFetch _ \<Rightarrow>
                persist (m\<lparr>pm_state := (pm_state m)\<lparr>allowed_web_fetch_domains :=
                  set_insert domain (allowed_web_fetch_domains (pm_state m))\<rparr>\<rparr>)
            | _ \<Rightarrow> m))
      | AllowAlwaysMcpTool _ \<Rightarrow>
          (Allow, (case access of MCPTool name _ \<Rightarrow> persist (allow_mcp_tool name m) | _ \<Rightarrow> m))
      | AllowAlwaysMcpServer server_prefix \<Rightarrow>
          (Allow,
           (case access of
              MCPTool name _ \<Rightarrow>
                persist
                  (if canonical_server name = Some server_prefix then
                     m\<lparr>pm_state := (pm_state m)\<lparr>allowed_mcp_servers :=
                       set_insert server_prefix (allowed_mcp_servers (pm_state m))\<rparr>\<rparr>
                   else allow_mcp_tool name m)
            | _ \<Rightarrow> m))
      | RejectAlwaysBashCommand _ \<Rightarrow> (Reject (lit ''User rejected the execution''), m)
      | RejectOnce \<Rightarrow> (Reject (lit ''User rejected the execution''), m)
      | PromptCancelled \<Rightarrow> (Cancelled, m)
      | PromptError e \<Rightarrow> (Reject (lit ''Failed to request permission from user: '' @ e), m)
      | PromptFollowup msg \<Rightarrow> (FollowupMessage msg, m))"

definition prompt_user :: "'j access_kind \<Rightarrow> prompt_outcome \<Rightarrow> manager \<Rightarrow> decision \<times> manager" where
  "prompt_user access outcome m =
     (case access of Bash cmd \<Rightarrow> bash_prompt cmd outcome m | _ \<Rightarrow> other_prompt access outcome m)"

text \<open>The decision that is taken without a prompt when neither policy nor auto mode decided.\<close>

definition pre_decision :: "manager_config \<Rightarrow> manager \<Rightarrow> 'j access_kind \<Rightarrow> bool \<Rightarrow> bool \<Rightarrow> bool
    \<Rightarrow> (decision \<times> reason) option" where
  "pre_decision cfg m access policy_forced_prompt shell_file_forced_prompt auto_forced_prompt =
     (case access of
        Read _ \<Rightarrow> if policy_forced_prompt then None else Some (Allow, SAFE_COMMAND)
      | Grep _ _ \<Rightarrow> if policy_forced_prompt then None else Some (Allow, SAFE_COMMAND)
      | WebSearch _ \<Rightarrow> Some (Allow, SAFE_COMMAND)
      | MCPTool name _ \<Rightarrow>
          map_option (\<lambda>d. (d, PERSISTED_GRANT))
            (mcp_pre_decision name (pm_state m) policy_forced_prompt (mc_remember cfg))
      | Edit _ \<Rightarrow>
          if pm_allow_edits m then Some (Allow, PERSISTED_GRANT)
          else (case edit_policy (pm_state m) of
                  EditReject \<Rightarrow> Some (Reject (lit ''edits prohibited''), SESSION_DENY)
                | _ \<Rightarrow> None)
      | Bash cmd \<Rightarrow>
          if policy_forced_prompt then
            if mc_remember cfg \<and> \<not> auto_forced_prompt \<and> \<not> shell_file_forced_prompt then
              bash_grant_pre_decision (mc_crates cfg) cmd (pm_state m) (mc_pinned cfg) ASK_FLOOR_REMEMBER
            else None
          else
            bash_grant_pre_decision (mc_crates cfg) cmd (pm_state m) (mc_pinned cfg)
              (post_classify auto_forced_prompt)
      | WebFetch u \<Rightarrow>
          (case url_parse (mc_crates cfg) u of
             None \<Rightarrow> None
           | Some parsed \<Rightarrow>
               if domain_permitted (mc_crates cfg) (mc_matcher cfg) parsed then Some (Allow, STATIC_ALLOWLIST)
               else
                 (case host_str parsed of
                    None \<Rightarrow> None
                  | Some host \<Rightarrow>
                      if normalize_domain (mc_crates cfg) host \<in> set (allowed_web_fetch_domains (pm_state m))
                      then Some (Allow, PERSISTED_GRANT) else None)))"

definition auto_event :: "decision \<Rightarrow> reason \<Rightarrow> permission_event" where
  "auto_event d r = \<lparr>ev_decision = d, ev_auto_approved = True, ev_user_prompted = False, ev_reason = r\<rparr>"

definition deny_event :: "decision \<Rightarrow> reason \<Rightarrow> permission_event" where
  "deny_event d r = \<lparr>ev_decision = d, ev_auto_approved = False, ev_user_prompted = False, ev_reason = r\<rparr>"

text \<open>What auto mode makes of an access: an event that ends the request, or the reason for a prompt.\<close>

definition auto_decision :: "manager \<Rightarrow> request_env \<Rightarrow> 'j access_kind \<Rightarrow> permission_event + reason" where
  "auto_decision m env access =
     (let tool_name = tool_name_for_access access;
          needs_user = access_requires_user_interaction tool_name access
      in case auto_mode_fast_path access tool_name needs_user of
           FastAllow \<Rightarrow> Inl (auto_event Allow AUTO_FAST_PATH)
         | FastPromptUser \<Rightarrow> Inr NEEDS_USER
         | FastClassify \<Rightarrow>
             (case (if pm_has_classifier m then re_verdict env else VerdictUnavailable) of
                VerdictAllow \<Rightarrow> Inl (auto_event Allow AUTO_CLASSIFIER_ALLOW)
              | _ \<Rightarrow> Inr AUTO_CLASSIFIER_BLOCK))"

text \<open>The three policy decisions of a request: on the access, on the commands and on the files of a script.\<close>

definition direct_decision :: "manager_config \<Rightarrow> 'j access_kind \<Rightarrow> decision option" where
  "direct_decision cfg access =
     (case mc_policy cfg of None \<Rightarrow> None | Some policy \<Rightarrow> evaluate (mc_crates cfg) policy access)"

definition shell_command_decision :: "manager_config \<Rightarrow> 'j access_kind \<Rightarrow> decision option" where
  "shell_command_decision cfg access =
     (case (mc_policy cfg, access) of
        (Some policy, Bash cmd) \<Rightarrow> evaluate_bash_command_policy (mc_crates cfg) policy cmd
      | _ \<Rightarrow> None)"

definition shell_file_decision :: "manager_config \<Rightarrow> request_env \<Rightarrow> 'j access_kind \<Rightarrow> decision option" where
  "shell_file_decision cfg env access =
     (case (mc_policy cfg, access) of (Some policy, Bash cmd) \<Rightarrow> re_shell_file env | _ \<Rightarrow> None)"

definition policy_decision :: "manager_config \<Rightarrow> request_env \<Rightarrow> 'j access_kind \<Rightarrow> decision option" where
  "policy_decision cfg env access =
     combine_decisions
       (combine_decisions (direct_decision cfg access) (shell_command_decision cfg access))
       (shell_file_decision cfg env access)"

text \<open>The end of a request: the pre-decision, the prompt policy, the prompt.\<close>

definition decide_or_prompt :: "manager_config \<Rightarrow> request_env \<Rightarrow> 'j access_kind \<Rightarrow> bool \<Rightarrow> bool \<Rightarrow> bool
    \<Rightarrow> reason option \<Rightarrow> manager \<Rightarrow> permission_event \<times> manager" where
  "decide_or_prompt cfg env access policy_forced_prompt shell_forced_prompt shell_file_forced_prompt auto_reason m =
     (let auto_forced_prompt = (auto_reason \<noteq> None);
          pre = pre_decision cfg m access policy_forced_prompt shell_file_forced_prompt auto_forced_prompt;
          pre = (if auto_forced_prompt \<and> auto_prompt_blocks_allow access \<and> map_option fst pre = Some Allow
                 then None else pre)
      in case pre of
           Some (d, r) \<Rightarrow> (auto_event d r, m)
         | None \<Rightarrow>
             if mc_prompt_policy cfg = PromptDeny then
               (deny_event (PolicyDeny (lit ''denied by prompt policy (tool not pre-approved)'')) PROMPT_DENY, m)
             else
               (let trigger = (if policy_forced_prompt \<or> shell_forced_prompt then POLICY_ASK
                               else (case auto_reason of Some r \<Rightarrow> r | None \<Rightarrow> NEEDS_USER));
                    (d, m') = prompt_user access (re_outcome env) m
                in (\<lparr>ev_decision = d, ev_auto_approved = False, ev_user_prompted = True, ev_reason = trigger\<rparr>, m')))"

definition request :: "manager_config \<Rightarrow> request_env \<Rightarrow> 'j access_kind \<Rightarrow> manager
    \<Rightarrow> permission_event \<times> manager" where
  "request cfg env access m =
     (let decided = policy_decision cfg env access;
          shell_file_forced_prompt = (shell_file_decision cfg env access = Some Ask);
          shell_forced_prompt = (shell_file_forced_prompt \<or> shell_command_decision cfg access = Some Ask);
          policy_forced_prompt = (decided = Some Ask);
          no_floor = (\<not> policy_forced_prompt \<and> \<not> shell_forced_prompt)
      in case decided of
           Some (Reject r) \<Rightarrow> (deny_event (PolicyDeny r) POLICY_DENY, m)
         | _ \<Rightarrow>
             if pm_yolo m \<and> \<not> shell_forced_prompt then (auto_event Allow YOLO, m)
             else
               (case (if no_floor then session_grant_pre_decision (mc_crates cfg) access (pm_state m)
                        (pm_allow_edits m) (mc_matcher cfg) (mc_pinned cfg) else None) of
                  Some (d, r) \<Rightarrow> (auto_event d r, m)
                | None \<Rightarrow>
                    (case (if pm_auto m \<and> no_floor then Some (auto_decision m env access) else None) of
                       Some (Inl ev) \<Rightarrow> (ev, m)
                     | auto \<Rightarrow>
                         (let auto_reason = (case auto of Some (Inr r) \<Rightarrow> Some r | _ \<Rightarrow> None)
                          in if (case access of Bash _ \<Rightarrow> True | _ \<Rightarrow> False) \<and> re_sandbox_auto env \<and>
                                \<not> policy_forced_prompt \<and> auto_reason = None
                             then (auto_event Allow SANDBOX_AUTO, m)
                             else
                               (case decided of
                                  Some Ask \<Rightarrow>
                                    decide_or_prompt cfg env access policy_forced_prompt shell_forced_prompt
                                      shell_file_forced_prompt auto_reason m
                                | Some d \<Rightarrow> (auto_event d POLICY_ALLOW, m)
                                | None \<Rightarrow>
                                    decide_or_prompt cfg env access policy_forced_prompt shell_forced_prompt
                                      shell_file_forced_prompt auto_reason m)))))"

text \<open>
  The other commands. The classifier's transcript and the project's instructions only reach the
  classifier, whose verdict is an argument of a request.
\<close>

datatype 'j permission_command =
    Request "'j access_kind" request_env
  | SetYoloMode bool
  | SetAutoMode bool
  | SetClassifier bool
  | SetClassifierTranscript
  | SetProjectInstructions
  | ResetState

fun manager_step :: "manager_config \<Rightarrow> manager \<Rightarrow> 'j permission_command \<Rightarrow> permission_event option \<times> manager" where
  "manager_step cfg m (Request access env) = (let (ev, m') = request cfg env access m in (Some ev, m'))"
| "manager_step cfg m (SetYoloMode enabled) =
     (let clamped = clamp_yolo enabled (mc_pinned cfg)
      in (None, m\<lparr>pm_yolo := clamped, pm_auto := (if clamped then False else pm_auto m)\<rparr>))"
| "manager_step cfg m (SetAutoMode enabled) =
     (None, m\<lparr>pm_auto := enabled, pm_yolo := (if enabled then False else pm_yolo m),
        pm_has_classifier := (enabled \<or> pm_has_classifier m)\<rparr>)"
| "manager_step cfg m (SetClassifier installed) = (None, m\<lparr>pm_has_classifier := installed\<rparr>)"
| "manager_step cfg m SetClassifierTranscript = (None, m)"
| "manager_step cfg m SetProjectInstructions = (None, m)"
| "manager_step cfg m ResetState =
     (None, (persist (m\<lparr>pm_state := default_permission_state\<rparr>))\<lparr>pm_allow_edits := False\<rparr>)"

text \<open>The start: the persisted state is loaded, a legacy grant for edits is taken back.\<close>

definition spawn_config :: "crates \<Rightarrow> permission_config option \<Rightarrow> rstr list \<Rightarrow> bool \<Rightarrow> bool \<Rightarrow> manager_config" where
  "spawn_config cr config web_fetch_allowed_domains remember pinned =
     \<lparr>mc_crates = cr, mc_policy = map_option (compile_policy cr) config,
      mc_prompt_policy = (case config of Some c \<Rightarrow> pc_prompt_policy c | None \<Rightarrow> PromptAsk),
      mc_matcher = domain_matcher_new cr web_fetch_allowed_domains, mc_remember = remember, mc_pinned = pinned\<rparr>"

definition spawn_manager :: "manager_config \<Rightarrow> bool \<Rightarrow> permission_state \<Rightarrow> manager" where
  "spawn_manager cfg initial_yolo disk =
     (let yolo = clamp_yolo initial_yolo (mc_pinned cfg);
          m = \<lparr>pm_state = disk, pm_disk = disk, pm_yolo = yolo,
               pm_auto = (\<not> yolo \<and> mc_policy cfg \<noteq> None \<and> mc_prompt_policy cfg = PromptAuto),
               pm_has_classifier = True, pm_allow_edits = False\<rparr>
      in if edit_policy disk = EditAllow then persist (m\<lparr>pm_state := disk\<lparr>edit_policy := EditAsk\<rparr>\<rparr>) else m)"

end
