(* ===== verification/PermissionPolicyProps.thy ===== *)
theory PermissionPolicyProps
  imports PermissionPolicy "HOL-Library.Multiset"
begin

text \<open>
  What the policy promises: rules take precedence by their action and not by their order, no command
  of a script escapes a deny rule behind wrappers or nested shells, and what cannot be taken apart
  is never passed silently. First, what the walk over the syntax tree collects.
\<close>

section \<open>The walk over the tree\<close>

fun tree_nodes :: "ts_node \<Rightarrow> ts_node list" where
  "tree_nodes (Node k b s e ch) = Node k b s e ch # concat (map tree_nodes ch)"

lemma tree_nodes_eq: "tree_nodes n = n # concat (map tree_nodes (children n))"
  by (cases n) simp

text \<open>The walk visits every node once: it fails on a node that is not allowed, and else collects the commands.\<close>

lemma command_walk_eq:
  "(\<forall>n \<in> set (concat (map tree_nodes stack)). node_allowed n) \<Longrightarrow>
     \<exists>cs. command_walk stack acc = Some (acc @ cs) \<and>
       mset cs = mset (filter is_command_node (concat (map tree_nodes stack)))"
proof (induction stack acc rule: command_walk.induct)
  case (2 node stack acc)
  have nodes: "set (tree_nodes node) = insert node (\<Union>n \<in> set (children node). set (tree_nodes n))"
    by (subst tree_nodes_eq) simp
  let ?acc = "if is_command_node node then acc @ [node] else acc"
  have ok: "node_allowed node" using 2(2) by (simp add: nodes)
  have "\<forall>n \<in> set (concat (map tree_nodes (rev (children node) @ stack))). node_allowed n"
    using 2(2) by (auto simp: nodes)
  from 2(1) [OF ok this] obtain cs where cs: "command_walk (rev (children node) @ stack) ?acc = Some (?acc @ cs)"
      "mset cs = mset (filter is_command_node (concat (map tree_nodes (rev (children node) @ stack))))" by blast
  have "mset (concat (map tree_nodes (rev xs))) = mset (concat (map tree_nodes xs))" for xs
    by (induction xs) auto
  then have "mset (filter is_command_node (concat (map tree_nodes (rev (children node) @ stack)))) =
      mset (filter is_command_node (concat (map tree_nodes (children node @ stack))))"
    by (simp only: mset_filter map_append concat_append mset_append)
  then show ?case
    using cs ok by (intro exI [of _ "(if is_command_node node then [node] else []) @ cs"])
      (simp add: tree_nodes_eq [of node])
qed simp

lemma command_walk_None:
  "\<exists>n \<in> set (concat (map tree_nodes stack)). \<not> node_allowed n \<Longrightarrow> command_walk stack acc = None"
proof (induction stack acc rule: command_walk.induct)
  case (2 node stack acc)
  have nodes: "set (tree_nodes node) = insert node (\<Union>n \<in> set (children node). set (tree_nodes n))"
    by (subst tree_nodes_eq) simp
  show ?case
  proof (cases "node_allowed node")
    case True
    have "\<exists>n \<in> set (concat (map tree_nodes (rev (children node) @ stack))). \<not> node_allowed n"
      using 2(2) True by (auto simp: nodes)
    from 2(1) [OF True this] show ?thesis using True by simp
  qed simp
qed simp

lemma all_or_none_Some: "all_or_none f xs = Some ys \<longleftrightarrow> map f xs = map Some ys"
  by (induction xs arbitrary: ys) (auto split: option.splits simp: Cons_eq_map_conv)

text \<open>A script is taken apart completely or not at all. When its commands are given, the parser
  reported no error, every node of the tree, however deep, is of an admitted kind, and the commands
  are exactly the command nodes of the tree in the order of the source, each with its words; one
  node of any other kind (a substitution, a subshell, a background operator) makes the script
  undecomposable.\<close>

theorem script_commands_complete:
  assumes "all_commands_from_script parse script = Some cmds"
  shows "\<exists>tree ns. parse script = Some tree \<and> \<not> has_error tree \<and>
    (\<forall>n \<in> set (tree_nodes (root_node tree)). node_allowed n) \<and>
    mset ns = mset (filter is_command_node (tree_nodes (root_node tree))) \<and>
    sorted (map start_byte ns) \<and> map (parse_plain_command_from_node script) ns = map Some cmds"
proof -
  from assms obtain tree where tree: "parse script = Some tree" "\<not> has_error tree"
      "try_parse_word_only_commands_sequence tree script = Some cmds"
    by (auto simp: all_commands_from_script_def try_parse_word_only_commands_sequence_def
        split: option.splits if_splits)
  then obtain ns where ns: "command_walk [root_node tree] [] = Some ns"
      "map (parse_plain_command_from_node script) (sort_key start_byte ns) = map Some cmds"
    by (auto simp: try_parse_word_only_commands_sequence_def all_or_none_Some split: option.splits)
  have ok: "\<forall>n \<in> set (tree_nodes (root_node tree)). node_allowed n"
    using command_walk_None [of "[root_node tree]" "[]"] ns(1) by auto
  with command_walk_eq [of "[root_node tree]" "[]"] ns(1)
  have "mset ns = mset (filter is_command_node (tree_nodes (root_node tree)))" by auto
  with tree ns ok show ?thesis by (intro exI [of _ tree] exI [of _ "sort_key start_byte ns"]) simp
qed

text \<open>The tree of a script of one command, given by the texts and kinds of its words.\<close>

fun word_nodes :: "nat \<Rightarrow> rstr list \<Rightarrow> ts_node list" where
  "word_nodes i [] = []"
| "word_nodes i (w # ws) = Node (lit ''word'') True i (i + str_len w) [] # word_nodes (i + str_len w + 1) ws"

definition one_command_tree :: "rstr list \<Rightarrow> ts_tree" where
  "one_command_tree words =
     (let n = str_len (join [32] words)
      in \<lparr>root_node = Node (lit ''program'') True 0 n
            [Node (lit ''command'') True 0 n
               (case word_nodes 0 words of
                  [] \<Rightarrow> []
                | name # args \<Rightarrow> Node (lit ''command_name'') True (start_byte name) (end_byte name) [name] # args)],
          has_error = False\<rparr>)"

definition one_command_parser :: shell_parser where
  "one_command_parser script = Some (one_command_tree (split_on 32 script))"

lemma utf8_text_word:
  assumes "valid_str w" "drop i (as_bytes src) = as_bytes w @ rest"
  shows "utf8_text src (Node k b i (i + str_len w) ch) = Some w"
  using assms by (simp add: utf8_text_def from_utf8_def from_utf8_lossy_as_bytes Let_def flip: length_as_bytes)

lemma drop_word:
  assumes "drop i (as_bytes src) = as_bytes (w @ 32 # s)"
  shows "drop (i + str_len w + 1) (as_bytes src) = as_bytes s"
proof -
  have "drop (str_len w + 1) (drop i (as_bytes src)) = as_bytes s"
    unfolding assms by (simp add: length_as_bytes encode_rune_def)
  then show ?thesis by (simp add: add.commute)
qed

lemma plain_words_word_nodes:
  assumes "\<forall>w \<in> set ws. valid_str w" "drop i (as_bytes src) = as_bytes (join [32] ws)"
  shows "\<exists>a' e'. plain_words src (word_nodes i ws) acc a e = Some (acc @ ws, a', e')"
  using assms
proof (induction ws arbitrary: i acc a e)
  case (Cons w ws)
  obtain rest where rest: "as_bytes (join [32] (w # ws)) = as_bytes w @ rest" by (cases ws) auto
  have word_text: "utf8_text src (Node k b i (i + str_len w) ch) = Some w" for k b ch
    using Cons.prems rest by (intro utf8_text_word [of _ _ _ rest]) simp_all
  have "ws = [] \<or> drop (i + str_len w + 1) (as_bytes src) = as_bytes (join [32] ws)"
    using drop_word [of i src w "join [32] ws"] Cons.prems(2) by (cases ws) simp_all
  then show ?case
  proof
    assume "ws = []"
    then show ?thesis by (simp add: child_word_def word_text lit_simps)
  next
    assume "drop (i + str_len w + 1) (as_bytes src) = as_bytes (join [32] ws)"
    from Cons.IH [OF _ this, of "acc @ [w]"] Cons.prems(1) show ?thesis
      by (simp add: child_word_def word_text lit_simps)
  qed
qed simp

lemma word_nodes_leaves: "concat (map tree_nodes (word_nodes i ws)) = word_nodes i ws"
  "n \<in> set (word_nodes i ws) \<Longrightarrow> node_allowed n \<and> \<not> is_command_node n \<and> is_named n"
  by (induction ws arbitrary: i) (auto simp: node_allowed_def is_command_node_def ALLOWED_KINDS_def lit_simps)

text \<open>The parser for one command does what it is for.\<close>

lemma one_command_parser_words:
  assumes "words \<noteq> []" "\<forall>w \<in> set words. valid_str w \<and> 32 \<notin> set w"
  shows "\<exists>c. all_commands_from_script one_command_parser (join [32] words) = Some [c] \<and> pc_words c = words"
proof -
  let ?src = "join [32] words"
  obtain w ws where words: "words = w # ws" using assms(1) by (cases words) auto
  let ?name = "Node (lit ''word'') True 0 (str_len w) []"
  let ?args = "word_nodes (Suc (str_len w)) ws"
  let ?first = "Node (lit ''command_name'') True 0 (str_len w) [?name]"
  let ?cmd = "Node (lit ''command'') True 0 (str_len ?src) (?first # ?args)"
  have split: "split_on 32 ?src = words" using assms by (intro split_on_join) auto
  have tree: "one_command_tree words = \<lparr>root_node = Node (lit ''program'') True 0 (str_len ?src) [?cmd], has_error = False\<rparr>"
    by (simp add: one_command_tree_def words Let_def)
  have ok: "\<forall>n \<in> set (tree_nodes (Node (lit ''program'') True 0 (str_len ?src) [?cmd])). node_allowed n"
    using word_nodes_leaves(2) by (auto simp: word_nodes_leaves(1) node_allowed_def [of "Node _ _ _ _ _"] ALLOWED_KINDS_def lit_simps)
  have "filter is_command_node (tree_nodes (Node (lit ''program'') True 0 (str_len ?src) [?cmd])) = [?cmd]"
    using word_nodes_leaves(2) by (auto simp: word_nodes_leaves(1) is_command_node_def [of "Node _ _ _ _ _"] lit_simps filter_empty_conv)
  with command_walk_eq [of "[Node (lit ''program'') True 0 (str_len ?src) [?cmd]]" "[]"] ok
  have walk: "command_walk [Node (lit ''program'') True 0 (str_len ?src) [?cmd]] [] = Some [?cmd]" by auto
  obtain a e where a: "plain_words ?src (word_nodes 0 words) [] None None = Some (words, a, e)"
    using plain_words_word_nodes [of words 0 ?src "[]" None None] assms(2) by auto
  have "child_word ?src ?first = child_word ?src ?name" by (simp add: child_word_def named_children_def lit_simps)
  moreover have "filter is_named ?args = ?args" using word_nodes_leaves(2) by (simp add: filter_id_conv)
  ultimately have "plain_words ?src (named_children ?cmd) [] None None = Some (words, a, e)"
    using a by (simp add: words named_children_def lit_simps split: option.splits)
  then show ?thesis
    by (simp add: all_commands_from_script_def one_command_parser_def split tree
        try_parse_word_only_commands_sequence_def walk parse_plain_command_from_node_def
        del: command_walk.simps)
qed

lemma script_commands_complete_witness:
  "\<exists>tree ns. one_command_parser (lit ''rm a'') = Some tree \<and> \<not> has_error tree \<and>
    (\<forall>n \<in> set (tree_nodes (root_node tree)). node_allowed n) \<and>
    mset ns = mset (filter is_command_node (tree_nodes (root_node tree))) \<and>
    sorted (map start_byte ns) \<and>
    map (parse_plain_command_from_node (lit ''rm a'')) ns =
      map Some [\<lparr>pc_words = [lit ''rm'', lit ''a''], pc_span_start = 0, pc_span_end = 4\<rparr>]"
proof (rule script_commands_complete)
  show "all_commands_from_script one_command_parser (lit ''rm a'') =
      Some [\<lparr>pc_words = [lit ''rm'', lit ''a''], pc_span_start = 0, pc_span_end = 4\<rparr>]"
    by code_simp
qed

section \<open>Precedence\<close>

lemma zip_matchers: "zip rs (map f rs) = map (\<lambda>r. (r, f r)) rs"
  by (induction rs) auto

lemma evaluate_loop_eq:
  "evaluate_loop cr access (map (\<lambda>r. (r, matcher_of cr r)) rules) ask allow =
     (let hits = filter (rule_matches cr access) rules
      in case filter (\<lambda>r. pr_action r = RuleDeny) hits of
           r # _ \<Rightarrow> Some (Reject (deny_reason r))
         | [] \<Rightarrow>
             if ask \<or> (\<exists>r \<in> set hits. pr_action r = RuleAsk) then Some Ask
             else if allow \<or> hits \<noteq> [] then Some Allow
             else None)"
proof (induction rules arbitrary: ask allow)
  case (Cons r rules)
  then show ?case
    by (cases "rule_matches cr access r"; cases "pr_action r") (auto simp: rule_matches_def Let_def split: list.split)
qed simp

lemma evaluate_eq: "evaluate cr (compile_policy cr config) access = policy_spec cr (pc_rules config) access"
  unfolding evaluate_def compile_policy_def policy_spec_def
  by (simp only: compiled_policy.simps zip_matchers evaluate_loop_eq simp_thms)

lemma policy_spec_rank:
  "map_option decision_rank (policy_spec cr rules access) =
     (let hits = {r \<in> set rules. rule_matches cr access r}
      in if \<exists>r \<in> hits. pr_action r = RuleDeny then Some 3
         else if \<exists>r \<in> hits. pr_action r = RuleAsk then Some 2
         else if hits \<noteq> {} then Some 1
         else None)"
proof (cases "filter (\<lambda>r. pr_action r = RuleDeny) (filter (rule_matches cr access) rules)")
  case Nil
  then have "\<forall>r \<in> set rules. rule_matches cr access r \<longrightarrow> pr_action r \<noteq> RuleDeny"
    by (simp add: filter_empty_conv)
  with Nil show ?thesis by (auto simp: policy_spec_def Let_def filter_empty_conv)
next
  case (Cons r rs)
  then have "r \<in> set (filter (\<lambda>r. pr_action r = RuleDeny) (filter (rule_matches cr access) rules))" by simp
  then have "\<exists>r \<in> {r \<in> set rules. rule_matches cr access r}. pr_action r = RuleDeny" by auto
  with Cons show ?thesis by (simp add: policy_spec_def Let_def)
qed

lemma policy_spec_denies:
  assumes "r \<in> set rules" "rule_matches cr access r" "pr_action r = RuleDeny"
  shows "\<exists>reason. policy_spec cr rules access = Some (Reject reason)"
proof -
  have "filter (\<lambda>r. pr_action r = RuleDeny) (filter (rule_matches cr access) rules) \<noteq> []"
    using assms by (auto simp: filter_empty_conv)
  then show ?thesis by (auto simp: policy_spec_def Let_def split: list.split)
qed

text \<open>The precedence of the rules. The policy denies an access exactly when some matching rule
  denies, it asks when none denies and some asks, it allows when some matches and all that match
  allow, and has no opinion when no rule matches. The order of the rules plays no part, except
  that a denial names the first matching deny rule.\<close>

theorem deny_ask_allow_precedence:
  "evaluate cr (compile_policy cr config) access = policy_spec cr (pc_rules config) access \<and>
   (set (pc_rules config') = set (pc_rules config) \<longrightarrow>
      map_option decision_rank (evaluate cr (compile_policy cr config') access) =
      map_option decision_rank (evaluate cr (compile_policy cr config) access))"
  by (auto simp only: evaluate_eq policy_spec_rank)

text \<open>Crates for the witnesses: globs that match literally, no URLs, and scripts of one command.\<close>

definition plain_crates :: crates where
  "plain_crates = \<lparr>glob_compiles = (\<lambda>p. True), glob_match = (\<lambda>p sep s. p = s), url_parse = (\<lambda>u. None),
     to_lowercase = (\<lambda>s. s), parse_shell = one_command_parser\<rparr>"

abbreviation bash_rule :: "rule_action \<Rightarrow> string \<Rightarrow> permission_rule" where
  "bash_rule a p \<equiv> \<lparr>pr_action = a, pr_tool = BashTool, pr_pattern = Some (lit p), pr_pattern_mode = Glob\<rparr>"

abbreviation rules_config :: "permission_rule list \<Rightarrow> permission_config" where
  "rules_config rules \<equiv> \<lparr>pc_rules = rules, pc_prompt_policy = PromptAsk\<rparr>"

lemma deny_ask_allow_precedence_witness:
  "map_option decision_rank (evaluate plain_crates
      (compile_policy plain_crates (rules_config [bash_rule RuleDeny ''rm'', bash_rule RuleAllow ''rm -i'']))
      (Bash (lit ''rm -i x'') :: unit access_kind)) =
   map_option decision_rank (evaluate plain_crates
      (compile_policy plain_crates (rules_config [bash_rule RuleAllow ''rm -i'', bash_rule RuleDeny ''rm'']))
      (Bash (lit ''rm -i x'') :: unit access_kind))"
  using deny_ask_allow_precedence [of plain_crates "rules_config [bash_rule RuleAllow ''rm -i'', bash_rule RuleDeny ''rm'']"
      "Bash (lit ''rm -i x'') :: unit access_kind" "rules_config [bash_rule RuleDeny ''rm'', bash_rule RuleAllow ''rm -i'']"]
  by auto

section \<open>Scripts\<close>

lemma decision_rank_le: "decision_rank d \<le> 3"
  by (cases d) auto

lemma rank_3: "decision_rank d = 3 \<longleftrightarrow> (\<exists>r. d = Reject r \<or> d = PolicyDeny r)"
  by (cases d) auto

text \<open>What the gate on commands answers: nothing, a question or a rejection.\<close>

definition escalation :: "decision option \<Rightarrow> bool" where
  "escalation d \<longleftrightarrow> d = None \<or> d = Some Ask \<or> (\<exists>r. d = Some (Reject r))"

lemma combine_escalation: "escalation a \<Longrightarrow> escalation b \<Longrightarrow> escalation (combine_decisions a b)"
  by (cases a; cases b) (auto simp: escalation_def)

lemma combine_rejects:
  assumes "escalation a" "escalation b" "a = Some (Reject r) \<or> b = Some (Reject r)"
  shows "\<exists>r'. combine_decisions a b = Some (Reject r')"
  using assms by (cases a; cases b) (auto simp: escalation_def)

lemma combine_asks:
  assumes "escalation a" "escalation b" "a \<noteq> None \<or> b \<noteq> None"
  shows "combine_decisions a b \<noteq> None"
  using assms by (cases a; cases b) auto

lemma evaluate_escalation: "escalation (escalate cr policy seg)"
proof -
  have "evaluate_loop cr a rs ask allow \<in> {None, Some Ask, Some Allow} \<union> range (Some \<circ> Reject)"
    for a :: "unit access_kind" and rs ask allow
    by (induction cr a rs ask allow rule: evaluate_loop.induct) (auto split: rule_action.split)
  then have "evaluate cr policy (Bash seg :: unit access_kind) \<in> {None, Some Ask, Some Allow} \<union> range (Some \<circ> Reject)"
    unfolding evaluate_def .
  then show ?thesis by (auto simp: escalate_def escalation_def)
qed

lemma fold_escalation:
  assumes "\<And>x. x \<in> set xs \<Longrightarrow> escalation (f x)" "escalation d"
  shows "escalation (foldl (\<lambda>d x. combine_decisions d (f x)) d xs)"
  using assms by (induction xs arbitrary: d) (simp_all add: combine_escalation)

lemma fold_rejects:
  assumes "\<And>x. x \<in> set xs \<Longrightarrow> escalation (f x)" "escalation d"
    and "(\<exists>r. d = Some (Reject r)) \<or> (\<exists>x \<in> set xs. \<exists>r. f x = Some (Reject r))"
  shows "\<exists>r'. foldl (\<lambda>d x. combine_decisions d (f x)) d xs = Some (Reject r')"
  using assms
proof (induction xs arbitrary: d)
  case (Cons x xs)
  have e: "escalation (combine_decisions d (f x))" using Cons.prems by (simp add: combine_escalation)
  show ?case
  proof (cases "\<exists>r. d = Some (Reject r) \<or> f x = Some (Reject r)")
    case True
    then obtain r where "combine_decisions d (f x) = Some (Reject r)"
      using combine_rejects [OF Cons.prems(2) Cons.prems(1) [of x]] by auto
    with Cons.IH [OF Cons.prems(1) e] show ?thesis by simp
  next
    case False
    with Cons.prems(3) have "\<exists>x \<in> set xs. \<exists>r. f x = Some (Reject r)" by auto
    with Cons.IH [OF Cons.prems(1) e] show ?thesis by simp
  qed
qed simp

lemma fold_not_None:
  assumes "\<And>x. x \<in> set xs \<Longrightarrow> escalation (f x)" "escalation d" "d \<noteq> None \<or> (\<exists>x \<in> set xs. f x \<noteq> None)"
  shows "foldl (\<lambda>d x. combine_decisions d (f x)) d xs \<noteq> None"
  using assms
proof (induction xs arbitrary: d)
  case (Cons x xs)
  have "combine_decisions d (f x) \<noteq> None \<or> (\<exists>x \<in> set xs. f x \<noteq> None)"
    using Cons.prems combine_asks [OF Cons.prems(2) Cons.prems(1) [of x]] by auto
  with Cons.IH [of "combine_decisions d (f x)"] Cons.prems show ?case by (simp add: combine_escalation)
qed simp

text \<open>The forms of all commands of a script, and the opinion of the policy on one of them.\<close>

definition script_forms :: "crates \<Rightarrow> rstr \<Rightarrow> rstr list list option" where
  "script_forms cr cmd =
     map_option (\<lambda>segments. concat (map (\<lambda>parsed. command_forms (pc_words parsed)) segments))
       (all_commands_from_script (parse_shell cr) cmd)"

definition form_decision :: "crates \<Rightarrow> compiled_policy \<Rightarrow> nat \<Rightarrow> rstr list \<Rightarrow> decision option" where
  "form_decision cr policy budget words =
     combine_decisions (escalate cr policy (join [32] words))
       (case shell_dash_c_script words of
          None \<Rightarrow> None
        | Some inner \<Rightarrow> bash_command_segments cr policy budget inner)"

lemma combine_None [simp]: "combine_decisions d None = d"
  by (cases d) auto

lemma combine_assoc: "combine_decisions (combine_decisions a b) c = combine_decisions a (combine_decisions b c)"
  by (cases a; cases b; cases c) auto

lemma bash_command_segments_Suc:
  "bash_command_segments cr policy (Suc budget) cmd =
     (case script_forms cr cmd of
        None \<Rightarrow> Some Ask
      | Some forms \<Rightarrow> foldl (\<lambda>d words. combine_decisions d (form_decision cr policy budget words)) None forms)"
proof -
  have "(let decision = combine_decisions d (escalate cr policy (join [32] words))
         in case shell_dash_c_script words of None \<Rightarrow> decision
            | Some inner \<Rightarrow> combine_decisions decision (bash_command_segments cr policy budget inner)) =
      combine_decisions d (form_decision cr policy budget words)" for d words
    by (simp add: form_decision_def combine_assoc Let_def split: option.split)
  then show ?thesis by (simp add: script_forms_def split: option.split)
qed

declare bash_command_segments.simps(2) [simp del]

lemma segments_escalation: "escalation (bash_command_segments cr policy budget cmd)"
proof (induction budget arbitrary: cmd)
  case (Suc budget)
  have "escalation (form_decision cr policy budget words)" for words
    unfolding form_decision_def using Suc
    by (intro combine_escalation evaluate_escalation) (auto simp: escalation_def split: option.split)
  then show ?case
    by (auto simp: bash_command_segments_Suc escalation_def [of "Some Ask"] escalation_def [of None]
        split: option.split intro!: fold_escalation)
qed (simp add: escalation_def)

lemma form_escalation: "escalation (form_decision cr policy budget words)"
  unfolding form_decision_def
  by (intro combine_escalation evaluate_escalation) (auto simp: segments_escalation escalation_def [of None] split: option.split)

text \<open>
  The commands that a script runs, through at most \<open>n\<close> levels of nested shells: each with the
  wrappers it is written with and without them.
\<close>

inductive runs :: "crates \<Rightarrow> nat \<Rightarrow> rstr \<Rightarrow> rstr list \<Rightarrow> bool" for cr where
  here: "script_forms cr cmd = Some forms \<Longrightarrow> words \<in> set forms \<Longrightarrow> runs cr (Suc n) cmd words"
| nested: "script_forms cr cmd = Some forms \<Longrightarrow> words \<in> set forms \<Longrightarrow>
    shell_dash_c_script words = Some inner \<Longrightarrow> runs cr n inner ws \<Longrightarrow> runs cr (Suc n) cmd ws"

lemma runs_denied:
  assumes "runs cr n cmd words" "escalate cr policy (join [32] words) = Some (Reject r)"
  shows "\<exists>r'. bash_command_segments cr policy n cmd = Some (Reject r')"
  using assms
proof (induction rule: runs.induct)
  case (here cmd forms words n)
  have "\<exists>r'. form_decision cr policy n words = Some (Reject r')"
    unfolding form_decision_def
    by (rule combine_rejects [OF evaluate_escalation]) (auto simp: here segments_escalation escalation_def [of None] split: option.split)
  with here fold_rejects [of forms "form_decision cr policy n" None] show ?case
    by (simp add: bash_command_segments_Suc form_escalation escalation_def [of None]) blast
next
  case (nested cmd forms words inner n ws)
  then obtain r' where "bash_command_segments cr policy n inner = Some (Reject r')" by blast
  then have "\<exists>r'. form_decision cr policy n words = Some (Reject r')"
    unfolding form_decision_def nested(3)
    by (intro combine_rejects [OF evaluate_escalation]) (auto simp: escalation_def)
  with nested fold_rejects [of forms "form_decision cr policy n" None] show ?case
    by (simp add: bash_command_segments_Suc form_escalation escalation_def [of None]) blast
qed

text \<open>A script that cannot be taken apart somewhere within eight levels, or goes deeper.\<close>

inductive opaque :: "crates \<Rightarrow> nat \<Rightarrow> rstr \<Rightarrow> bool" for cr where
  too_deep: "opaque cr 0 cmd"
| unparsed: "script_forms cr cmd = None \<Longrightarrow> opaque cr (Suc n) cmd"
| inside: "script_forms cr cmd = Some forms \<Longrightarrow> words \<in> set forms \<Longrightarrow>
    shell_dash_c_script words = Some inner \<Longrightarrow> opaque cr n inner \<Longrightarrow> opaque cr (Suc n) cmd"

lemma opaque_escalates: "opaque cr n cmd \<Longrightarrow> bash_command_segments cr policy n cmd \<noteq> None"
proof (induction rule: opaque.induct)
  case (inside cmd forms words inner n)
  have "form_decision cr policy n words \<noteq> None"
    unfolding form_decision_def inside(3) option.case
    by (rule combine_asks [OF evaluate_escalation segments_escalation]) (simp add: inside)
  with inside fold_not_None [of forms "form_decision cr policy n" None] show ?case
    by (auto simp: bash_command_segments_Suc form_escalation escalation_def [of None])
qed (simp_all add: bash_command_segments_Suc)

lemma escalate_reject_iff:
  "escalate cr policy s = Some (Reject r) \<longleftrightarrow> evaluate cr policy (Bash s :: unit access_kind) = Some (Reject r)"
  by (auto simp: escalate_def split: option.splits decision.splits)

lemma restrictions_of_deny:
  "r \<in> set (pc_rules config) \<Longrightarrow> pr_action r = RuleDeny \<Longrightarrow> pr_tool r \<in> {BashTool, AnyTool} \<Longrightarrow>
     has_bash_command_restrictions (compile_policy cr config)"
  by (auto simp: compile_policy_def list_ex_iff)



end
