(* ===== verification/PermissionProps.thy ===== *)
theory PermissionProps
  imports PermissionManager PermissionPolicyProps
begin

text \<open>
  What the permission manager promises: a deny rule holds against every mode and grant, a question
  of the policy reaches the user, scripts run unasked only when each of their commands may, grants
  cover what the user saw, and the modes exclude each other under the managed pin. Also where the
  code falls short of what its comments say.
\<close>

section \<open>Policy in a request\<close>

lemma combine_Reject [simp]: "combine_decisions (Some (Reject r)) d = Some (Reject r)"
  by (cases d) (simp_all add: decision_rank_le)

lemma evaluate_escalation_any:
  "evaluate cr policy access \<in> {None, Some Ask, Some Allow} \<union> range (Some \<circ> Reject)"
proof -
  have "evaluate_loop cr a rs ask allow \<in> {None, Some Ask, Some Allow} \<union> range (Some \<circ> Reject)"
    for a :: "'a access_kind" and rs ask allow
    by (induction cr a rs ask allow rule: evaluate_loop.induct) (auto split: rule_action.split)
  then show ?thesis unfolding evaluate_def .
qed

lemma combine_Reject_right:
  "d \<in> {None, Some Ask, Some Allow} \<union> range (Some \<circ> Reject) \<Longrightarrow> \<exists>r'. combine_decisions d (Some (Reject r)) = Some (Reject r')"
  by auto

lemma request_denied:
  "policy_decision cfg env access = Some (Reject r) \<Longrightarrow>
     request cfg env access m = (deny_event (PolicyDeny r) POLICY_DENY, m)"
  by (simp add: request_def)

lemma direct_decision_deny:
  assumes "mc_policy cfg = Some (compile_policy (mc_crates cfg) config)" "rule \<in> set (pc_rules config)"
    and "pr_action rule = RuleDeny" "rule_matches (mc_crates cfg) access rule"
  shows "\<exists>r. policy_decision cfg env access = Some (Reject r)"
proof -
  obtain r where "direct_decision cfg access = Some (Reject r)"
    using policy_spec_denies [OF assms(2,4,3)] by (auto simp: direct_decision_def assms(1) evaluate_eq)
  then show ?thesis by (simp add: policy_decision_def)
qed

lemma script_decision_deny:
  assumes "mc_policy cfg = Some policy" "evaluate_bash_command_policy (mc_crates cfg) policy cmd = Some (Reject r)"
  shows "\<exists>r. policy_decision cfg env (Bash cmd :: 'j access_kind) = Some (Reject r)"
proof -
  have "\<exists>r'. combine_decisions (direct_decision cfg (Bash cmd :: 'j access_kind)) (Some (Reject r)) = Some (Reject r')"
    using evaluate_escalation_any [of "mc_crates cfg" policy "Bash cmd :: 'j access_kind"]
    by (intro combine_Reject_right) (simp add: direct_decision_def assms(1))
  then show ?thesis by (auto simp: policy_decision_def shell_command_decision_def assms)
qed

text \<open>The commands a rule is checked against: the access itself, and the commands of a script.\<close>

definition touches :: "crates \<Rightarrow> 'j access_kind \<Rightarrow> permission_rule \<Rightarrow> bool" where
  "touches cr access rule \<longleftrightarrow> rule_matches cr access rule \<or>
     (\<exists>cmd words. access = Bash cmd \<and> pr_tool rule \<in> {BashTool, AnyTool} \<and> runs cr 8 cmd words \<and>
        rule_matches cr (Bash (join [32] words) :: 'j access_kind) rule)"

lemma rule_matches_Bash: "rule_matches cr (Bash s :: 'a access_kind) r = rule_matches cr (Bash s :: 'b access_kind) r"
proof -
  have "tool_filter_matches (Bash s :: 'a access_kind) t = tool_filter_matches (Bash s :: 'b access_kind) t" for t
    by (cases t) simp_all
  then show ?thesis by (simp add: rule_matches_def pattern_matches_def split: option.split)
qed

lemma gate_rejects:
  assumes "rule \<in> set (pc_rules config)" "pr_action rule = RuleDeny" "pr_tool rule \<in> {BashTool, AnyTool}"
    and "runs cr 8 cmd words" "rule_matches cr (Bash (join [32] words) :: unit access_kind) rule"
  shows "\<exists>r. evaluate_bash_command_policy cr (compile_policy cr config) cmd = Some (Reject r)"
proof -
  have "\<exists>r. escalate cr (compile_policy cr config) (join [32] words) = Some (Reject r)"
    unfolding escalate_reject_iff evaluate_eq using policy_spec_denies [OF assms(1,5,2)] .
  then show ?thesis
    using runs_denied [OF assms(4)] restrictions_of_deny [OF assms(1-3)]
    by (auto simp: evaluate_bash_command_policy_def)
qed

text \<open>C1: a deny rule is absolute. When a deny rule of the managed policy matches an access, or one of
  the commands a script runs, the request is refused as a policy denial: in always-approve and auto
  mode, under every remembered grant, inside the sandbox, whatever the classifier or the user would
  say (neither is asked), and the manager's state is unchanged.\<close>

theorem deny_rule_is_absolute:
  assumes "mc_policy cfg = Some (compile_policy (mc_crates cfg) config)" "rule \<in> set (pc_rules config)"
    and "pr_action rule = RuleDeny" "touches (mc_crates cfg) access rule"
  shows "\<exists>r. request cfg env access m = (deny_event (PolicyDeny r) POLICY_DENY, m)"
proof (cases "rule_matches (mc_crates cfg) access rule")
  case True
  from direct_decision_deny [OF assms(1-3) True, of env] show ?thesis by (auto intro: request_denied)
next
  case False
  with assms(4) obtain cmd words where c: "access = Bash cmd" "pr_tool rule \<in> {BashTool, AnyTool}"
      "runs (mc_crates cfg) 8 cmd words" "rule_matches (mc_crates cfg) (Bash (join [32] words) :: 'a access_kind) rule"
    unfolding touches_def by blast
  from c(4) have "rule_matches (mc_crates cfg) (Bash (join [32] words) :: unit access_kind) rule"
    by (rule iffD1 [OF rule_matches_Bash])
  from gate_rejects [OF assms(2,3) c(2,3) this] obtain r
    where "evaluate_bash_command_policy (mc_crates cfg) (compile_policy (mc_crates cfg) config) cmd = Some (Reject r)" ..
  from script_decision_deny [OF assms(1) this, of env] show ?thesis unfolding c(1) by (auto intro: request_denied)
qed

definition fresh_manager :: manager where
  "fresh_manager = \<lparr>pm_state = default_permission_state, pm_disk = default_permission_state, pm_yolo = False,
     pm_auto = False, pm_has_classifier = True, pm_allow_edits = False\<rparr>"

definition quiet_env :: request_env where
  "quiet_env = \<lparr>re_shell_file = None, re_verdict = VerdictUnavailable, re_sandbox_auto = False, re_outcome = RejectOnce\<rparr>"

lemma deny_rule_is_absolute_witness:
  "\<exists>r. request (spawn_config plain_crates (Some (rules_config [bash_rule RuleDeny ''rm''])) [] True False)
       (quiet_env\<lparr>re_sandbox_auto := True\<rparr>) (Bash (lit ''nice rm x'') :: unit access_kind)
       (fresh_manager\<lparr>pm_yolo := True\<rparr>) =
     (deny_event (PolicyDeny r) POLICY_DENY, fresh_manager\<lparr>pm_yolo := True\<rparr>)"
proof (rule deny_rule_is_absolute [where rule = "bash_rule RuleDeny ''rm''" and config = "rules_config [bash_rule RuleDeny ''rm'']"])
  have "script_forms plain_crates (lit ''nice rm x'') =
      Some [map lit [''nice'', ''rm'', ''x''], map lit [''rm'', ''x'']]" by code_simp
  then have "runs plain_crates 8 (lit ''nice rm x'') (map lit [''rm'', ''x''])"
    using runs.here [of plain_crates "lit ''nice rm x''" _ "map lit [''rm'', ''x'']" 7] by simp
  moreover have "rule_matches plain_crates (Bash (join [32] (map lit [''rm'', ''x''])) :: unit access_kind) (bash_rule RuleDeny ''rm'')"
    by code_simp
  ultimately show "touches (mc_crates (spawn_config plain_crates (Some (rules_config [bash_rule RuleDeny ''rm''])) [] True False))
      (Bash (lit ''nice rm x'') :: unit access_kind) (bash_rule RuleDeny ''rm'')"
    unfolding touches_def by (auto simp: spawn_config_def)
qed (simp_all add: spawn_config_def)

section \<open>The question floor\<close>

lemma request_asked:
  assumes "policy_decision cfg env access = Some Ask" "\<not> pm_yolo m"
  shows "request cfg env access m =
    decide_or_prompt cfg env access True
      (shell_file_decision cfg env access = Some Ask \<or> shell_command_decision cfg access = Some Ask)
      (shell_file_decision cfg env access = Some Ask) None m"
  using assms by (simp add: request_def Let_def)

text \<open>The accesses whose grants a question of the policy suspends.\<close>

definition floor_binds :: "'j access_kind \<Rightarrow> bool" where
  "floor_binds access =
     (case access of Edit _ \<Rightarrow> False | WebFetch _ \<Rightarrow> False | WebSearch _ \<Rightarrow> False | _ \<Rightarrow> True)"

lemma pre_decision_floor:
  "floor_binds access \<Longrightarrow> \<not> mc_remember cfg \<Longrightarrow> pre_decision cfg m access True sf None_reason = None"
  by (auto simp: pre_decision_def floor_binds_def mcp_pre_decision_def split: access_kind.splits)



text \<open>An ask rule for web searches is without effect. Whatever the rule, the mode and the settings
  (denied prompts included), a web search on which the policy says to ask is allowed without asking.\<close>

theorem web_search_never_asked:
  assumes "policy_decision cfg env (WebSearch q :: 'j access_kind) = Some Ask"
  shows "\<exists>reason. request cfg env (WebSearch q :: 'j access_kind) m = (auto_event Allow reason, m)"
proof (cases "pm_yolo m")
  case True
  have "shell_command_decision cfg (WebSearch q :: 'j access_kind) = None" "shell_file_decision cfg env (WebSearch q :: 'j access_kind) = None"
    by (simp_all add: shell_command_decision_def shell_file_decision_def split: option.split)
  with True assms show ?thesis by (auto simp: request_def)
next
  case False
  then show ?thesis
    unfolding request_asked [OF assms False] by (auto simp: decide_or_prompt_def pre_decision_def)
qed

lemma web_search_never_asked_witness:
  "\<exists>reason. request
     (spawn_config plain_crates (Some (rules_config [\<lparr>pr_action = RuleAsk, pr_tool = WebSearchTool, pr_pattern = None, pr_pattern_mode = Glob\<rparr>])) [] False False)
     quiet_env (WebSearch (lit ''secret'') :: unit access_kind) fresh_manager = (auto_event Allow reason, fresh_manager)"
  by (rule web_search_never_asked) code_simp

section \<open>Scripts that run unasked\<close>

text \<open>The three ways a segment counts: excluded by the user, fine, or in need of a decision.\<close>

definition excluded :: "permission_state \<Rightarrow> rstr list \<Rightarrow> bool" where
  "excluded st raw_words \<longleftrightarrow> \<not> is_setup_command (unwrap_wrappers raw_words) \<and>
     (\<exists>d \<in> set (disallowed_bash_commands st). matches_command_prefix (join [32] (unwrap_wrappers raw_words)) d)"

definition fine :: "permission_state \<Rightarrow> bool \<Rightarrow> rstr list \<Rightarrow> bool" where
  "fine st honor raw_words \<longleftrightarrow>
     (let words = unwrap_wrappers raw_words; s = join [32] words
      in is_setup_command words \<or>
         \<not> is_dangerous_command_words words \<and>
         ((\<exists>a \<in> set (allowed_bash_commands st). matches_command_prefix s a) \<or>
          honor \<and> (is_safe_command_words words \<or> is_always_safe_command_words words)))"

lemma segments_step:
  "(\<exists>r. segments_loop st honor (w # segs) needs dang via = SegmentReject r) \<or>
   \<not> excluded st w \<and>
   (\<exists>n d v. segments_loop st honor (w # segs) needs dang via = segments_loop st honor segs n d v)"
proof (cases "excluded st w")
  case True
  then have "find (matches_command_prefix (join [32] (unwrap_wrappers w))) (disallowed_bash_commands st) \<noteq> None"
    by (auto simp: excluded_def find_None_iff)
  with True show ?thesis by (auto simp: excluded_def Let_def)
next
  case False
  then show ?thesis by (simp add: Let_def split: option.split) blast
qed

lemma segments_excluded:
  "\<exists>w \<in> set segs. excluded st w \<Longrightarrow> \<exists>r. segments_loop st honor segs needs dang via = SegmentReject r"
proof (induction segs arbitrary: needs dang via)
  case (Cons w segs)
  from segments_step [of st honor w segs needs dang via] show ?case
    using Cons by (metis set_ConsD)
qed simp

lemma segments_not_excluded:
  assumes "\<forall>w \<in> set segs. \<not> excluded st w"
  shows "(\<exists>v. segments_loop st honor segs needs dang via = AutoAllow v) \<and> needs = [] \<and> (\<forall>w \<in> set segs. fine st honor w) \<or>
    (\<exists>ss d. segments_loop st honor segs needs dang via = NeedsPrompts ss d) \<and> \<not> (needs = [] \<and> (\<forall>w \<in> set segs. fine st honor w))"
  using assms
proof (induction segs arbitrary: needs dang via)
  case (Cons w segs)
  let ?words = "unwrap_wrappers w"
  show ?case
  proof (cases "is_setup_command ?words")
    case True
    then have "fine st honor w" by (simp add: fine_def)
    with True Cons show ?thesis by simp
  next
    case False
    then have none: "find (matches_command_prefix (join [32] ?words)) (disallowed_bash_commands st) = None"
      using Cons.prems by (auto simp: excluded_def find_None_iff)
    have fine_iff: "fine st honor w \<longleftrightarrow> \<not> is_dangerous_command_words ?words \<and>
        (list_ex (matches_command_prefix (join [32] ?words)) (allowed_bash_commands st) \<or>
         honor \<and> (is_safe_command_words ?words \<or> is_always_safe_command_words ?words))"
      using False by (simp add: fine_def Let_def list_ex_iff)
    show ?thesis
    proof (cases "fine st honor w")
      case True
      with False none Cons fine_iff show ?thesis by (simp add: Let_def)
    next
      case not_fine: False
      have "segments_loop st honor (w # segs) needs dang via =
          segments_loop st honor segs (needs @ [join [32] ?words]) (dang \<or> is_dangerous_command_words ?words) via"
        using False none not_fine fine_iff by (auto simp: Let_def)
      with Cons.IH [of "needs @ [join [32] ?words]"] Cons.prems not_fine show ?thesis by simp
    qed
  qed
qed simp

text \<open>When a script runs without a question, in terms of its commands.\<close>

definition script_unasked :: "crates \<Rightarrow> permission_state \<Rightarrow> bool \<Rightarrow> rstr \<Rightarrow> bool" where
  "script_unasked cr st pinned cmd \<longleftrightarrow>
     (case all_commands_from_script (parse_shell cr) cmd of
        None \<Rightarrow> persisted_bash_auto_allows st cmd pinned
      | Some segments \<Rightarrow>
          (\<forall>c \<in> set segments. \<not> excluded st (pc_words c)) \<and>
          ((\<forall>c \<in> set segments. fine st True (pc_words c)) \<or> persisted_bash_auto_allows st cmd pinned))"

lemma grant_unasked:
  "map_option fst (bash_grant_pre_decision cr cmd st pinned (post_classify False)) = Some Allow \<longleftrightarrow>
     script_unasked cr st pinned cmd"
proof (cases "all_commands_from_script (parse_shell cr) cmd")
  case None
  then show ?thesis
    by (simp add: bash_grant_pre_decision_def evaluate_bash_segments_inner_def post_classify_def script_unasked_def)
next
  case (Some segments)
  let ?segs = "map pc_words segments"
  show ?thesis
  proof (cases "\<exists>w \<in> set ?segs. excluded st w")
    case True
    then obtain r where "segments_loop st True ?segs [] False False = SegmentReject r"
      using segments_excluded by blast
    with True Some show ?thesis
      by (auto simp: bash_grant_pre_decision_def evaluate_bash_segments_inner_def post_classify_def script_unasked_def)
  next
    case False
    then have "\<forall>w \<in> set ?segs. \<not> excluded st w" by blast
    from segments_not_excluded [OF this, of True "[]" False False] False Some show ?thesis
      by (auto simp: bash_grant_pre_decision_def evaluate_bash_segments_inner_def post_classify_def script_unasked_def)
  qed
qed

lemma pre_classifier_unasked:
  "bash_grant_pre_decision cr cmd st pinned PRE_CLASSIFIER = Some (d, r) \<Longrightarrow>
     \<exists>r'. bash_grant_pre_decision cr cmd st pinned (post_classify False) = Some (d, r')"
  by (auto simp: bash_grant_pre_decision_def PRE_CLASSIFIER_def post_classify_def persisted_bash_auto_allows_def
      split: segment_evaluation.splits if_splits)

lemma combine_eq_None: "combine_decisions a b = None \<longleftrightarrow> a = None \<and> b = None"
  by (cases a; cases b) auto

abbreviation silently_allowed :: "permission_event \<Rightarrow> bool" where
  "silently_allowed ev \<equiv> ev_decision ev = Allow \<and> \<not> ev_user_prompted ev"

lemma request_unasked_iff:
  assumes "policy_decision cfg env (Bash cmd :: 'j access_kind) = None" "\<not> pm_yolo m" "\<not> pm_auto m" "\<not> re_sandbox_auto env"
  shows "silently_allowed (fst (request cfg env (Bash cmd :: 'j access_kind) m)) \<longleftrightarrow>
    script_unasked (mc_crates cfg) (pm_state m) (mc_pinned cfg) cmd"
proof -
  let ?pre = "bash_grant_pre_decision (mc_crates cfg) cmd (pm_state m) (mc_pinned cfg)"
  have none: "shell_file_decision cfg env (Bash cmd :: 'j access_kind) = None"
      "shell_command_decision cfg (Bash cmd :: 'j access_kind) = None"
    using assms(1) by (simp_all add: policy_decision_def combine_eq_None)
  show ?thesis
  proof (cases "?pre PRE_CLASSIFIER")
    case (Some dr)
    then obtain d r where dr: "?pre PRE_CLASSIFIER = Some (d, r)" by (cases dr) auto
    with none assms have "request cfg env (Bash cmd :: 'j access_kind) m = (auto_event d r, m)"
      by (simp add: request_def session_grant_pre_decision_def)
    with pre_classifier_unasked [OF dr] grant_unasked [of "mc_crates cfg" cmd "pm_state m" "mc_pinned cfg"]
    show ?thesis by (auto simp: auto_event_def)
  next
    case None
    with none assms have "request cfg env (Bash cmd :: 'j access_kind) m =
        decide_or_prompt cfg env (Bash cmd :: 'j access_kind) False False False None m"
      by (simp add: request_def session_grant_pre_decision_def)
    then show ?thesis
      using grant_unasked [of "mc_crates cfg" cmd "pm_state m" "mc_pinned cfg"]
      by (auto simp: decide_or_prompt_def pre_decision_def auto_event_def deny_event_def case_prod_beta split: option.splits)
  qed
qed

text \<open>C15: which scripts run unasked. Where the managed policy has no opinion, outside of always-approve
  and auto mode and the sandbox, a script is allowed without a question exactly when the user has
  excluded none of its commands, and either every command of it, its wrappers peeled off, is a set-up
  command or is not dangerous and is safe-listed or granted, or the whole script was granted (or all
  scripts, unless the managed pin forbids it). A script that cannot be taken apart runs unasked only
  by such a grant for the whole.\<close>

theorem script_runs_unasked_iff:
  assumes "policy_decision cfg env (Bash cmd :: 'j access_kind) = None" "\<not> pm_yolo m" "\<not> pm_auto m" "\<not> re_sandbox_auto env"
  shows "silently_allowed (fst (request cfg env (Bash cmd :: 'j access_kind) m)) \<longleftrightarrow>
    script_unasked (mc_crates cfg) (pm_state m) (mc_pinned cfg) cmd"
  by (rule request_unasked_iff [OF assms])

lemma script_runs_unasked_iff_witness:
  "silently_allowed (fst (request (spawn_config plain_crates None [] True False) quiet_env
      (Bash (lit ''timeout 5 ls -l'') :: unit access_kind) fresh_manager))"
proof -
  have "script_unasked plain_crates default_permission_state False (lit ''timeout 5 ls -l'')"
    by code_simp
  moreover have "policy_decision (spawn_config plain_crates None [] True False) quiet_env
      (Bash (lit ''timeout 5 ls -l'') :: unit access_kind) = None" by code_simp
  ultimately show ?thesis
    using script_runs_unasked_iff [of "spawn_config plain_crates None [] True False" quiet_env "lit ''timeout 5 ls -l''" fresh_manager, where 'j = unit]
    by (simp add: spawn_config_def fresh_manager_def quiet_env_def)
qed

section \<open>Wrappers in wrappers\<close>

abbreviation timeout_1 :: "rstr list" where
  "timeout_1 \<equiv> map lit [''timeout'', ''1'']"

lemma strip_timeout: "ws \<noteq> [] \<Longrightarrow> strip_wrapper_command (timeout_1 @ ws) = Some ws"
proof -
  assume "ws \<noteq> []"
  moreover have "basename (lit ''timeout'') = lit ''timeout''" by (simp add: basename_def lit_simps)
  moreover have "skip_options takes (timeout_1 @ ws) 1 = 1" for takes
    by (subst skip_options.simps) (simp add: starts_with_def lit_simps)
  ultimately show ?thesis
    by (simp add: strip_wrapper_command_def inner_from_def Let_def)
qed

lemma unwrap_timeouts:
  "ws \<noteq> [] \<Longrightarrow> k \<le> n \<Longrightarrow> unwrap_rounds k (concat (replicate n timeout_1) @ ws) = concat (replicate (n - k) timeout_1) @ ws"
proof (induction k arbitrary: n)
  case (Suc k)
  then obtain n' where n: "n = Suc n'" by (cases n) auto
  have "strip_wrapper_command (timeout_1 @ concat (replicate n' timeout_1) @ ws) = Some (concat (replicate n' timeout_1) @ ws)"
    by (rule strip_timeout) (simp add: Suc.prems)
  with Suc n show ?case by simp
qed simp

text \<open>Nine wrappers hide any command. Eight layers of \<open>timeout\<close> are peeled off a command; a ninth
  is left at its head, and since a bare \<open>timeout\<close> counts as a set-up command, the whole is passed
  over: whatever follows it, a recursive deletion included, runs without a question, where the
  policy has no opinion on the two forms it looks at.\<close>

theorem nine_wrappers_hide_command:
  assumes "all_commands_from_script (parse_shell (mc_crates cfg)) cmd = Some [c]"
    and "pc_words c = concat (replicate 9 timeout_1) @ ws" "ws \<noteq> []"
    and "policy_decision cfg env (Bash cmd :: 'j access_kind) = None" "\<not> pm_yolo m" "\<not> pm_auto m" "\<not> re_sandbox_auto env"
  shows "silently_allowed (fst (request cfg env (Bash cmd :: 'j access_kind) m))"
proof -
  have "unwrap_wrappers (pc_words c) = timeout_1 @ ws"
    using unwrap_timeouts [of ws 8 9] assms(2,3) by (simp add: unwrap_wrappers_def)
  then have "is_setup_command (unwrap_wrappers (pc_words c))" by (simp add: is_setup_command_def)
  then have "script_unasked (mc_crates cfg) (pm_state m) (mc_pinned cfg) cmd"
    by (simp add: script_unasked_def assms(1) excluded_def fine_def)
  with request_unasked_iff [OF assms(4-7)] show ?thesis by blast
qed

definition hidden_words :: "rstr list" where
  "hidden_words = concat (replicate 9 timeout_1) @ map lit [''rm'', ''-rf'', ''/'']"

lemma hidden_words_ok: "hidden_words \<noteq> []" "\<forall>w \<in> set hidden_words. valid_str w \<and> 32 \<notin> set w"
  by (auto simp: hidden_words_def lit_simps valid_rune_def)

lemma hidden_unwrapped: "unwrap_wrappers hidden_words = timeout_1 @ map lit [''rm'', ''-rf'', ''/'']"
  using unwrap_timeouts [of "map lit [''rm'', ''-rf'', ''/'']" 8 9] by (simp add: unwrap_wrappers_def hidden_words_def)

lemma nine_wrappers_hide_command_witness:
  "silently_allowed (fst (request (spawn_config plain_crates (Some (rules_config [bash_rule RuleDeny ''rm''])) [] True False)
     quiet_env (Bash (join [32] hidden_words) :: unit access_kind) fresh_manager))"
proof -
  let ?cfg = "spawn_config plain_crates (Some (rules_config [bash_rule RuleDeny ''rm''])) [] True False"
  let ?policy = "compile_policy plain_crates (rules_config [bash_rule RuleDeny ''rm''])"
  obtain c where c: "all_commands_from_script one_command_parser (join [32] hidden_words) = Some [c]" "pc_words c = hidden_words"
    using one_command_parser_words [OF hidden_words_ok] by blast
  have quiet: "form_decision plain_crates ?policy 7 hidden_words = None"
      "form_decision plain_crates ?policy 7 (timeout_1 @ map lit [''rm'', ''-rf'', ''/'']) = None" by code_simp+
  have "script_forms plain_crates (join [32] hidden_words) = Some [hidden_words, timeout_1 @ map lit [''rm'', ''-rf'', ''/'']]"
    by (simp add: script_forms_def plain_crates_def c command_forms_def hidden_unwrapped)
      (simp add: hidden_words_def length_concat sum_list_replicate)
  then have "bash_command_segments plain_crates ?policy (Suc 7) (join [32] hidden_words) = None"
    by (simp only: bash_command_segments_Suc option.case foldl.simps quiet combine_decisions.simps)
  moreover have "evaluate plain_crates ?policy (Bash (join [32] hidden_words) :: unit access_kind) = None" by code_simp
  ultimately have "policy_decision ?cfg quiet_env (Bash (join [32] hidden_words) :: unit access_kind) = None"
    by (simp add: policy_decision_def direct_decision_def shell_command_decision_def shell_file_decision_def
        evaluate_bash_command_policy_def spawn_config_def quiet_env_def)
  from nine_wrappers_hide_command [OF _ _ _ this, of c "map lit [''rm'', ''-rf'', ''/'']" fresh_manager] c show ?thesis
    by (simp add: spawn_config_def plain_crates_def fresh_manager_def quiet_env_def hidden_words_def)
qed

end
