(* ===== verification/PermissionGrants.thy ===== *)
theory PermissionGrants
  imports PermissionProps
begin

text \<open>
  What the manager remembers: which answers of the user change its state and how, when a remembered
  answer is honoured again, and the invariant of all its commands.
\<close>

section \<open>What an answer grants\<close>

lemma set_set_insert [simp]: "set (set_insert x xs) = insert x (set xs)"
  by (auto simp: set_insert_def)

text \<open>The manager after a request is the one before it, or the one after the prompt.\<close>

lemma request_state: "snd (request cfg env access m) \<in> {m, snd (prompt_user access (re_outcome env) m)}"
proof -
  have "snd (decide_or_prompt cfg env access a b c r m) \<in> {m, snd (prompt_user access (re_outcome env) m)}" for a b c r
    by (simp add: decide_or_prompt_def Let_def case_prod_beta split: option.split)
  note decided = this [unfolded insert_iff empty_iff simp_thms]
  show ?thesis
  proof (cases "policy_decision cfg env access")
    case None
    then show ?thesis using decided by (simp add: request_def Let_def split: option.split sum.split prod.split)
  next
    case (Some d)
    then show ?thesis using decided
      by (cases d) (simp_all add: request_def Let_def split: option.split sum.split prod.split)
  qed
qed



section \<open>Remembered commands\<close>

lemma join_take_prefix:
  assumes "0 < n" "n \<le> length ws"
  shows "matches_command_prefix (join [32] ws) (join [32] (take n ws))"
proof -
  have join_append: "xs \<noteq> [] \<Longrightarrow> ys \<noteq> [] \<Longrightarrow> join [32] (xs @ ys) = join [32] xs @ [32 :: nat] @ join [32] ys" for xs ys
    by (induction xs rule: join.induct [of _ "[32]"]) (auto simp: join_Cons_ne)
  show ?thesis
  proof (cases "n = length ws")
    case False
    then have "join [32] ws = join [32] (take n ws) @ [32] @ join [32] (drop n ws)"
      using join_append [of "take n ws" "drop n ws"] assms by fastforce
    then show ?thesis by (simp add: matches_command_prefix_def starts_with_def)
  qed (simp add: matches_command_prefix_def)
qed

lemma scope_bounds:
  assumes "words \<noteq> []"
  shows "0 < default_always_allow_scope words \<and> default_always_allow_scope words \<le> length words"
proof -
  let ?k = "length (takeWhile (\<lambda>w. starts_with w (lit ''-'')) (drop 2 words))"
  have "?k \<le> length words - 2" using length_takeWhile_le [of _ "drop 2 words"] by simp
  then have "0 < min (length words) 2 + ?k" "min (length words) 2 + ?k \<le> length words"
    using assms by (auto simp: min_def)
  then show ?thesis using assms by (auto simp: default_always_allow_scope_def Suc_le_eq)
qed

text \<open>A command on its own: a script of one command that no wrapper surrounds.\<close>

definition plain_script :: "crates \<Rightarrow> rstr \<Rightarrow> rstr list \<Rightarrow> bool" where
  "plain_script cr cmd words \<longleftrightarrow>
     (\<exists>c. all_commands_from_script (parse_shell cr) cmd = Some [c] \<and> pc_words c = words) \<and>
     words \<noteq> [] \<and> unwrap_wrappers words = words"

lemma script_unasked_plain:
  assumes "plain_script cr cmd words"
  shows "script_unasked cr st pinned cmd \<longleftrightarrow> \<not> excluded st words \<and> (fine st True words \<or> persisted_bash_auto_allows st cmd pinned)"
  using assms by (auto simp: plain_script_def script_unasked_def)

lemma bash_prompt_scope:
  "pm_state (snd (bash_prompt cmd (AllowAlwaysBashCommand pre) m)) =
     (pm_state m)\<lparr>allowed_bash_commands := set_insert pre (allowed_bash_commands (pm_state m))\<rparr>"
  "pm_state (snd (bash_prompt cmd AllowAlways m)) =
     (pm_state m)\<lparr>allowed_bash_commands := set_insert cmd (allowed_bash_commands (pm_state m))\<rparr>"
  by (simp_all add: bash_prompt_def persist_def)

text \<open>An always-allow answer is effective. Once the user has allowed a command always, in the scope
  that is offered by default, the same command is not asked about again: the offered prefix is never
  empty, never longer than the command and matches it at a word boundary. Commands on the
  dangerous list and commands the user has excluded are asked about or refused as before.\<close>

theorem always_allow_covers_command:
  assumes "plain_script (mc_crates cfg) cmd words"
    and "m' = snd (bash_prompt cmd (AllowAlwaysBashCommand (join [32] (take (default_always_allow_scope words) words))) m)"
    and "\<not> is_dangerous_command_words words" "\<not> excluded (pm_state m) words"
    and "policy_decision cfg env (Bash cmd :: 'j access_kind) = None" "\<not> pm_yolo m'" "\<not> pm_auto m'" "\<not> re_sandbox_auto env"
  shows "silently_allowed (fst (request cfg env (Bash cmd :: 'j access_kind) m'))"
proof -
  let ?pre = "join [32] (take (default_always_allow_scope words) words)"
  have words: "words \<noteq> []" "unwrap_wrappers words = words" using assms(1) by (simp_all add: plain_script_def)
  have "matches_command_prefix (join [32] words) ?pre"
    using scope_bounds [OF words(1)] by (intro join_take_prefix) auto
  then have "fine (pm_state m') True words"
    using assms(2,3) words(2) by (simp add: fine_def bash_prompt_scope)
  moreover have "\<not> excluded (pm_state m') words" using assms(2,4) by (simp add: excluded_def bash_prompt_scope)
  ultimately have "script_unasked (mc_crates cfg) (pm_state m') (mc_pinned cfg) cmd"
    by (simp add: script_unasked_plain [OF assms(1)])
  with request_unasked_iff [OF assms(5-8)] show ?thesis by blast
qed

lemma always_allow_covers_command_witness:
  "silently_allowed (fst (request (spawn_config plain_crates None [] True False) quiet_env (Bash (lit ''npm run x'') :: unit access_kind)
     (snd (bash_prompt (lit ''npm run x'') (AllowAlwaysBashCommand (lit ''npm run'')) fresh_manager))))"
proof (rule always_allow_covers_command [where words = "map lit [''npm'', ''run'', ''x'']"])
  let ?cfg = "spawn_config plain_crates None [] True False"
  have "all_commands_from_script one_command_parser (lit ''npm run x'') =
      Some [\<lparr>pc_words = map lit [''npm'', ''run'', ''x''], pc_span_start = 0, pc_span_end = 9\<rparr>]" by code_simp
  moreover have "unwrap_wrappers (map lit [''npm'', ''run'', ''x'']) = map lit [''npm'', ''run'', ''x'']" by code_simp
  ultimately show "plain_script (mc_crates ?cfg) (lit ''npm run x'') (map lit [''npm'', ''run'', ''x''])"
    by (simp add: plain_script_def spawn_config_def plain_crates_def)
  have "join [32] (take (default_always_allow_scope (map lit [''npm'', ''run'', ''x''])) (map lit [''npm'', ''run'', ''x''])) = lit ''npm run''"
    by code_simp
  then show "snd (bash_prompt (lit ''npm run x'') (AllowAlwaysBashCommand (lit ''npm run'')) fresh_manager) =
      snd (bash_prompt (lit ''npm run x'') (AllowAlwaysBashCommand (join [32] (take (default_always_allow_scope
        (map lit [''npm'', ''run'', ''x''])) (map lit [''npm'', ''run'', ''x''])))) fresh_manager)"
    by simp
qed code_simp+

text \<open>A dangerous command can be allowed for good. The list of dangerous commands is documented as
  never being auto-approved by an entry of the user, but the answer to allow this script always
  records its full text, and the next request for the same text is allowed without a question,
  dangerous or not.\<close>

theorem dangerous_command_allowed_for_good:
  assumes "plain_script (mc_crates cfg) cmd words" "m' = snd (bash_prompt cmd AllowAlways m)"
    and "is_dangerous_command_words words" "\<not> excluded (pm_state m) words"
    and "policy_decision cfg env (Bash cmd :: 'j access_kind) = None" "\<not> pm_yolo m'" "\<not> pm_auto m'" "\<not> re_sandbox_auto env"
  shows "silently_allowed (fst (request cfg env (Bash cmd :: 'j access_kind) m'))"
proof -
  have "persisted_bash_auto_allows (pm_state m') cmd (mc_pinned cfg)" "\<not> excluded (pm_state m') words"
    using assms(2,4) by (simp_all add: persisted_bash_auto_allows_def excluded_def bash_prompt_scope)
  then have "script_unasked (mc_crates cfg) (pm_state m') (mc_pinned cfg) cmd"
    by (simp add: script_unasked_plain [OF assms(1)])
  with request_unasked_iff [OF assms(5-8)] show ?thesis by blast
qed

lemma dangerous_command_allowed_for_good_witness:
  "silently_allowed (fst (request (spawn_config plain_crates None [] True True) quiet_env (Bash (lit ''rm -r x'') :: unit access_kind)
     (snd (bash_prompt (lit ''rm -r x'') AllowAlways fresh_manager))))"
proof (rule dangerous_command_allowed_for_good [where words = "map lit [''rm'', ''-r'', ''x'']", OF _ refl])
  let ?cfg = "spawn_config plain_crates None [] True True"
  have "all_commands_from_script one_command_parser (lit ''rm -r x'') =
      Some [\<lparr>pc_words = map lit [''rm'', ''-r'', ''x''], pc_span_start = 0, pc_span_end = 7\<rparr>]" by code_simp
  moreover have "unwrap_wrappers (map lit [''rm'', ''-r'', ''x'']) = map lit [''rm'', ''-r'', ''x'']" by code_simp
  ultimately show "plain_script (mc_crates ?cfg) (lit ''rm -r x'') (map lit [''rm'', ''-r'', ''x''])"
    by (simp add: plain_script_def spawn_config_def plain_crates_def)
qed code_simp+

section \<open>The invariant of the manager\<close>

definition manager_ok :: "manager_config \<Rightarrow> manager \<Rightarrow> bool" where
  "manager_ok cfg m \<longleftrightarrow> (mc_pinned cfg \<longrightarrow> \<not> pm_yolo m) \<and> \<not> (pm_yolo m \<and> pm_auto m) \<and>
     pm_disk m = pm_state m \<and> edit_policy (pm_state m) \<noteq> EditAllow"

lemma prompt_user_ok: "manager_ok cfg m \<Longrightarrow> manager_ok cfg (snd (prompt_user access outcome m))"
  by (cases access; cases outcome)
    (auto simp: manager_ok_def prompt_user_def bash_prompt_def other_prompt_def persist_def allow_mcp_tool_def)

lemma request_ok: "manager_ok cfg m \<Longrightarrow> manager_ok cfg (snd (request cfg env access m))"
  using request_state [of cfg env access m] prompt_user_ok [of cfg m access "re_outcome env"] by auto

lemma manager_step_ok: "manager_ok cfg m \<Longrightarrow> manager_ok cfg (snd (manager_step cfg m c))"
proof (cases c)
  case (Request access env)
  assume "manager_ok cfg m"
  from request_ok [OF this, of env access] show ?thesis by (simp add: Request case_prod_beta Let_def)
qed (auto simp: manager_ok_def clamp_yolo_def persist_def default_permission_state_def Let_def)

interpretation permission_actor: invariant_machine "\<lambda>m c. snd (manager_step cfg m c)" "manager_ok cfg" for cfg
  by unfold_locales (rule manager_step_ok)

lemma spawn_ok: "manager_ok cfg (spawn_manager cfg yolo disk)"
  by (auto simp: manager_ok_def spawn_manager_def clamp_yolo_def persist_def Let_def)

text \<open>The modes and the file stay consistent over any sequence of commands, whatever state was on
  disk and whatever mode was asked for at the start: under the managed pin always-approve mode is
  never on, always-approve and auto mode are never on together, every remembered answer is in the
  file, and a session's permission to edit never gets there.\<close>

theorem manager_run_consistent:
  "manager_ok cfg (foldl (\<lambda>m c. snd (manager_step cfg m c)) (spawn_manager cfg yolo disk) cmds)"
  by (rule permission_actor.run_inv [OF spawn_ok])

section \<open>The allow-list of hosts\<close>

text \<open>What one entry of the list covers: all of a host, or what lies below a path of it.\<close>

definition below :: "rstr \<Rightarrow> rstr \<Rightarrow> bool" where
  "below pre p \<longleftrightarrow> p = pre \<or> prefix (pre @ lit ''/'') p"

definition entry_covers :: "crates \<Rightarrow> rstr \<Rightarrow> rstr \<Rightarrow> rstr \<Rightarrow> bool" where
  "entry_covers cr raw host p =
     (let entry = normalize_domain cr raw
      in entry \<noteq> [] \<and>
         (case position (\<lambda>c. c = 47) entry of
            None \<Rightarrow> host = entry
          | Some i \<Rightarrow>
              host = take i entry \<and>
              (trim_end_char 47 (drop i entry) = [] \<or> below (trim_end_char 47 (drop i entry)) p)))"

definition matcher_covers :: "domain_matcher \<Rightarrow> rstr \<Rightarrow> rstr \<Rightarrow> bool" where
  "matcher_covers entries host p =
     (case entries host of
        Some AnyPath \<Rightarrow> True
      | Some (PathPrefixes ps) \<Rightarrow> \<exists>pre \<in> set ps. below pre p
      | None \<Rightarrow> False)"

lemma below_iff: "below pre p \<longleftrightarrow> p = pre \<or> starts_with p pre \<and> starts_with (drop (length pre) p) (lit ''/'')"
  by (auto simp: below_def starts_with_def prefix_def take_append)
    (metis append.assoc append_take_drop_id)

lemma domain_permitted_covers:
  "domain_permitted cr entries u \<longleftrightarrow>
     (\<exists>host. host_str u = Some host \<and> matcher_covers entries (normalize_domain cr host) (to_lowercase cr (url_path u)))"
  by (auto simp: domain_permitted_def matcher_covers_def below_iff list_ex_iff Let_def split: option.splits host_entry.splits)

lemma position_drop: "position P xs = Some i \<Longrightarrow> \<exists>x ys. drop i xs = x # ys \<and> P x"
  by (induction xs arbitrary: i) (auto split: if_splits)

lemma trim_end_char_slash: "trim_end_char 47 (47 # s) = [] \<or> (\<exists>t. trim_end_char 47 (47 # s) = 47 # t \<and> t \<noteq> [])"
proof -
  have "dropWhile (\<lambda>d. d = 47) (rev s @ [47]) = [] \<or> (\<exists>t. dropWhile (\<lambda>d. d = 47) (rev s @ [47]) = t @ [47] \<and> t \<noteq> [])"
    by (induction s rule: rev_induct) auto
  then show ?thesis
  proof
    assume "\<exists>t. dropWhile (\<lambda>d. d = 47) (rev s @ [47]) = t @ [47] \<and> t \<noteq> []"
    then obtain t where "dropWhile (\<lambda>d. d = 47) (rev s @ [47]) = t @ [47]" "t \<noteq> []" by blast
    then show ?thesis unfolding trim_end_char_def by (intro disjI2 exI [of _ "rev t"]) simp
  qed (simp add: trim_end_char_def)
qed

lemma add_domain_entry_covers:
  "matcher_covers (add_domain_entry cr entries raw) host p \<longleftrightarrow> matcher_covers entries host p \<or> entry_covers cr raw host p"
proof (cases "normalize_domain cr raw = []")
  case True
  then show ?thesis by (simp add: add_domain_entry_def entry_covers_def)
next
  case ne: False
  let ?n = "normalize_domain cr raw"
  show ?thesis
  proof (cases "position (\<lambda>c. c = 47) ?n")
    case None
    with ne show ?thesis
      by (auto simp: add_domain_entry_def entry_covers_def matcher_covers_def Let_def split: option.split host_entry.split)
  next
    case (Some i)
    then obtain s where s: "drop i ?n = 47 # s" using position_drop [OF Some] by auto
    from trim_end_char_slash [of s] show ?thesis
    proof
      assume "trim_end_char 47 (47 # s) = []"
      with ne Some s show ?thesis
        by (auto simp: add_domain_entry_def entry_covers_def matcher_covers_def Let_def split: option.split host_entry.split)
    next
      assume "\<exists>t. trim_end_char 47 (47 # s) = 47 # t \<and> t \<noteq> []"
      with ne Some s show ?thesis
        by (auto simp: add_domain_entry_def entry_covers_def matcher_covers_def Let_def starts_with_def lit_simps
            split: option.split host_entry.split)
    qed
  qed
qed

lemma domain_matcher_new_covers:
  "matcher_covers (domain_matcher_new cr raws) host p \<longleftrightarrow> (\<exists>raw \<in> set raws. entry_covers cr raw host p)"
proof -
  have "matcher_covers (foldl (add_domain_entry cr) e raws) host p \<longleftrightarrow>
      matcher_covers e host p \<or> (\<exists>raw \<in> set raws. entry_covers cr raw host p)" for e
    by (induction raws arbitrary: e) (auto simp: add_domain_entry_covers)
  then show ?thesis by (simp add: domain_matcher_new_def matcher_covers_def [of Map.empty])
qed

text \<open>The allow-list of hosts means what its entries say. A URL is permitted exactly when some entry
  covers it: an entry without a path covers every path of exactly that host (not of its subdomains),
  an entry with a path covers that path and what lies below it at a slash. The order of the entries,
  repeated entries and a host that occurs both with and without a path make no difference.\<close>

theorem host_allow_list_correct:
  "domain_permitted cr (domain_matcher_new cr raws) u \<longleftrightarrow>
     (\<exists>host raw. host_str u = Some host \<and> raw \<in> set raws \<and>
        entry_covers cr raw (normalize_domain cr host) (to_lowercase cr (url_path u)))"
  by (auto simp: domain_permitted_covers domain_matcher_new_covers)

end
