(* ===== verification/PermissionHandle.thy ===== *)
theory PermissionHandle
  imports PermissionGrants
begin

text \<open>
  The handle of the permission manager (\<open>PermissionHandle\<close> of \<^verbatim>\<open>manager.rs\<close>) next to the actor: the
  modes are kept twice, in the handle's atomics and in the actor, and this theory shows that the two
  agree once nothing is in flight, and that the managed pin holds at every moment.
\<close>

section \<open>Handle and actor\<close>

text \<open>
  The handle keeps the two modes in atomics that clients read without waiting for the actor. A call
  first stores what it expects into the atomics, then sends the command; the actor, when it gets to the
  command, stores what it decided. Calls run concurrently: a call in progress is the list of the
  operations it still has to do, and so is the actor's turn.
\<close>

datatype micro = StoreYolo bool | StoreAuto bool | SendYolo bool | SendAuto bool

definition set_yolo_mode :: "bool \<Rightarrow> bool \<Rightarrow> micro list" where
  "set_yolo_mode pinned enabled =
     (let clamped = clamp_yolo enabled pinned
      in [StoreYolo clamped] @ (if clamped then [StoreAuto False] else []) @ [SendYolo enabled])"

definition set_auto_mode :: "bool \<Rightarrow> micro list" where
  "set_auto_mode enabled =
     [StoreAuto enabled] @ (if enabled then [StoreYolo False] else []) @ [SendAuto enabled]"

record handle_world =
  yolo_state :: bool
  auto_state :: bool
  calls :: "micro list list"
  inbox :: "micro list"
  actor_stores :: "micro list"
  actor :: manager

fun mode_command :: "micro \<Rightarrow> unit permission_command" where
  "mode_command (SendYolo b) = SetYoloMode b"
| "mode_command (SendAuto b) = SetAutoMode b"
| "mode_command _ = SetClassifierTranscript"

text \<open>The stores the actor does for a command, after it has changed its own variables.\<close>

fun actor_answers :: "bool \<Rightarrow> micro \<Rightarrow> micro list" where
  "actor_answers pinned (SendYolo enabled) =
     (let clamped = clamp_yolo enabled pinned
      in [StoreYolo clamped] @ (if clamped then [StoreAuto False] else []))"
| "actor_answers pinned (SendAuto enabled) = [StoreAuto enabled] @ (if enabled then [StoreYolo False] else [])"
| "actor_answers pinned _ = []"

fun store :: "micro \<Rightarrow> handle_world \<Rightarrow> handle_world" where
  "store (StoreYolo b) w = w\<lparr>yolo_state := b\<rparr>"
| "store (StoreAuto b) w = w\<lparr>auto_state := b\<rparr>"
| "store m w = w\<lparr>inbox := inbox w @ [m]\<rparr>"

inductive handle_step :: "manager_config \<Rightarrow> handle_world \<Rightarrow> handle_world \<Rightarrow> bool" for cfg where
  call_yolo: "handle_step cfg w (w\<lparr>calls := set_yolo_mode (mc_pinned cfg) b # calls w\<rparr>)"
| call_auto: "handle_step cfg w (w\<lparr>calls := set_auto_mode b # calls w\<rparr>)"
| call_step: "calls w = before @ (m # rest) # after \<Longrightarrow>
    handle_step cfg w ((store m w)\<lparr>calls := before @ rest # after\<rparr>)"
| actor_takes: "actor_stores w = [] \<Longrightarrow> inbox w = m # ms \<Longrightarrow>
    handle_step cfg w (w\<lparr>inbox := ms, actor_stores := actor_answers (mc_pinned cfg) m,
      actor := snd (manager_step cfg (actor w) (mode_command m))\<rparr>)"
| actor_store: "actor_stores w = m # ms \<Longrightarrow> handle_step cfg w ((store m w)\<lparr>actor_stores := ms\<rparr>)"
| actor_request: "actor_stores w = [] \<Longrightarrow>
    handle_step cfg w (w\<lparr>actor := snd (request cfg env (access :: unit access_kind) (actor w))\<rparr>)"

text \<open>Whether a later store of the actor settles the one atomic or the other.\<close>

fun settles_yolo :: "micro \<Rightarrow> bool" where
  "settles_yolo (SendYolo b) = True"
| "settles_yolo (SendAuto b) = b"
| "settles_yolo _ = False"

fun settles_auto :: "bool \<Rightarrow> micro \<Rightarrow> bool" where
  "settles_auto pinned (SendYolo b) = clamp_yolo b pinned"
| "settles_auto pinned (SendAuto b) = True"
| "settles_auto pinned _ = False"

definition pending :: "handle_world \<Rightarrow> micro set" where
  "pending w = set (inbox w) \<union> (\<Union>c \<in> set (calls w). set c)"

definition yolo_settled :: "handle_world \<Rightarrow> bool" where
  "yolo_settled w \<longleftrightarrow> (\<exists>m \<in> pending w. settles_yolo m) \<or>
     (if \<exists>b. StoreYolo b \<in> set (actor_stores w) then True else yolo_state w = pm_yolo (actor w))"

definition auto_settled :: "manager_config \<Rightarrow> handle_world \<Rightarrow> bool" where
  "auto_settled cfg w \<longleftrightarrow> (\<exists>m \<in> pending w. settles_auto (mc_pinned cfg) m) \<or>
     (if \<exists>b. StoreAuto b \<in> set (actor_stores w) then True else auto_state w = pm_auto (actor w))"

text \<open>A call in progress: whatever it stores, the command that settles it is still to be sent.\<close>

definition call_ok :: "bool \<Rightarrow> micro list \<Rightarrow> bool" where
  "call_ok pinned c \<longleftrightarrow> (\<exists>pre. pre @ c \<in> range (set_yolo_mode pinned) \<union> range set_auto_mode)"

definition stores_ok :: "handle_world \<Rightarrow> bool" where
  "stores_ok w \<longleftrightarrow> (\<forall>b. StoreYolo b \<in> set (actor_stores w) \<longrightarrow> b = pm_yolo (actor w)) \<and>
     (\<forall>b. StoreAuto b \<in> set (actor_stores w) \<longrightarrow> b = pm_auto (actor w)) \<and>
     distinct (actor_stores w) \<and> set (actor_stores w) \<subseteq> range StoreYolo \<union> range StoreAuto"

definition world_ok :: "manager_config \<Rightarrow> handle_world \<Rightarrow> bool" where
  "world_ok cfg w \<longleftrightarrow> (\<forall>c \<in> set (calls w). call_ok (mc_pinned cfg) c) \<and> stores_ok w \<and>
     set (inbox w) \<subseteq> range SendYolo \<union> range SendAuto \<and> yolo_settled w \<and> auto_settled cfg w \<and>
     manager_ok cfg (actor w) \<and> (mc_pinned cfg \<longrightarrow> \<not> yolo_state w)"

lemma call_ok_step:
  assumes "call_ok p (m # rest)"
  shows "call_ok p rest"
    and "m = StoreYolo v \<Longrightarrow> (\<exists>s \<in> set rest. settles_yolo s) \<and> (p \<longrightarrow> \<not> v)"
    and "m = StoreAuto v \<Longrightarrow> \<exists>s \<in> set rest. settles_auto p s"
proof -
  from assms obtain pre where pre: "pre @ m # rest \<in> range (set_yolo_mode p) \<union> range set_auto_mode"
    unfolding call_ok_def by blast
  then have "(pre @ [m]) @ rest \<in> range (set_yolo_mode p) \<union> range set_auto_mode" by simp
  then show "call_ok p rest" unfolding call_ok_def by blast
  from pre show "m = StoreYolo v \<Longrightarrow> (\<exists>s \<in> set rest. settles_yolo s) \<and> (p \<longrightarrow> \<not> v)"
    by (auto simp: set_yolo_mode_def set_auto_mode_def clamp_yolo_def Let_def append_eq_Cons_conv split: if_splits)
  from pre show "m = StoreAuto v \<Longrightarrow> \<exists>s \<in> set rest. settles_auto p s"
    by (auto simp: set_yolo_mode_def set_auto_mode_def clamp_yolo_def Let_def append_eq_Cons_conv split: if_splits)
qed

lemma call_ok_new: "call_ok p (set_yolo_mode p b)" "call_ok p (set_auto_mode b)"
  unfolding call_ok_def by (auto intro!: exI [of _ "[]"])

lemma request_modes:
  "pm_yolo (snd (request cfg env access m)) = pm_yolo m" "pm_auto (snd (request cfg env access m)) = pm_auto m"
proof -
  have "pm_yolo (snd (prompt_user access out m)) = pm_yolo m \<and> pm_auto (snd (prompt_user access out m)) = pm_auto m" for out
    by (cases access; cases out) (simp_all add: prompt_user_def bash_prompt_def other_prompt_def persist_def allow_mcp_tool_def)
  with request_state [of cfg env access m]
  show "pm_yolo (snd (request cfg env access m)) = pm_yolo m" "pm_auto (snd (request cfg env access m)) = pm_auto m" by auto
qed

text \<open>The steps of a call and of the actor keep the invariant.\<close>

lemma call_step_ok:
  assumes ok: "world_ok cfg w" and w: "calls w = before @ (m # rest) # after"
  shows "world_ok cfg ((store m w)\<lparr>calls := before @ rest # after\<rparr>)"
proof -
  let ?w = "(store m w)\<lparr>calls := before @ rest # after\<rparr>"
  have c: "call_ok (mc_pinned cfg) (m # rest)" using ok w by (simp add: world_ok_def)
  note step = call_ok_step [OF c]
  have calls: "\<forall>c \<in> set (calls ?w). call_ok (mc_pinned cfg) c"
    using ok w step(1) by (auto simp: world_ok_def)
  show ?thesis
  proof (cases m)
    case (StoreYolo v)
    with step(2) [of v] have "\<exists>s \<in> pending ?w. settles_yolo s" by (auto simp: pending_def)
    moreover have "pending w = insert m (pending ?w)" using w by (auto simp: pending_def StoreYolo)
    ultimately show ?thesis
      using ok calls step(2) [of v]
      by (auto simp: world_ok_def stores_ok_def yolo_settled_def auto_settled_def StoreYolo)
  next
    case (StoreAuto v)
    with step(3) [of v] have "\<exists>s \<in> pending ?w. settles_auto (mc_pinned cfg) s" by (auto simp: pending_def)
    moreover have "pending w = insert m (pending ?w)" using w by (auto simp: pending_def StoreAuto)
    ultimately show ?thesis
      using ok calls by (auto simp: world_ok_def stores_ok_def yolo_settled_def auto_settled_def StoreAuto)
  next
    case (SendYolo v)
    have "pending ?w = pending w" using w by (auto simp: pending_def SendYolo)
    then show ?thesis
      using ok calls by (auto simp: world_ok_def stores_ok_def yolo_settled_def auto_settled_def SendYolo)
  next
    case (SendAuto v)
    have "pending ?w = pending w" using w by (auto simp: pending_def SendAuto)
    then show ?thesis
      using ok calls by (auto simp: world_ok_def stores_ok_def yolo_settled_def auto_settled_def SendAuto)
  qed
qed

lemma actor_takes_ok:
  assumes ok: "world_ok cfg w" and w: "actor_stores w = []" "inbox w = m # ms"
  shows "world_ok cfg (w\<lparr>inbox := ms, actor_stores := actor_answers (mc_pinned cfg) m,
      actor := snd (manager_step cfg (actor w) (mode_command m))\<rparr>)" (is "world_ok cfg ?w")
proof -
  have pend: "pending w = insert m (pending ?w)" using w by (auto simp: pending_def)
  have m: "m \<in> range SendYolo \<union> range SendAuto" using ok w by (auto simp: world_ok_def)
  have mok: "manager_ok cfg (actor ?w)" using ok by (simp add: world_ok_def manager_step_ok)
  have "stores_ok ?w" using m by (auto simp: stores_ok_def Let_def clamp_yolo_def split: if_splits)
  moreover have "yolo_settled ?w" "auto_settled cfg ?w"
    using ok w m pend by (auto simp: world_ok_def yolo_settled_def auto_settled_def Let_def clamp_yolo_def split: if_splits)
  ultimately show ?thesis using ok w mok by (auto simp: world_ok_def)
qed

lemma actor_store_ok:
  assumes ok: "world_ok cfg w" and w: "actor_stores w = m # ms"
  shows "world_ok cfg ((store m w)\<lparr>actor_stores := ms\<rparr>)" (is "world_ok cfg ?w")
proof -
  have st: "stores_ok w" using ok by (simp add: world_ok_def)
  with w have "m \<in> range StoreYolo \<union> range StoreAuto" by (auto simp: stores_ok_def)
  then consider v where "m = StoreYolo v" | v where "m = StoreAuto v" by auto
  then show ?thesis
  proof cases
    case 1
    with st w have v: "v = pm_yolo (actor w)" "\<forall>b. StoreYolo b \<notin> set ms" by (auto simp: stores_ok_def)
    with ok w 1 show ?thesis
      by (auto simp: world_ok_def stores_ok_def yolo_settled_def auto_settled_def pending_def manager_ok_def)
  next
    case 2
    with st w have v: "v = pm_auto (actor w)" "\<forall>b. StoreAuto b \<notin> set ms" by (auto simp: stores_ok_def)
    with ok w 2 show ?thesis
      by (auto simp: world_ok_def stores_ok_def yolo_settled_def auto_settled_def pending_def manager_ok_def)
  qed
qed

lemma new_call_ok:
  assumes ok: "world_ok cfg w" and c: "call_ok (mc_pinned cfg) c"
  shows "world_ok cfg (w\<lparr>calls := c # calls w\<rparr>)" (is "world_ok cfg ?w")
proof -
  have "pending w \<subseteq> pending ?w" by (auto simp: pending_def)
  then have "yolo_settled w \<Longrightarrow> yolo_settled ?w" "auto_settled cfg w \<Longrightarrow> auto_settled cfg ?w"
    by (auto simp: yolo_settled_def auto_settled_def split: if_splits)
  with ok c show ?thesis by (simp add: world_ok_def stores_ok_def)
qed

lemma handle_step_ok: "handle_step cfg w w' \<Longrightarrow> world_ok cfg w \<Longrightarrow> world_ok cfg w'"
proof (induction rule: handle_step.induct)
  case (call_yolo w b)
  then show ?case by (intro new_call_ok call_ok_new)
next
  case (call_auto w b)
  then show ?case by (intro new_call_ok call_ok_new)
next
  case (actor_request w env access)
  then show ?case
    by (auto simp: world_ok_def stores_ok_def yolo_settled_def auto_settled_def pending_def request_modes request_ok)
qed (blast intro: call_step_ok actor_takes_ok actor_store_ok)+

definition handle_start :: "manager \<Rightarrow> handle_world" where
  "handle_start m = \<lparr>yolo_state = pm_yolo m, auto_state = pm_auto m, calls = [], inbox = [], actor_stores = [], actor = m\<rparr>"

lemma handle_reachable_ok:
  assumes "(handle_step cfg)\<^sup>*\<^sup>* (handle_start (spawn_manager cfg yolo disk)) w"
  shows "world_ok cfg w"
  using assms
proof (induction rule: rtranclp_induct)
  case base
  show ?case
    using spawn_ok [of cfg yolo disk]
    by (auto simp: world_ok_def handle_start_def stores_ok_def yolo_settled_def auto_settled_def manager_ok_def)
qed (rule handle_step_ok)

text \<open>Nothing is in flight: no call has anything left to do, and the actor has caught up.\<close>

definition at_rest :: "handle_world \<Rightarrow> bool" where
  "at_rest w \<longleftrightarrow> (\<forall>c \<in> set (calls w). c = []) \<and> inbox w = [] \<and> actor_stores w = []"

text \<open>C8: the modes that clients read are those the actor uses. However many threads switch the modes at
  the same time, in whatever order their stores, their commands and the actor's own stores interleave
  with each other and with requests, once nothing is in flight the two atomics equal the actor's modes
  and are not both on; and under the managed pin no reader ever sees always-approve mode on, not even
  for a moment.\<close>

theorem handle_agrees_with_actor:
  assumes "(handle_step cfg)\<^sup>*\<^sup>* (handle_start (spawn_manager cfg yolo disk)) w"
  shows "(at_rest w \<longrightarrow> yolo_state w = pm_yolo (actor w) \<and> auto_state w = pm_auto (actor w) \<and>
      \<not> (yolo_state w \<and> auto_state w)) \<and>
    (mc_pinned cfg \<longrightarrow> \<not> yolo_state w \<and> \<not> pm_yolo (actor w))"
proof -
  have ok: "world_ok cfg w" by (rule handle_reachable_ok [OF assms])
  have "pending w = {}" if "at_rest w" using that by (auto simp: at_rest_def pending_def)
  with ok show ?thesis
    by (auto simp: world_ok_def yolo_settled_def auto_settled_def manager_ok_def at_rest_def)
qed

lemma handle_agrees_with_actor_witness:
  "\<exists>w. (handle_step (spawn_config plain_crates None [] True False))\<^sup>*\<^sup>*
     (handle_start (spawn_manager (spawn_config plain_crates None [] True False) False default_permission_state)) w \<and>
   at_rest w \<and> yolo_state w = pm_yolo (actor w)"
proof -
  let ?cfg = "spawn_config plain_crates None [] True False"
  let ?w = "handle_start (spawn_manager ?cfg False default_permission_state)"
  have "(handle_step ?cfg)\<^sup>*\<^sup>* ?w ?w" "at_rest ?w" by (simp_all add: at_rest_def handle_start_def)
  with handle_agrees_with_actor [of ?cfg False default_permission_state ?w] show ?thesis by blast
qed

end
