(* ===== verification/Todo.thy ===== *)
theory Todo
  imports Goal "HOL-Library.DAList"
begin

text \<open>
  The task list of the agent: the \<^verbatim>\<open>todo_write\<close> tool (\<^verbatim>\<open>ds_build/todo/mod.rs\<close>) and its
  full-replace sibling (\<^verbatim>\<open>opencode/todowrite/mod.rs\<close>), which share one state, the plan that the
  client is shown for it (\<^verbatim>\<open>ds-shell/src/tools/todo.rs\<close>, \<^verbatim>\<open>turn_end.rs\<close>), and the gate that keeps a
  turn from ending while tasks are open (\<^verbatim>\<open>reminders.rs\<close>, \<^verbatim>\<open>turn.rs\<close>). The ordered map of the crate
  \<^verbatim>\<open>indexmap\<close> and the JSON values of \<^verbatim>\<open>serde_json\<close> are records of the operations the code calls;
  what it relies on are the locales \<open>index_map\<close> and \<open>json_object\<close>.
\<close>

section \<open>What comes from other crates\<close>

text \<open>
  \<^verbatim>\<open>IndexMap\<close>: \<open>im_get_mut\<close> writes through the reference that \<^verbatim>\<open>get_mut\<close> returns. A map keeps its
  keys in the order of their first insertion; inserting a key it has replaces the value in place.
\<close>

record ('k, 'v, 'm) index_map =
  im_default :: 'm
  im_clear :: "'m \<Rightarrow> 'm"
  im_insert :: "'k \<Rightarrow> 'v \<Rightarrow> 'm \<Rightarrow> 'm"
  im_get_mut :: "'k \<Rightarrow> ('v \<Rightarrow> 'v) \<Rightarrow> 'm \<Rightarrow> 'm option"
  im_contains_key :: "'k \<Rightarrow> 'm \<Rightarrow> bool"
  im_is_empty :: "'m \<Rightarrow> bool"
  im_iter :: "'m \<Rightarrow> ('k \<times> 'v) list"
  im_values :: "'m \<Rightarrow> 'v list"

locale index_map =
  fixes im :: "('k, 'v, 'm) index_map"
  assumes keys_distinct: "distinct (map fst (im_iter im m))"
    and iter_default: "im_iter im (im_default im) = []"
    and iter_clear: "im_iter im (im_clear im m) = []"
    and iter_insert: "im_iter im (im_insert im k v m) = AList.update k v (im_iter im m)"
    and get_mut_None: "im_get_mut im k f m = None \<longleftrightarrow> k \<notin> fst ` set (im_iter im m)"
    and get_mut_Some: "im_get_mut im k f m = Some m' \<Longrightarrow>
          im_iter im m' = AList.map_entry k f (im_iter im m)"
    and contains_key: "im_contains_key im k m \<longleftrightarrow> k \<in> fst ` set (im_iter im m)"
    and is_empty: "im_is_empty im m \<longleftrightarrow> im_iter im m = []"
    and values_iter: "im_values im m = map snd (im_iter im m)"

text \<open>JSON: \<open>'j\<close> is a value, \<open>'o\<close> the map of an object.\<close>

record ('j, 'o) json =
  js_object :: "'o \<Rightarrow> 'j"
  js_as_object :: "'j \<Rightarrow> 'o option"
  js_bool :: "bool \<Rightarrow> 'j"
  js_as_bool :: "'j \<Rightarrow> bool option"
  js_empty :: 'o
  js_get :: "rstr \<Rightarrow> 'o \<Rightarrow> 'j option"
  js_insert :: "rstr \<Rightarrow> 'j \<Rightarrow> 'o \<Rightarrow> 'o"

locale json_object =
  fixes js :: "('j, 'o) json"
  assumes as_object [simp]: "js_as_object js (js_object js o1) = Some o1"
    and as_bool [simp]: "js_as_bool js (js_bool js b) = Some b"
    and get_empty [simp]: "js_get js k (js_empty js) = None"
    and get_insert [simp]: "js_get js k (js_insert js k' v o1) = (if k = k' then Some v else js_get js k o1)"

section \<open>State\<close>

datatype todo_error = MissingTodoContent rstr | MissingTodoID rstr | DuplicateTodoID rstr

fun show_todo_error :: "todo_error \<Rightarrow> rstr" where
  "show_todo_error (MissingTodoContent m) = lit ''Missing Todo content in mode: '' @ m"
| "show_todo_error (MissingTodoID m) = lit ''Missing Todo ID in mode: '' @ m"
| "show_todo_error (DuplicateTodoID i) = lit ''Duplicate Todo ID in response: '' @ i"

datatype todo_priority = High | Medium | Low

datatype todo_status = Pending | InProgress | Completed | TodoCancelled

fun status_tag :: "todo_status \<Rightarrow> rstr" where
  "status_tag Pending = lit ''[pending]''"
| "status_tag InProgress = lit ''[in_progress]''"
| "status_tag Completed = lit ''[completed]''"
| "status_tag TodoCancelled = lit ''[cancelled]''"

record 'j todo_item =
  td_content :: rstr
  td_priority :: todo_priority
  td_status :: todo_status
  td_meta :: "'j option"

text \<open>\<^verbatim>\<open>TodoState\<close> is the map alone.\<close>

type_synonym ('j, 'm) todo_map = "(rstr, 'j todo_item, 'm) index_map"

definition todo_push :: "('j, 'm) todo_map \<Rightarrow> rstr \<Rightarrow> 'j todo_item \<Rightarrow> 'm \<Rightarrow> 'm" where
  "todo_push im i todo m = im_insert im i todo m"

definition todo_clear :: "('j, 'm) todo_map \<Rightarrow> 'm \<Rightarrow> 'm" where
  "todo_clear im m = im_clear im m"

text \<open>What \<^verbatim>\<open>update\<close> writes through the reference; its result says whether the task was there.\<close>

definition write_todo :: "rstr option \<Rightarrow> todo_status option \<Rightarrow> 'j todo_item \<Rightarrow> 'j todo_item" where
  "write_todo c s todo =
     (let todo = (case c of
                    Some c \<Rightarrow> if c \<noteq> [] then todo\<lparr>td_content := c\<rparr> else todo
                  | None \<Rightarrow> todo)
      in case s of Some s \<Rightarrow> todo\<lparr>td_status := s\<rparr> | None \<Rightarrow> todo)"

definition todo_update_item :: "('j, 'm) todo_map \<Rightarrow> rstr \<Rightarrow> rstr option \<Rightarrow> todo_status option \<Rightarrow> 'm
    \<Rightarrow> bool \<times> 'm" where
  "todo_update_item im i c s m =
     (case im_get_mut im i (write_todo c s) m of
        None \<Rightarrow> (False, m)
      | Some m \<Rightarrow> (True, m))"

definition todo_items :: "('j, 'm) todo_map \<Rightarrow> 'm \<Rightarrow> 'j todo_item list" where
  "todo_items im m = im_values im m"

definition todo_items_with_ids :: "('j, 'm) todo_map \<Rightarrow> 'm \<Rightarrow> (rstr \<times> 'j todo_item) list" where
  "todo_items_with_ids im m = im_iter im m"

definition has_id :: "('j, 'm) todo_map \<Rightarrow> rstr \<Rightarrow> 'm \<Rightarrow> bool" where
  "has_id im i m = im_contains_key im i m"

section \<open>The tool \<^verbatim>\<open>todo_write\<close>\<close>

record todo_update =
  tu_id :: rstr
  tu_content :: "rstr option"
  tu_status :: "todo_status option"

record todo_write_input =
  tw_merge :: bool
  tw_todos :: "todo_update list"

definition default_merge :: bool where
  "default_merge = True"

definition has_no_content :: "todo_update \<Rightarrow> bool" where
  "has_no_content u = (case tu_content u of None \<Rightarrow> True | Some c \<Rightarrow> c = [])"

text \<open>\<^verbatim>\<open>find(|id| !seen.insert(id))\<close> over the identifiers in order.\<close>

fun find_seen :: "rstr set \<Rightarrow> rstr list \<Rightarrow> rstr option" where
  "find_seen seen [] = None"
| "find_seen seen (i # is) = (if i \<in> seen then Some i else find_seen (insert i seen) is)"

definition validate_no_duplicate_ids :: "todo_update list \<Rightarrow> todo_error + unit" where
  "validate_no_duplicate_ids updates =
     (case find_seen {} (map tu_id updates) of
        Some dup \<Rightarrow> Inl (DuplicateTodoID dup)
      | None \<Rightarrow> Inr ())"

text \<open>The task that both modes build for an update.\<close>

definition new_todo :: "todo_update \<Rightarrow> 'j todo_item" where
  "new_todo u =
     \<lparr>td_content = (if has_no_content u then tu_id u else the (tu_content u)),
      td_priority = Medium,
      td_status = (case tu_status u of Some s \<Rightarrow> s | None \<Rightarrow> Pending),
      td_meta = None\<rparr>"

fun replace_loop :: "('j, 'm) todo_map \<Rightarrow> todo_update list \<Rightarrow> 'm \<Rightarrow> 'm" where
  "replace_loop im [] m = m"
| "replace_loop im (u # us) m = replace_loop im us (todo_push im (tu_id u) (new_todo u) m)"

definition apply_replace :: "('j, 'm) todo_map \<Rightarrow> todo_update list \<Rightarrow> 'm \<Rightarrow> (todo_error + unit) \<times> 'm" where
  "apply_replace im updates m = (Inr (), replace_loop im updates (todo_clear im m))"

fun merge_loop :: "('j, 'm) todo_map \<Rightarrow> todo_update list \<Rightarrow> 'm \<Rightarrow> 'm" where
  "merge_loop im [] m = m"
| "merge_loop im (u # us) m =
     (case todo_update_item im (tu_id u) (tu_content u) (tu_status u) m of
        (True, m) \<Rightarrow> merge_loop im us m
      | (False, m) \<Rightarrow> merge_loop im us (todo_push im (tu_id u) (new_todo u) m))"

definition apply_merge :: "('j, 'm) todo_map \<Rightarrow> todo_update list \<Rightarrow> 'm \<Rightarrow> (todo_error + unit) \<times> 'm" where
  "apply_merge im updates m = (Inr (), merge_loop im updates m)"

definition summarize_todo_state :: "('j, 'm) todo_map \<Rightarrow> 'm \<Rightarrow> rstr" where
  "summarize_todo_state im m =
     (if im_is_empty im m then lit ''No tasks currently tracked.''
      else concat (map (\<lambda>(i, t). lit ''- '' @ status_tag (td_status t) @ lit '' '' @ i @ lit '': ''
                                  @ td_content t @ [10])
                       (todo_items_with_ids im m)))"

record ('j, 'm) todo_write_success =
  summary_for_prompt :: rstr
  out_todos :: "'j todo_item list"
  out_state :: 'm

datatype ('j, 'm) todo_write_output =
    TodosUpdated "('j, 'm) todo_write_success"
  | DuplicateId rstr
  | InvalidArgument rstr

text \<open>
  \<^verbatim>\<open>ToolError::custom\<close> for a call without resources, \<^verbatim>\<open>ToolError::execution\<close> for a \<^verbatim>\<open>TodoError\<close>.
  The resources of a call are \<open>None\<close> when it has none; inside, \<open>None\<close> is a state not yet created.
\<close>

datatype todo_tool_error = MissingResources | TodoExecution rstr

type_synonym 'm todo_resources = "'m option option"

definition get_or_default :: "('j, 'm) todo_map \<Rightarrow> 'm option \<Rightarrow> 'm" where
  "get_or_default im r = (case r of Some m \<Rightarrow> m | None \<Rightarrow> im_default im)"

definition updated_output :: "('j, 'm) todo_map \<Rightarrow> rstr \<Rightarrow> 'm \<Rightarrow> ('j, 'm) todo_write_output" where
  "updated_output im summary m =
     TodosUpdated \<lparr>summary_for_prompt = summary, out_todos = todo_items im m, out_state = m\<rparr>"

definition effective_merge :: "('j, 'm) todo_map \<Rightarrow> todo_write_input \<Rightarrow> 'm \<Rightarrow> bool" where
  "effective_merge im inp m \<longleftrightarrow>
     tw_merge inp \<or>
     (\<not> im_is_empty im m \<and> tw_todos inp \<noteq> [] \<and>
      list_all (\<lambda>u. has_no_content u \<and> has_id im (tu_id u) m) (tw_todos inp))"

definition duplicate_id_text :: "rstr \<Rightarrow> rstr" where
  "duplicate_id_text i =
     lit ''Duplicate todo ID in request: '' @ [34] @ i @ [34] @
     lit ''. Each todo item must have a unique ID.''"

definition todo_run :: "('j, 'm) todo_map \<Rightarrow> todo_write_input \<Rightarrow> 'm todo_resources
    \<Rightarrow> (todo_tool_error + ('j, 'm) todo_write_output) \<times> 'm todo_resources" where
  "todo_run im inp res =
     (case res of
        None \<Rightarrow> (Inl MissingResources, res)
      | Some r \<Rightarrow>
          (case validate_no_duplicate_ids (tw_todos inp) of
             Inl (DuplicateTodoID i) \<Rightarrow> (Inr (DuplicateId (duplicate_id_text i)), res)
           | _ \<Rightarrow>
               (let m = get_or_default im r;
                    (applied, m) = (if effective_merge im inp m then apply_merge im (tw_todos inp) m
                                    else apply_replace im (tw_todos inp) m)
                in case applied of
                     Inl e \<Rightarrow> (Inl (TodoExecution (show_todo_error e)), Some (Some m))
                   | Inr _ \<Rightarrow> (Inr (updated_output im (summarize_todo_state im m) m), Some (Some m)))))"

section \<open>The tool \<^verbatim>\<open>todowrite\<close>\<close>

record open_code_todo_item =
  oc_content :: rstr
  oc_status :: rstr
  oc_priority :: rstr

definition parse_status :: "rstr \<Rightarrow> todo_status" where
  "parse_status s =
     (if s = lit ''in_progress'' then InProgress
      else if s = lit ''completed'' then Completed
      else if s = lit ''cancelled'' then TodoCancelled
      else Pending)"

definition parse_priority :: "rstr \<Rightarrow> todo_priority" where
  "parse_priority s = (if s = lit ''high'' then High else if s = lit ''low'' then Low else Medium)"

definition open_code_todo :: "open_code_todo_item \<Rightarrow> 'j todo_item" where
  "open_code_todo item =
     \<lparr>td_content = oc_content item, td_priority = parse_priority (oc_priority item),
      td_status = parse_status (oc_status item), td_meta = None\<rparr>"

fun open_code_loop :: "('j, 'm) todo_map \<Rightarrow> nat \<Rightarrow> open_code_todo_item list \<Rightarrow> 'm \<Rightarrow> 'm" where
  "open_code_loop im n [] m = m"
| "open_code_loop im n (item # items) m =
     open_code_loop im (n + 1) items (todo_push im (show_nat (n + 1)) (open_code_todo item) m)"

fun summarize_from :: "nat \<Rightarrow> 'j todo_item list \<Rightarrow> rstr" where
  "summarize_from n [] = []"
| "summarize_from n (t # ts) =
     lit ''- '' @ status_tag (td_status t) @ lit '' '' @ show_nat (n + 1) @ lit '': '' @ td_content t @
     [10] @ summarize_from (n + 1) ts"

definition summarize :: "'j todo_item list \<Rightarrow> rstr" where
  "summarize ts = (if ts = [] then lit ''No tasks currently tracked.'' else summarize_from 0 ts)"

definition open_code_run :: "('j, 'm) todo_map \<Rightarrow> open_code_todo_item list \<Rightarrow> 'm todo_resources
    \<Rightarrow> (todo_tool_error + ('j, 'm) todo_write_output) \<times> 'm todo_resources" where
  "open_code_run im items res =
     (case res of
        None \<Rightarrow> (Inl MissingResources, res)
      | Some r \<Rightarrow>
          (let m = open_code_loop im 0 items (todo_clear im (get_or_default im r))
           in (Inr (updated_output im (summarize (todo_items im m)) m), Some (Some m))))"

section \<open>The plan the client is shown\<close>

text \<open>
  \<^verbatim>\<open>PlanEntry\<close> of the agent client protocol; the statuses and priorities that a later version of the
  protocol may add are one constructor each.
\<close>

datatype plan_entry_status = PlanPending | PlanInProgress | PlanCompleted | PlanUnknown

datatype plan_entry_priority = PlanHigh | PlanMedium | PlanLow | PlanUnknownPriority

record 'o plan_entry =
  pe_content :: rstr
  pe_priority :: plan_entry_priority
  pe_status :: plan_entry_status
  pe_meta :: "'o option"

definition todo_item_from_plan_entry :: "('j, 'o) json \<Rightarrow> 'o plan_entry \<Rightarrow> 'j todo_item" where
  "todo_item_from_plan_entry js e =
     \<lparr>td_content = pe_content e,
      td_priority = (case pe_priority e of
          PlanHigh \<Rightarrow> High | PlanMedium \<Rightarrow> Medium | PlanLow \<Rightarrow> Low | PlanUnknownPriority \<Rightarrow> Medium),
      td_status = (case pe_status e of
          PlanPending \<Rightarrow> Pending
        | PlanInProgress \<Rightarrow> InProgress
        | PlanCompleted \<Rightarrow>
            (if Option.bind (Option.bind (pe_meta e) (js_get js (lit ''cancelled''))) (js_as_bool js)
                = Some True
             then TodoCancelled else Completed)
        | PlanUnknown \<Rightarrow> Pending),
      td_meta = map_option (js_object js) (pe_meta e)\<rparr>"

definition cancelled_meta :: "('j, 'o) json \<Rightarrow> 'j option \<Rightarrow> 'j" where
  "cancelled_meta js meta =
     (let m = (case meta of Some m \<Rightarrow> m | None \<Rightarrow> js_object js (js_empty js))
      in case js_as_object js m of
           Some obj \<Rightarrow> js_object js (js_insert js (lit ''cancelled'') (js_bool js True) obj)
         | None \<Rightarrow> m)"

definition plan_entry_from_todo_item :: "('j, 'o) json \<Rightarrow> 'j todo_item \<Rightarrow> 'o plan_entry" where
  "plan_entry_from_todo_item js item =
     (let meta = (if td_status item = TodoCancelled then Some (cancelled_meta js (td_meta item))
                  else td_meta item)
      in \<lparr>pe_content = td_content item,
          pe_priority = (case td_priority item of High \<Rightarrow> PlanHigh | Medium \<Rightarrow> PlanMedium | Low \<Rightarrow> PlanLow),
          pe_status = (case td_status item of
              Pending \<Rightarrow> PlanPending | InProgress \<Rightarrow> PlanInProgress | Completed \<Rightarrow> PlanCompleted
            | TodoCancelled \<Rightarrow> PlanCompleted),
          pe_meta = Option.bind meta (js_as_object js)\<rparr>)"

text \<open>The plan sent at the end of a turn, when one is sent: tasks in progress are shown as done.\<close>

definition emit_turn_end_plan_cleanup :: "('j, 'm) todo_map \<Rightarrow> ('j, 'o) json \<Rightarrow> 'm option
    \<Rightarrow> 'o plan_entry list option" where
  "emit_turn_end_plan_cleanup im js r =
     (case r of
        None \<Rightarrow> None
      | Some m \<Rightarrow>
          (if \<not> list_ex (\<lambda>t. td_status t = InProgress) (todo_items im m) then None
           else Some (map (\<lambda>item.
                  let e = plan_entry_from_todo_item js item
                  in if td_status item = InProgress then e\<lparr>pe_status := PlanCompleted\<rparr> else e)
                (todo_items im m))))"

definition has_pending_goal_todos :: "('j, 'm) todo_map \<Rightarrow> 'm option \<Rightarrow> bool" where
  "has_pending_goal_todos im r =
     (case r of
        Some m \<Rightarrow> list_ex (\<lambda>(i, t). td_status t \<in> {Pending, InProgress}) (todo_items_with_ids im m)
      | None \<Rightarrow> True)"

section \<open>The gate at the end of a turn\<close>

definition DEFAULT_TODO_GATE_MAX_FIRES :: nat where
  "DEFAULT_TODO_GATE_MAX_FIRES = 2"

record todo_gate_config =
  gate_enabled :: bool
  max_fires_per_prompt :: nat

definition todo_gate_config_default :: todo_gate_config where
  "todo_gate_config_default =
     \<lparr>gate_enabled = False, max_fires_per_prompt = DEFAULT_TODO_GATE_MAX_FIRES\<rparr>"

text \<open>The two remote settings that concern the gate; the rest of the policy keeps its defaults.\<close>

record remote_gate_settings =
  rs_todo_gate_enabled :: "bool option"
  rs_todo_gate_max_fires :: "nat option"

definition resolve_reminder_policy :: "remote_gate_settings option \<Rightarrow> bool \<Rightarrow> todo_gate_config" where
  "resolve_reminder_policy remote todo_gate =
     (let p = todo_gate_config_default;
          p = (case remote of
                 None \<Rightarrow> p
               | Some r \<Rightarrow>
                   (let p = (case rs_todo_gate_enabled r of Some b \<Rightarrow> p\<lparr>gate_enabled := b\<rparr> | None \<Rightarrow> p)
                    in case rs_todo_gate_max_fires r of
                         Some n \<Rightarrow> p\<lparr>max_fires_per_prompt := n\<rparr> | None \<Rightarrow> p))
      in if todo_gate then p\<lparr>gate_enabled := True\<rparr> else p)"

definition laziness_injection_active :: "bool \<Rightarrow> goal_status option \<Rightarrow> bool" where
  "laziness_injection_active harness g \<longleftrightarrow> harness \<and> g = Some Active"

text \<open>
  \<^verbatim>\<open>carries_task_completion_discipline\<close>, with the agent definition and the audience it ignores.
\<close>

definition carries_task_completion_discipline :: "'d \<Rightarrow> 'a \<Rightarrow> bool" where
  "carries_task_completion_discipline agent audience = False"

definition todo_gate_active :: "todo_gate_config \<Rightarrow> 'a \<Rightarrow> 'd \<Rightarrow> bool \<Rightarrow> goal_status option \<Rightarrow> bool" where
  "todo_gate_active policy audience agent harness g =
     (if \<not> gate_enabled policy then False
      else if laziness_injection_active harness g then False
      else carries_task_completion_discipline agent audience)"

definition todo_gate_policy :: "todo_gate_config \<Rightarrow> 'a \<Rightarrow> 'd \<Rightarrow> bool \<Rightarrow> goal_status option
    \<Rightarrow> todo_gate_config option" where
  "todo_gate_policy policy audience agent harness g =
     (if \<not> todo_gate_active policy audience agent harness g then None else Some policy)"

record collected_todo_gate_input =
  cg_todos :: "(rstr \<times> rstr \<times> todo_status) list"
  cg_backing :: nat

text \<open>
  The live subagents of the prompt (\<open>None\<close> when they cannot be asked for) and, for each background
  task, whether it has completed, are arguments.
\<close>

definition collect_todo_gate_input :: "('j, 'm) todo_map \<Rightarrow> 'm option \<Rightarrow> nat option \<Rightarrow> bool list
    \<Rightarrow> collected_todo_gate_input" where
  "collect_todo_gate_input im r live_ids completed =
     \<lparr>cg_todos = (case r of
          Some m \<Rightarrow> map (\<lambda>(i, t). (i, td_content t, td_status t)) (todo_items_with_ids im m)
        | None \<Rightarrow> []),
      cg_backing = (case live_ids of Some n \<Rightarrow> n | None \<Rightarrow> 0)
                   + length (filter (\<lambda>c. \<not> c) completed)\<rparr>"

record todo_gate_input =
  gi_pending :: "rstr list"
  gi_unbacked :: "rstr list"
  gi_backed :: "rstr list"
  gi_backing :: nat

fun contents_with :: "todo_status \<Rightarrow> (rstr \<times> rstr \<times> todo_status) list \<Rightarrow> rstr list" where
  "contents_with s [] = []"
| "contents_with s ((i, c, s') # ts) = (if s' = s then c # contents_with s ts else contents_with s ts)"

definition as_input :: "collected_todo_gate_input \<Rightarrow> todo_gate_input" where
  "as_input cg =
     (let in_progress = contents_with InProgress (cg_todos cg);
          backed_count = min (length in_progress) (cg_backing cg)
      in \<lparr>gi_pending = contents_with Pending (cg_todos cg),
          gi_unbacked = drop backed_count in_progress,
          gi_backed = take backed_count in_progress,
          gi_backing = cg_backing cg\<rparr>)"

definition bullet_lines :: "rstr list \<Rightarrow> rstr" where
  "bullet_lines cs = concat (map (\<lambda>c. lit ''- '' @ c @ [10]) cs)"

definition build_todo_gate_reminder :: "rstr list \<Rightarrow> rstr list \<Rightarrow> rstr" where
  "build_todo_gate_reminder pending unbacked =
     lit ''You have outstanding todos but ended your turn without a tool call.'' @ [10, 10] @
     (if unbacked \<noteq> [] then
        lit ''In-progress (no backing background task):'' @ [10] @ bullet_lines unbacked @ [10] else []) @
     (if pending \<noteq> [] then lit ''Pending:'' @ [10] @ bullet_lines pending @ [10] else []) @
     lit ''Per <task_completion_discipline>, advance the next pending todo '' @
     lit ''with the appropriate tool call NOW. If you have a genuine external '' @
     lit ''blocker (missing credential, denied permission, network unreachable), '' @
     lit ''state it explicitly AND mark the affected todos `cancelled` via '' @
     lit ''${{ tools.by_kind.plan }} with a reason in the same turn.''"

datatype todo_gate_reason = InFlight

fun gate_reason_str :: "todo_gate_reason \<Rightarrow> string" where
  "gate_reason_str InFlight = ''in_flight''"

datatype todo_gate_decision = GateContinue | Nudge rstr todo_gate_reason

definition evaluate_todo_gate :: "todo_gate_input \<Rightarrow> todo_gate_decision" where
  "evaluate_todo_gate inp =
     (if gi_pending inp = [] \<and> gi_unbacked inp = [] then GateContinue
      else Nudge (build_todo_gate_reminder (gi_pending inp) (gi_unbacked inp)) InFlight)"

text \<open>
  The branch of the turn loop for a response without tool calls: whether another turn is forced, the
  count of the prompt, the reminders pushed and the event emitted. Rendering the template is an
  argument (\<open>None\<close> when it fails).
\<close>

datatype todo_gate_event =
    TodoGateFired nat nat nat todo_gate_reason
  | TodoGateExhausted nat

definition fall_through_text :: "nat \<Rightarrow> rstr" where
  "fall_through_text cap =
     lit ''The agent attempted to end this turn '' @ show_nat cap @ lit '' times '' @
     lit ''with todos still pending or in_progress. Falling through '' @
     lit ''to user. If you want autonomous progress, prompt the agent '' @
     lit ''to continue explicitly, or clean up the todo list.''"

record turn_end =
  te_schema_ok :: bool
  te_refused :: bool
  te_policy :: "todo_gate_config option"
  te_collected :: collected_todo_gate_input

definition todo_gate_step :: "(rstr \<Rightarrow> rstr option) \<Rightarrow> nat \<Rightarrow> turn_end
    \<Rightarrow> bool \<times> nat \<times> rstr option \<times> todo_gate_event option" where
  "todo_gate_step render fires te =
     (case (if te_schema_ok te \<or> te_refused te then None else te_policy te) of
        None \<Rightarrow> (False, fires, None, None)
      | Some cfg \<Rightarrow>
          (let inp = as_input (te_collected te)
           in case evaluate_todo_gate inp of
                GateContinue \<Rightarrow> (False, fires, None, None)
              | Nudge reminder reason \<Rightarrow>
                  (if fires < max_fires_per_prompt cfg then
                     (True, fires + 1,
                      Some (case render reminder of Some t \<Rightarrow> t | None \<Rightarrow> reminder),
                      Some (TodoGateFired (fires + 1) (length (gi_pending inp))
                              (length (gi_unbacked inp) + length (gi_backed inp)) reason))
                   else (False, fires, Some (fall_through_text (max_fires_per_prompt cfg)),
                         Some (TodoGateExhausted (length (gi_pending inp)))))))"

end
