(* ===== verification/TodoProps.thy ===== *)
theory TodoProps
  imports Todo
begin

text \<open>
  Correctness of the task list. The tool refines an operation on lists of named tasks
  (\<open>write_tasks\<close>); a request with a repeated identifier changes nothing; the sibling tool replaces the
  list exactly; the client's plan keeps every task; the gate forces another turn exactly for open
  tasks, a bounded number of times, and can always be satisfied, but is active in no session.
\<close>

section \<open>The list a write leaves behind\<close>

definition write_entry :: "todo_update list \<Rightarrow> rstr \<times> 'j todo_item \<Rightarrow> rstr \<times> 'j todo_item" where
  "write_entry us e =
     (fst e, case find (\<lambda>u. tu_id u = fst e) us of
               Some u \<Rightarrow> write_todo (tu_content u) (tu_status u) (snd e)
             | None \<Rightarrow> snd e)"

definition fresh_entry :: "todo_update \<Rightarrow> rstr \<times> 'j todo_item" where
  "fresh_entry u = (tu_id u, new_todo u)"

definition merged :: "todo_update list \<Rightarrow> (rstr \<times> 'j todo_item) list \<Rightarrow> (rstr \<times> 'j todo_item) list" where
  "merged us old =
     map (write_entry us) old @ map fresh_entry (filter (\<lambda>u. tu_id u \<notin> fst ` set old) us)"

text \<open>Every update names a task of the list and carries no content.\<close>

definition status_only :: "todo_update list \<Rightarrow> (rstr \<times> 'j todo_item) list \<Rightarrow> bool" where
  "status_only us old \<longleftrightarrow> us \<noteq> [] \<and> (\<forall>u \<in> set us. has_no_content u \<and> tu_id u \<in> fst ` set old)"

definition write_tasks :: "todo_write_input \<Rightarrow> (rstr \<times> 'j todo_item) list \<Rightarrow> (rstr \<times> 'j todo_item) list" where
  "write_tasks inp old =
     (if tw_merge inp \<or> status_only (tw_todos inp) old then merged (tw_todos inp) old
      else map fresh_entry (tw_todos inp))"

definition task_lines :: "(rstr \<times> 'j todo_item) list \<Rightarrow> rstr" where
  "task_lines ts =
     (if ts = [] then lit ''No tasks currently tracked.''
      else concat (map (\<lambda>(i, t). lit ''- '' @ status_tag (td_status t) @ lit '' '' @ i @ lit '': ''
                                  @ td_content t @ [10]) ts))"

section \<open>Association lists\<close>

lemma update_new: "k \<notin> fst ` set xs \<Longrightarrow> AList.update k v xs = xs @ [(k, v)]"
  by (induction xs) auto

lemma map_entry_map:
  "distinct (map fst xs) \<Longrightarrow> AList.map_entry k f xs = map (\<lambda>(k', v). (k', if k' = k then f v else v)) xs"
proof (induction xs)
  case (Cons p xs)
  have "map (\<lambda>(k', v). (k', if k' = k then f v else v)) xs = xs" if "k \<notin> fst ` set xs"
    using that by (intro map_idI) force
  with Cons show ?case by (cases p) auto
qed simp

lemma fst_map_entry [simp]: "map fst (AList.map_entry k f xs) = map fst xs"
  by (induction xs) auto

lemma fst_set_map_entry [simp]: "fst ` set (AList.map_entry k f xs) = fst ` set xs"
  by (metis fst_map_entry list.set_map)

lemma id_neq: "i \<notin> tu_id ` set us \<Longrightarrow> u \<in> set us \<Longrightarrow> tu_id u \<noteq> i"
  by (metis imageI)

lemma write_entry_key [simp]: "fst (write_entry us e) = fst e"
  by (simp add: write_entry_def)

lemma write_entry_other:
  "fst e \<noteq> tu_id u \<Longrightarrow> write_entry (u # us) e = write_entry us e"
  by (simp add: write_entry_def)

lemma write_entry_unnamed: "fst e \<notin> tu_id ` set us \<Longrightarrow> write_entry us e = e"
proof -
  assume "fst e \<notin> tu_id ` set us"
  then have "find (\<lambda>u. tu_id u = fst e) us = None" by (auto simp: find_None_iff dest: id_neq)
  then show ?thesis by (simp add: write_entry_def)
qed

text \<open>One update of the merge: in place when the task is there, at the end when it is not.\<close>

lemma merged_Cons_known:
  assumes "distinct (map fst old)" "tu_id u \<notin> tu_id ` set us" "tu_id u \<in> fst ` set old"
  shows "merged (u # us) old
         = merged us (AList.map_entry (tu_id u) (write_todo (tu_content u) (tu_status u)) old)"
proof -
  let ?f = "write_todo (tu_content u) (tu_status u)"
  have "write_entry (u # us) e = write_entry us (case e of (k, v) \<Rightarrow> (k, if k = tu_id u then ?f v else v))" for e
  proof (cases "fst e = tu_id u")
    case True
    then show ?thesis using assms(2)
      by (cases e) (simp add: write_entry_unnamed, simp add: write_entry_def)
  next
    case False
    then show ?thesis by (cases e) (simp add: write_entry_other)
  qed
  then have "map (write_entry (u # us)) old = map (write_entry us) (AList.map_entry (tu_id u) ?f old)"
    unfolding map_entry_map [OF assms(1)] map_map by (intro map_cong refl) simp
  then show ?thesis using assms(3) unfolding merged_def fst_set_map_entry by simp
qed

lemma merged_Cons_new:
  fixes old :: "(rstr \<times> 'j todo_item) list"
  assumes "tu_id u \<notin> tu_id ` set us" "tu_id u \<notin> fst ` set old"
  shows "merged (u # us) old = merged us (old @ [fresh_entry u])"
proof -
  have "map (write_entry (u # us)) old = map (write_entry us) old"
    using assms(2) by (intro map_cong refl write_entry_other) force
  moreover have "write_entry us (fresh_entry u :: rstr \<times> 'j todo_item) = fresh_entry u"
    using assms(1) by (intro write_entry_unnamed) (simp add: fresh_entry_def)
  moreover have "filter (\<lambda>v. tu_id v \<notin> fst ` set (old @ [fresh_entry u])) us
                 = filter (\<lambda>v. tu_id v \<notin> fst ` set old) us"
    using id_neq [OF assms(1)] by (intro filter_cong) (auto simp: fresh_entry_def)
  ultimately show ?thesis using assms(2) by (simp add: merged_def)
qed

section \<open>The tool against the list\<close>

locale todo_store = index_map im for im :: "('j, 'm) todo_map"
begin

lemma iter_merge_loop:
  "distinct (map tu_id us) \<Longrightarrow> im_iter im (merge_loop im us m) = merged us (im_iter im m)"
proof (induction us arbitrary: m)
  case Nil
  then show ?case by (simp add: merged_def write_entry_unnamed map_idI)
next
  case (Cons u us)
  show ?case
  proof (cases "im_get_mut im (tu_id u) (write_todo (tu_content u) (tu_status u)) m")
    case None
    then have new: "tu_id u \<notin> fst ` set (im_iter im m)" by (simp add: get_mut_None)
    then have "im_iter im (todo_push im (tu_id u) (new_todo u) m) = im_iter im m @ [fresh_entry u]"
      by (simp add: todo_push_def iter_insert update_new fresh_entry_def)
    with Cons None new show ?thesis by (simp add: todo_update_item_def merged_Cons_new)
  next
    case (Some m')
    then have "tu_id u \<in> fst ` set (im_iter im m)" using get_mut_None by (metis option.distinct(1))
    with Cons Some show ?thesis
      by (simp add: todo_update_item_def merged_Cons_known keys_distinct get_mut_Some)
  qed
qed

lemma iter_replace_loop:
  "distinct (map tu_id us) \<Longrightarrow> \<forall>u \<in> set us. tu_id u \<notin> fst ` set (im_iter im m) \<Longrightarrow>
   im_iter im (replace_loop im us m) = im_iter im m @ map fresh_entry us"
proof (induction us arbitrary: m)
  case (Cons u us)
  have it: "im_iter im (todo_push im (tu_id u) (new_todo u) m) = im_iter im m @ [fresh_entry u]"
    using Cons.prems(2) by (simp add: todo_push_def iter_insert update_new fresh_entry_def)
  have "\<forall>v \<in> set us. tu_id v \<noteq> tu_id u"
    using Cons.prems(1) id_neq [of "tu_id u" us] by simp
  then have "\<forall>v \<in> set us. tu_id v \<notin> fst ` set (im_iter im (todo_push im (tu_id u) (new_todo u) m))"
    using Cons.prems(2) by (simp add: it fresh_entry_def)
  with Cons it show ?case by simp
qed simp

lemma effective_merge_iff:
  "effective_merge im inp m \<longleftrightarrow> tw_merge inp \<or> status_only (tw_todos inp) (im_iter im m)"
  by (cases "tw_todos inp")
     (auto simp: effective_merge_def status_only_def is_empty has_id_def contains_key list_all_iff)

lemma summarize_iter: "summarize_todo_state im m = task_lines (im_iter im m)"
  by (simp add: summarize_todo_state_def task_lines_def is_empty todo_items_with_ids_def)

lemma run_applied:
  assumes "validate_no_duplicate_ids (tw_todos inp) = Inr u" "distinct (map tu_id (tw_todos inp))"
  shows "\<exists>m'. todo_run im inp (Some r)
          = (Inr (TodosUpdated \<lparr>summary_for_prompt = task_lines (im_iter im m'),
                                out_todos = map snd (im_iter im m'), out_state = m'\<rparr>), Some (Some m'))
          \<and> im_iter im m' = write_tasks inp (im_iter im (get_or_default im r))"
proof -
  let ?m = "get_or_default im r"
  define m' where "m' = (if effective_merge im inp ?m then merge_loop im (tw_todos inp) ?m
                         else replace_loop im (tw_todos inp) (todo_clear im ?m))"
  have "todo_run im inp (Some r) = (Inr (updated_output im (summarize_todo_state im m') m'), Some (Some m'))"
    using assms(1) by (simp add: todo_run_def m'_def apply_merge_def apply_replace_def Let_def)
  moreover have "im_iter im m' = write_tasks inp (im_iter im ?m)"
    using assms(2)
    by (simp add: m'_def effective_merge_iff write_tasks_def iter_merge_loop iter_replace_loop
          todo_clear_def iter_clear)
  ultimately show ?thesis
    by (auto simp: updated_output_def summarize_iter todo_items_def values_iter)
qed

lemma iter_open_code_loop:
  "\<forall>k > n. show_nat k \<notin> fst ` set (im_iter im m) \<Longrightarrow>
   im_iter im (open_code_loop im n items m)
   = im_iter im m @ zip (map show_nat [n + 1..<n + 1 + length items]) (map open_code_todo items)"
proof (induction items arbitrary: n m)
  case (Cons item items)
  let ?m = "todo_push im (show_nat (n + 1)) (open_code_todo item) m"
  have it: "im_iter im ?m = im_iter im m @ [(show_nat (n + 1), open_code_todo item)]"
    using Cons.prems by (simp add: todo_push_def iter_insert update_new)
  have inj: "show_nat a = show_nat b \<longleftrightarrow> a = b" for a b by (metis digits_value_show_nat)
  have "\<forall>k > n + 1. show_nat k \<notin> fst ` set (im_iter im ?m)"
    using Cons.prems unfolding it by (simp add: inj)
  then have "im_iter im (open_code_loop im (n + 1) items ?m)
      = im_iter im ?m @ zip (map show_nat [n + 1 + 1..<n + 1 + 1 + length items]) (map open_code_todo items)"
    by (rule Cons.IH)
  then show ?case unfolding it by (simp add: upt_conv_Cons del: upt_Suc)
qed simp

end

section \<open>Repeated identifiers\<close>

lemma find_seen_None: "find_seen seen is = None \<longleftrightarrow> distinct is \<and> set is \<inter> seen = {}"
  by (induction "is" arbitrary: seen) auto

lemma find_seen_Some:
  "find_seen seen is = Some i \<Longrightarrow>
   \<exists>pre post. is = pre @ i # post \<and> distinct pre \<and> set pre \<inter> seen = {} \<and> i \<in> seen \<union> set pre"
proof (induction "is" arbitrary: seen)
  case (Cons j js)
  show ?case
  proof (cases "j \<in> seen")
    case True
    with Cons.prems have "j # js = [] @ i # js" "i \<in> seen" by simp_all
    then show ?thesis by (metis Un_iff distinct.simps(1) empty_set inf_bot_left)
  next
    case False
    with Cons.prems have "find_seen (insert j seen) js = Some i" by simp
    then obtain pre post where p: "js = pre @ i # post" "distinct pre"
      "set pre \<inter> insert j seen = {}" "i \<in> insert j seen \<union> set pre"
      using Cons.IH by blast
    then have "j # js = (j # pre) @ i # post" "distinct (j # pre)" "set (j # pre) \<inter> seen = {}"
      "i \<in> seen \<union> set (j # pre)" using False by auto
    then show ?thesis by blast
  qed
qed simp

lemma validate_ok_iff:
  "validate_no_duplicate_ids us = Inr () \<longleftrightarrow> distinct (map tu_id us)"
  using find_seen_None [of "{}" "map tu_id us"]
  by (cases "find_seen {} (map tu_id us)") (simp_all add: validate_no_duplicate_ids_def)

section \<open>An ordered map\<close>

definition alist_map :: "('k, 'v, ('k, 'v) alist) index_map" where
  "alist_map =
     \<lparr>im_default = DAList.empty, im_clear = (\<lambda>_. DAList.empty), im_insert = DAList.update,
      im_get_mut = (\<lambda>k f m. if DAList.lookup m k = None then None else Some (DAList.map_entry k f m)),
      im_contains_key = (\<lambda>k m. DAList.lookup m k \<noteq> None),
      im_is_empty = (\<lambda>m. DAList.impl_of m = []),
      im_iter = DAList.impl_of,
      im_values = (\<lambda>m. map snd (DAList.impl_of m))\<rparr>"

interpretation alist: index_map alist_map
  by unfold_locales
     (auto simp: alist_map_def DAList.empty.rep_eq DAList.update.rep_eq DAList.map_entry.rep_eq
        DAList.lookup.rep_eq map_of_eq_None_iff impl_of split: if_splits)

interpretation alist_todo: todo_store alist_map ..

definition tasks :: "(rstr \<times> 'j todo_item) list \<Rightarrow> (rstr, 'j todo_item) alist" where
  "tasks ts = foldl (\<lambda>m (i, t). DAList.update i t m) DAList.empty ts"

text \<open>A list with two tasks, and updates for them.\<close>

definition task_of :: "string \<Rightarrow> todo_status \<Rightarrow> nat todo_item" where
  "task_of c s = \<lparr>td_content = lit c, td_priority = Medium, td_status = s, td_meta = None\<rparr>"

definition two_tasks :: "(rstr, nat todo_item) alist" where
  "two_tasks = tasks [(lit ''a'', task_of ''build'' InProgress), (lit ''b'', task_of ''test'' Pending)]"

definition mark :: "string \<Rightarrow> todo_status \<Rightarrow> todo_update" where
  "mark i s = \<lparr>tu_id = lit i, tu_content = None, tu_status = Some s\<rparr>"

lemma two_tasks_iter:
  "DAList.impl_of two_tasks = [(lit ''a'', task_of ''build'' InProgress), (lit ''b'', task_of ''test'' Pending)]"
  by (simp add: two_tasks_def tasks_def DAList.update.rep_eq DAList.empty.rep_eq str_simps)

lemma alist_iter: "im_iter alist_map m = DAList.impl_of m"
  by (simp add: alist_map_def)

section \<open>Theorems of the tools\<close>

text \<open>C25: a request whose identifiers are distinct is applied as one operation on the list of named
  tasks. A merge keeps every task in its place, writes the content and the status that an update
  gives for it, and puts the tasks that are new at the end in the order of the request; a request
  without merge replaces the list, unless it only changes the status of tasks that exist. The text,
  the list and the state returned all show that list.\<close>

theorem todo_write_refines:
  assumes "todo_store im" "distinct (map tu_id (tw_todos inp))"
  shows "\<exists>m'. todo_run im inp (Some r)
          = (Inr (TodosUpdated \<lparr>summary_for_prompt = task_lines (im_iter im m'),
                                out_todos = map snd (im_iter im m'), out_state = m'\<rparr>), Some (Some m'))
          \<and> im_iter im m' = write_tasks inp (im_iter im (get_or_default im r))"
  using todo_store.run_applied [OF assms(1) _ assms(2)] validate_ok_iff assms(2) by blast

theorem todo_write_refines_witness:
  "\<exists>m'. todo_run alist_map \<lparr>tw_merge = False, tw_todos = [mark ''a'' Completed]\<rparr> (Some (Some two_tasks))
      = (Inr (TodosUpdated \<lparr>summary_for_prompt = task_lines (im_iter alist_map m'),
                            out_todos = map snd (im_iter alist_map m'), out_state = m'\<rparr>), Some (Some m'))
      \<and> im_iter alist_map m' = [(lit ''a'', task_of ''build'' Completed), (lit ''b'', task_of ''test'' Pending)]"
proof -
  let ?inp = "\<lparr>tw_merge = False, tw_todos = [mark ''a'' Completed]\<rparr>"
  have "write_tasks ?inp (im_iter alist_map (get_or_default alist_map (Some two_tasks)))
        = [(lit ''a'', task_of ''build'' Completed), (lit ''b'', task_of ''test'' Pending)]"
    by (simp add: write_tasks_def status_only_def merged_def write_entry_def get_or_default_def alist_iter
          two_tasks_iter mark_def has_no_content_def task_of_def write_todo_def str_simps)
  moreover have "distinct (map tu_id (tw_todos ?inp))" by simp
  ultimately show ?thesis
    using todo_write_refines [of alist_map ?inp "Some two_tasks"] alist_todo.todo_store_axioms by simp
qed

text \<open>A request is refused exactly when an identifier occurs twice in it. The message names the
  first identifier that repeats an earlier one, and the list stays as it is, also when no list
  exists yet.\<close>

theorem duplicate_request_rejected:
  "(\<exists>i. todo_run im inp (Some r) = (Inr (DuplicateId (duplicate_id_text i)), Some r)
        \<and> (\<exists>pre post. map tu_id (tw_todos inp) = pre @ i # post \<and> distinct pre \<and> i \<in> set pre))
   \<longleftrightarrow> \<not> distinct (map tu_id (tw_todos inp))"
proof (cases "find_seen {} (map tu_id (tw_todos inp))")
  case None
  then show ?thesis by (auto simp: find_seen_None)
next
  case (Some i)
  then have "todo_run im inp (Some r) = (Inr (DuplicateId (duplicate_id_text i)), Some r)"
    by (simp add: todo_run_def validate_no_duplicate_ids_def)
  moreover have "\<not> distinct (map tu_id (tw_todos inp))"
    using Some find_seen_None [of "{}" "map tu_id (tw_todos inp)"] by simp
  ultimately show ?thesis using find_seen_Some [OF Some] by auto
qed

lemma write_todo_no_content:
  "has_no_content u \<Longrightarrow> write_todo (tu_content u) s t
   = t\<lparr>td_status := (case s of Some s \<Rightarrow> s | None \<Rightarrow> td_status t)\<rparr>"
  by (auto simp: write_todo_def has_no_content_def split: option.splits)

lemma status_only_entries:
  fixes old :: "(rstr \<times> 'j todo_item) list"
  assumes "status_only us old"
  shows "merged us old = map (\<lambda>(i, t). (i, t\<lparr>td_status :=
           (case Option.bind (find (\<lambda>u. tu_id u = i) us) tu_status of Some s \<Rightarrow> s | None \<Rightarrow> td_status t)\<rparr>)) old"
proof -
  have "filter (\<lambda>u. tu_id u \<notin> fst ` set old) us = []"
    using assms by (simp add: status_only_def filter_empty_conv)
  moreover have "has_no_content u" if "find (\<lambda>u. tu_id u = i) us = Some u" for i u
    using that assms by (metis find_Some_iff nth_mem status_only_def)
  then have "write_entry us (i, t :: 'j todo_item) = (i, t\<lparr>td_status :=
           (case Option.bind (find (\<lambda>u. tu_id u = i) us) tu_status of Some s \<Rightarrow> s | None \<Rightarrow> td_status t)\<rparr>)" for i t
    by (cases "find (\<lambda>u. tu_id u = i) us") (simp_all add: write_entry_def write_todo_no_content)
  ultimately show ?thesis by (auto simp: merged_def)
qed

text \<open>A request that only names tasks of the list and gives no content loses nothing, whatever
  its merge flag says: the tasks keep their order, their identifiers, their content, their priority
  and their metadata, and a task has the status the request gives for it, else the one it had.\<close>

theorem status_request_keeps_tasks:
  assumes "todo_store im" "distinct (map tu_id us)" "status_only us (im_iter im m)"
  shows "\<exists>m'. snd (todo_run im \<lparr>tw_merge = b, tw_todos = us\<rparr> (Some (Some m))) = Some (Some m')
     \<and> im_iter im m' = map (\<lambda>(i, t). (i, t\<lparr>td_status :=
           (case Option.bind (find (\<lambda>u. tu_id u = i) us) tu_status of Some s \<Rightarrow> s | None \<Rightarrow> td_status t)\<rparr>))
         (im_iter im m)"
proof -
  have "write_tasks \<lparr>tw_merge = b, tw_todos = us\<rparr> (im_iter im m) = merged us (im_iter im m)"
    using assms(3) by (simp add: write_tasks_def)
  with todo_store.run_applied [OF assms(1), of "\<lparr>tw_merge = b, tw_todos = us\<rparr>" "()" "Some m"]
  show ?thesis using assms(2,3) validate_ok_iff [of us]
    by (auto simp: get_or_default_def status_only_entries)
qed

theorem status_request_keeps_tasks_witness:
  "\<exists>m'. snd (todo_run alist_map \<lparr>tw_merge = False, tw_todos = [mark ''b'' TodoCancelled]\<rparr>
              (Some (Some two_tasks))) = Some (Some m')
     \<and> im_iter alist_map m'
       = [(lit ''a'', task_of ''build'' InProgress), (lit ''b'', task_of ''test'' TodoCancelled)]"
proof -
  have "status_only [mark ''b'' TodoCancelled] (im_iter alist_map two_tasks)"
    by (simp add: status_only_def alist_iter two_tasks_iter mark_def has_no_content_def)
  then show ?thesis
    using status_request_keeps_tasks [OF alist_todo.todo_store_axioms, of "[mark ''b'' TodoCancelled]" two_tasks False]
    by (simp add: alist_iter two_tasks_iter mark_def task_of_def str_simps)
qed

text \<open>The sibling tool replaces the list exactly: the tasks of the request in their order,
  numbered from one, whatever was there before; a status or priority it does not know is read as
  pending or medium.\<close>

theorem open_code_write_replaces:
  fixes im :: "('j, 'm) todo_map"
  assumes "todo_store im"
  shows "\<exists>m'. open_code_run im items (Some r)
           = (Inr (TodosUpdated \<lparr>summary_for_prompt = summarize (map open_code_todo items :: 'j todo_item list),
                                 out_todos = map open_code_todo items, out_state = m'\<rparr>), Some (Some m'))
         \<and> im_iter im m' = zip (map show_nat [1..<1 + length items]) (map open_code_todo items)"
proof -
  let ?m = "open_code_loop im 0 items (todo_clear im (get_or_default im r))"
  have it: "im_iter im ?m = zip (map show_nat [1..<1 + length items]) (map open_code_todo items)"
    using todo_store.iter_open_code_loop [OF assms, of 0 "todo_clear im (get_or_default im r)" items]
      index_map.iter_clear [OF assms [unfolded todo_store_def]]
    by (simp add: todo_clear_def)
  have "im_values im ?m = map open_code_todo items"
    using index_map.values_iter [OF assms [unfolded todo_store_def], of ?m]
    by (simp add: it del: upt_Suc)
  then show ?thesis using it by (simp add: open_code_run_def updated_output_def todo_items_def Let_def del: upt_Suc)
qed

theorem open_code_write_replaces_witness:
  "\<exists>m'. snd (open_code_run alist_map
              [\<lparr>oc_content = lit ''x'', oc_status = lit ''done'', oc_priority = lit ''high''\<rparr>]
              (Some (Some two_tasks))) = Some (Some m')
     \<and> im_iter alist_map m' = [(lit ''1'', \<lparr>td_content = lit ''x'', td_priority = High,
                                           td_status = Pending, td_meta = None\<rparr>)]"
proof -
  have "show_nat 1 = lit ''1''" by (simp add: show_nat.simps str_simps)
  then show ?thesis
    using open_code_write_replaces [OF alist_todo.todo_store_axioms, of
        "[\<lparr>oc_content = lit ''x'', oc_status = lit ''done'', oc_priority = lit ''high''\<rparr>]" "Some two_tasks"]
    by (auto simp: open_code_todo_def parse_status_def parse_priority_def str_simps)
qed

section \<open>The client's plan\<close>

text \<open>A JSON value, to instantiate \<open>json_object\<close>.\<close>

datatype json_value =
    JNull | JBool bool | JNumber int | JString rstr | JArray "json_value list"
  | JObject "(rstr \<times> json_value) list"

definition json_value_ops :: "(json_value, (rstr \<times> json_value) list) json" where
  "json_value_ops =
     \<lparr>js_object = JObject, js_as_object = (\<lambda>v. case v of JObject m \<Rightarrow> Some m | _ \<Rightarrow> None),
      js_bool = JBool, js_as_bool = (\<lambda>v. case v of JBool b \<Rightarrow> Some b | _ \<Rightarrow> None),
      js_empty = [], js_get = (\<lambda>k m. map_of m k), js_insert = AList.update\<rparr>"

interpretation json_values: json_object json_value_ops
  by unfold_locales (simp_all add: json_value_ops_def update_conv')

text \<open>
  Metadata that the protocol can carry: an object, which for a task that is done does not say that
  it was cancelled.
\<close>

definition portable_meta :: "('j, 'o) json \<Rightarrow> 'j todo_item \<Rightarrow> bool" where
  "portable_meta js t \<longleftrightarrow>
     (case td_meta t of
        None \<Rightarrow> True
      | Some v \<Rightarrow>
          (case js_as_object js v of
             None \<Rightarrow> False
           | Some obj \<Rightarrow> v = js_object js obj \<and>
               (td_status t = Completed \<longrightarrow>
                  Option.bind (js_get js (lit ''cancelled'') obj) (js_as_bool js) \<noteq> Some True)))"

text \<open>A task that goes to the client as an entry of its plan and comes back is the same task,
  its status included, although the plan has no status for a cancelled task; the only change is that
  the metadata of a cancelled task then say so. The condition is that the metadata are an object
  which does not itself mark a completed task as cancelled.\<close>

theorem plan_entry_roundtrip:
  assumes "json_object js" "portable_meta js t"
  shows "todo_item_from_plan_entry js (plan_entry_from_todo_item js t)
         = (if td_status t = TodoCancelled then t\<lparr>td_meta := Some (cancelled_meta js (td_meta t))\<rparr> else t)"
proof -
  note laws = json_object.as_object [OF assms(1)] json_object.as_bool [OF assms(1)]
    json_object.get_empty [OF assms(1)] json_object.get_insert [OF assms(1)]
  obtain c p s v where t: "t = \<lparr>td_content = c, td_priority = p, td_status = s, td_meta = v\<rparr>"
    by (cases t) auto
  show ?thesis
  proof (cases v)
    case None
    then show ?thesis
      by (cases s; cases p)
         (simp_all add: t todo_item_from_plan_entry_def plan_entry_from_todo_item_def cancelled_meta_def laws)
  next
    case (Some w)
    then obtain obj where obj: "w = js_object js obj"
      "s = Completed \<longrightarrow> Option.bind (js_get js (lit ''cancelled'') obj) (js_as_bool js) \<noteq> Some True"
      using assms(2) by (auto simp: portable_meta_def t split: option.splits)
    then show ?thesis using Some
      by (cases s; cases p)
         (simp_all add: t todo_item_from_plan_entry_def plan_entry_from_todo_item_def cancelled_meta_def laws)
  qed
qed

theorem plan_entry_roundtrip_witness:
  "todo_item_from_plan_entry json_value_ops (plan_entry_from_todo_item json_value_ops
     \<lparr>td_content = lit ''x'', td_priority = High, td_status = TodoCancelled, td_meta = None\<rparr>)
   = \<lparr>td_content = lit ''x'', td_priority = High, td_status = TodoCancelled,
      td_meta = Some (JObject [(lit ''cancelled'', JBool True)])\<rparr>"
  using plan_entry_roundtrip [OF json_values.json_object_axioms, of
      "\<lparr>td_content = lit ''x'', td_priority = High, td_status = TodoCancelled, td_meta = None\<rparr>"]
  by (simp add: portable_meta_def cancelled_meta_def json_value_ops_def)

section \<open>The gate\<close>

definition task_contents :: "todo_status \<Rightarrow> (rstr \<times> 'j todo_item) list \<Rightarrow> rstr list" where
  "task_contents s ts = map (\<lambda>e. td_content (snd e)) (filter (\<lambda>e. td_status (snd e) = s) ts)"

lemma contents_with_tasks:
  "contents_with s (map (\<lambda>(i, t). (i, td_content t, td_status t)) ts) = task_contents s ts"
  by (induction ts) (auto simp: task_contents_def)

lemma gate_on_tasks:
  "evaluate_todo_gate (as_input (collect_todo_gate_input im (Some m) subagents completed))
   = (let ts = im_iter im m;
          n = (case subagents of Some n \<Rightarrow> n | None \<Rightarrow> 0) + length (filter (\<lambda>c. \<not> c) completed)
      in if task_contents Pending ts = [] \<and> length (task_contents InProgress ts) \<le> n then GateContinue
         else Nudge (build_todo_gate_reminder (task_contents Pending ts)
                       (drop n (task_contents InProgress ts))) InFlight)"
  by (simp add: evaluate_todo_gate_def as_input_def collect_todo_gate_input_def todo_items_with_ids_def
        contents_with_tasks Let_def min_def)

text \<open>The gate holds a turn back exactly when a task is pending or more tasks are in progress
  than subagents and background tasks are running. Its reminder then lists every pending task, and of
  the tasks in progress all but the first ones, one for each piece of running work.\<close>

theorem todo_gate_exact:
  "evaluate_todo_gate (as_input (collect_todo_gate_input im (Some m) subagents completed))
   = (let ts = im_iter im m;
          n = (case subagents of Some n \<Rightarrow> n | None \<Rightarrow> 0) + length (filter (\<lambda>c. \<not> c) completed)
      in if task_contents Pending ts = [] \<and> length (task_contents InProgress ts) \<le> n then GateContinue
         else Nudge (build_todo_gate_reminder (task_contents Pending ts)
                       (drop n (task_contents InProgress ts))) InFlight)"
  by (rule gate_on_tasks)

definition close_all :: "(rstr \<Rightarrow> bool) \<Rightarrow> (rstr \<times> 'j todo_item) list \<Rightarrow> todo_update list" where
  "close_all cancel ts =
     map (\<lambda>(i, t). \<lparr>tu_id = i, tu_content = None,
                    tu_status = Some (if cancel i then TodoCancelled else Completed)\<rparr>) ts"

lemma find_close_all:
  "i \<in> fst ` set ts \<Longrightarrow> \<exists>u. find (\<lambda>u. tu_id u = i) (close_all cancel ts) = Some u
     \<and> tu_status u = Some (if cancel i then TodoCancelled else Completed)"
  by (induction ts) (force simp: close_all_def)+

text \<open>What the reminder asks for is possible. Whatever tasks are open, one request that marks
  every task as completed or cancelled is accepted, keeps all tasks, and after it the gate lets the
  turn end, with or without running work.\<close>

theorem todo_gate_can_be_satisfied:
  assumes "todo_store im"
  shows "\<exists>m'. snd (todo_run im \<lparr>tw_merge = True, tw_todos = close_all cancel (im_iter im m)\<rparr> (Some (Some m)))
             = Some (Some m')
         \<and> map fst (im_iter im m') = map fst (im_iter im m)
         \<and> evaluate_todo_gate (as_input (collect_todo_gate_input im (Some m') subagents completed)) = GateContinue"
proof -
  let ?ts = "im_iter im m" let ?us = "close_all cancel (im_iter im m)"
  let ?inp = "\<lparr>tw_merge = True, tw_todos = ?us\<rparr>"
  have ids: "map tu_id ?us = map fst ?ts" by (simp add: close_all_def split_beta)
  then have "distinct (map tu_id ?us)"
    using index_map.keys_distinct [OF assms [unfolded todo_store_def]] by metis
  then obtain m' where run: "snd (todo_run im ?inp (Some (Some m))) = Some (Some m')"
    and it: "im_iter im m' = merged ?us ?ts"
    using todo_store.run_applied [OF assms, of ?inp "()" "Some m"] validate_ok_iff [of ?us]
    by (auto simp: get_or_default_def write_tasks_def)
  have "filter (\<lambda>u. tu_id u \<notin> fst ` set ?ts) ?us = []"
    by (force simp: filter_empty_conv close_all_def)
  then have it': "im_iter im m' = map (write_entry ?us) ?ts" by (simp add: it merged_def)
  have closed: "td_status (snd (write_entry ?us e)) \<in> {Completed, TodoCancelled}" if "e \<in> set ?ts" for e
    using find_close_all [of "fst e" ?ts cancel] that by (auto simp: write_entry_def write_todo_def Let_def)
  have "task_contents s (im_iter im m') = []" if "s \<in> {Pending, InProgress}" for s
    using closed that unfolding task_contents_def it' by (force simp: filter_empty_conv)
  then show ?thesis using run by (auto simp: gate_on_tasks it' Let_def)
qed

theorem todo_gate_can_be_satisfied_witness:
  "\<exists>m'. snd (todo_run alist_map \<lparr>tw_merge = True,
               tw_todos = close_all (\<lambda>i. i = lit ''b'') (im_iter alist_map two_tasks)\<rparr>
             (Some (Some two_tasks))) = Some (Some m')
         \<and> map fst (im_iter alist_map m') = [lit ''a'', lit ''b'']
         \<and> evaluate_todo_gate (as_input (collect_todo_gate_input alist_map (Some m') None [])) = GateContinue"
  using todo_gate_can_be_satisfied [OF alist_todo.todo_store_axioms, of "\<lambda>i. i = lit ''b''" two_tasks None "[]"]
  by (simp add: alist_iter two_tasks_iter)

text \<open>The ends of turns of one prompt, in order; which of them were forced into another turn.\<close>

fun gate_run :: "(rstr \<Rightarrow> rstr option) \<Rightarrow> nat \<Rightarrow> turn_end list \<Rightarrow> bool list" where
  "gate_run render fires [] = []"
| "gate_run render fires (te # tes) =
     (let (forced, fires', _) = todo_gate_step render fires te in forced # gate_run render fires' tes)"

lemma gate_step_fires:
  "todo_gate_step render fires te = (forced, fires', rest) \<Longrightarrow>
   fires' = (if forced then fires + 1 else fires)
   \<and> (forced \<longrightarrow> (\<exists>cfg. te_policy te = Some cfg \<and> fires < max_fires_per_prompt cfg))"
  by (auto simp: todo_gate_step_def Let_def split: option.splits if_splits todo_gate_decision.splits)

lemma gate_run_count:
  "\<forall>te \<in> set tes. \<forall>cfg. te_policy te = Some cfg \<longrightarrow> max_fires_per_prompt cfg \<le> cap \<Longrightarrow> fires \<le> cap \<Longrightarrow>
   length (filter (\<lambda>b. b) (gate_run render fires tes)) + fires \<le> cap"
proof (induction tes arbitrary: fires)
  case (Cons te tes)
  obtain forced fires' rest where st: "todo_gate_step render fires te = (forced, fires', rest)"
    by (metis prod_cases3)
  then have "fires' \<le> cap" using gate_step_fires [OF st] Cons.prems by fastforce
  then have "length (filter (\<lambda>b. b) (gate_run render fires' tes)) + fires' \<le> cap"
    using Cons.IH Cons.prems(1) by (meson list.set_intros(2))
  then show ?case using gate_step_fires [OF st] by (cases forced) (simp_all add: st)
qed simp

text \<open>Within one prompt the gate forces at most as many extra turns as its cap, whatever the
  model does with the tasks in between.\<close>

theorem todo_gate_bounded:
  assumes "\<forall>te \<in> set tes. \<forall>cfg. te_policy te = Some cfg \<longrightarrow> max_fires_per_prompt cfg \<le> cap"
  shows "length (filter (\<lambda>b. b) (gate_run render 0 tes)) \<le> cap"
  using gate_run_count [OF assms, of 0 render] by simp

definition stuck_turn :: turn_end where
  "stuck_turn = \<lparr>te_schema_ok = False, te_refused = False,
     te_policy = Some (todo_gate_config_default\<lparr>gate_enabled := True\<rparr>),
     te_collected = \<lparr>cg_todos = [(lit ''a'', lit ''build'', Pending)], cg_backing = 0\<rparr>\<rparr>"

theorem todo_gate_bounded_witness:
  "length (filter (\<lambda>b. b) (gate_run Some 0 [stuck_turn, stuck_turn, stuck_turn])) \<le> 2
   \<and> gate_run Some 0 [stuck_turn, stuck_turn, stuck_turn] = [True, True, False]"
  using todo_gate_bounded [of "[stuck_turn, stuck_turn, stuck_turn]" 2 Some]
  by (simp add: stuck_turn_def todo_gate_config_default_def DEFAULT_TODO_GATE_MAX_FIRES_def
        todo_gate_step_def as_input_def evaluate_todo_gate_def Let_def)

text \<open>No setting makes the gate run. Whatever the remote settings say, and even with the command
  line flag that is documented to force it on, the branch at the end of a turn neither forces another
  turn nor pushes a reminder, since the last condition of the gate is false for every agent.\<close>

theorem todo_gate_never_runs:
  "todo_gate_step render fires
     \<lparr>te_schema_ok = ok, te_refused = refused,
      te_policy = todo_gate_policy (resolve_reminder_policy remote True) audience agent harness g,
      te_collected = collected\<rparr>
   = (False, fires, None, None)"
  by (simp add: todo_gate_step_def todo_gate_policy_def todo_gate_active_def
        carries_task_completion_discipline_def)

end
