(* ===== verification/Interjection.thy ===== *)
theory Interjection
  imports Monitor
begin

text \<open>
  The queues between a running turn and the rest of the program (\<^verbatim>\<open>ds-interjection-core\<close>): the shared
  event queue, the messages the user sends while the agent works and their text for the model, and
  the buffer of monitor events that all sessions share (\<^verbatim>\<open>task/types.rs\<close>, \<^verbatim>\<open>turn.rs\<close>,
  \<^verbatim>\<open>notification_drain.rs\<close>, \<^verbatim>\<open>run_loop.rs\<close>). Every operation holds the queue's lock from its start to
  its end, so the queue is the list and an interleaving of clients a sequence of operations.
\<close>

section \<open>The event queue\<close>

definition queue_new :: "'e list" where
  "queue_new = []"

definition queue_push :: "'e list \<Rightarrow> 'e \<Rightarrow> 'e list" where
  "queue_push q e = q @ [e]"

definition push_capped :: "nat \<Rightarrow> 'e list \<Rightarrow> 'e \<Rightarrow> 'e list" where
  "push_capped most q e =
     (let q = q @ [e]
      in if most < length q then drop (length q - most) q else q)"

definition queue_len :: "'e list \<Rightarrow> nat" where
  "queue_len q = length q"

definition queue_is_empty :: "'e list \<Rightarrow> bool" where
  "queue_is_empty q \<longleftrightarrow> q = []"

definition drain_matching :: "('e \<Rightarrow> bool) \<Rightarrow> 'e list \<Rightarrow> 'e list \<times> 'e list" where
  "drain_matching take_it q = partition take_it q"

definition drain_all :: "'e list \<Rightarrow> 'e list \<times> 'e list" where
  "drain_all q = (q, [])"

definition queue_clear :: "'e list \<Rightarrow> 'e list" where
  "queue_clear q = []"

definition queue_snapshot :: "'e list \<Rightarrow> 'e list" where
  "queue_snapshot q = q"

section \<open>The text of an interjection\<close>

definition LARGE_PROMPT_THRESHOLD :: nat where
  "LARGE_PROMPT_THRESHOLD = 25000"

definition user_query :: "rstr \<Rightarrow> rstr" where
  "user_query message = lit ''<user_query>'' @ [10] @ message @ [10] @ lit ''</user_query>''"

text \<open>\<^verbatim>\<open>str::char_indices\<close>: every character with the byte it starts at.\<close>

fun char_indices :: "nat \<Rightarrow> rstr \<Rightarrow> (nat \<times> rune) list" where
  "char_indices i [] = []"
| "char_indices i (c # s) = (i, c) # char_indices (i + len_utf8 c) s"

definition interjection_end :: "rstr \<Rightarrow> nat" where
  "interjection_end s =
     (case takeWhile (\<lambda>(i, c). i < LARGE_PROMPT_THRESHOLD) (char_indices 0 s) of
        [] \<Rightarrow> str_len s
      | x # xs \<Rightarrow> (case last (x # xs) of (i, c) \<Rightarrow> i + len_utf8 c))"

text \<open>\<open>None\<close> is the panic of a slice that ends inside a character.\<close>

definition format_interjection :: "rstr \<Rightarrow> rstr option" where
  "format_interjection s =
     map_option (\<lambda>truncated. lit ''The user sent a message while you were working:'' @ [10]
                             @ user_query truncated)
       (if LARGE_PROMPT_THRESHOLD < str_len s
        then map_option (\<lambda>p. p @ lit ''... [truncated]'') (str_slice_to s (interjection_end s))
        else Some s)"

record 'a pending_interjection =
  pi_text :: rstr
  pi_attachments :: "'a list"

record 'a formatted_interjection =
  fi_text :: rstr
  fi_attachments :: "'a list"

fun format_entries :: "(rstr \<Rightarrow> rstr) \<Rightarrow> 'a pending_interjection list
    \<Rightarrow> 'a formatted_interjection list option" where
  "format_entries sanitize [] = Some []"
| "format_entries sanitize (e # es) =
     (case format_interjection (sanitize (pi_text e)) of
        None \<Rightarrow> None
      | Some t \<Rightarrow> map_option ((#) \<lparr>fi_text = t, fi_attachments = pi_attachments e\<rparr>)
                    (format_entries sanitize es))"

definition drain_formatted :: "(rstr \<Rightarrow> rstr) \<Rightarrow> 'a pending_interjection list
    \<Rightarrow> 'a formatted_interjection list option \<times> 'a pending_interjection list" where
  "drain_formatted sanitize q = (let (es, q) = drain_all q in (format_entries sanitize es, q))"

section \<open>The buffer of monitor events\<close>

definition owned_by_session :: "rstr option \<Rightarrow> monitor_event_notification \<Rightarrow> bool" where
  "owned_by_session my_owner e =
     (case (my_owner, mn_owner e) of
        (Some me, Some owner) \<Rightarrow> me = owner
      | _ \<Rightarrow> True)"

definition drain_owned :: "rstr option \<Rightarrow> monitor_event_notification list
    \<Rightarrow> monitor_event_notification list \<times> monitor_event_notification list" where
  "drain_owned my_owner buffer = drain_matching (owned_by_session my_owner) buffer"

definition MAX_BUFFER_EVENTS :: nat where
  "MAX_BUFFER_EVENTS = 50"

text \<open>
  What the sessions do with the buffer: record an event of one of their monitors during a turn
  (\<^verbatim>\<open>InjectNotification\<close>), take out their events (\<^verbatim>\<open>inject_pending_monitor_events\<close>,
  \<^verbatim>\<open>sweep_monitor_buffer_into_pending\<close>), and throw away the events of a task that has completed
  (\<^verbatim>\<open>DropMonitorNotifications\<close>). The result is the events taken out.
\<close>

datatype buffer_op =
    BufferPush rstr rstr rstr
  | BufferDrain rstr
  | BufferForget rstr

fun buffer_step :: "monitor_event_notification list \<Rightarrow> buffer_op
    \<Rightarrow> monitor_event_notification list \<times> monitor_event_notification list" where
  "buffer_step q (BufferPush session task event) =
     ([], push_capped MAX_BUFFER_EVENTS q
            \<lparr>mn_task_id = task, mn_event_text = event, mn_owner = Some session\<rparr>)"
| "buffer_step q (BufferDrain session) = drain_owned (Some session) q"
| "buffer_step q (BufferForget task) = drain_matching (\<lambda>e. mn_task_id e = task) q"

end
