(* ===== verification/InterjectionProps.thy ===== *)
theory InterjectionProps
  imports Interjection MonitorProps
begin

text \<open>
  What the queues promise: an interjection is cut at a character and within three bytes of its
  limit, a drain takes every message once and in order, and sessions that share the buffer of
  monitor events get their own events in order; a session that is busy can push out the others'.
\<close>

section \<open>The cut of an interjection\<close>

lemma take_indices:
  "i < n \<Longrightarrow> n \<le> i + str_len s \<Longrightarrow>
   \<exists>p c u ws. s = p @ c # u \<and> takeWhile (\<lambda>(j, c). j < n) (char_indices i s) = ws @ [(i + str_len p, c)]
     \<and> i + str_len p < n \<and> n \<le> i + str_len p + len_utf8 c"
proof (induction s arbitrary: i)
  case (Cons c s)
  show ?case
  proof (cases "n \<le> i + len_utf8 c")
    case True
    then have "takeWhile (\<lambda>(j, c). j < n) (char_indices (i + len_utf8 c) s) = []" by (cases s) auto
    with True Cons.prems(1) show ?thesis by (intro exI [of _ "[]"]) auto
  next
    case False
    then obtain p d u ws where "s = p @ d # u"
      "takeWhile (\<lambda>(j, c). j < n) (char_indices (i + len_utf8 c) s) = ws @ [(i + len_utf8 c + str_len p, d)]"
      "i + len_utf8 c + str_len p < n" "n \<le> i + len_utf8 c + str_len p + len_utf8 d"
      using Cons.IH [of "i + len_utf8 c"] Cons.prems(2) by auto
    with Cons.prems(1) show ?thesis
      by (intro exI [of _ "c # p"] exI [of _ d] exI [of _ u] exI [of _ "(i, c) # ws"]) (simp add: add.assoc)
  qed
qed simp

lemma interjection_cut:
  assumes "LARGE_PROMPT_THRESHOLD < str_len s"
  shows "\<exists>p u. s = p @ u \<and> str_slice_to s (interjection_end s) = Some p
           \<and> LARGE_PROMPT_THRESHOLD \<le> str_len p \<and> str_len p \<le> LARGE_PROMPT_THRESHOLD + 3"
proof -
  have "0 < LARGE_PROMPT_THRESHOLD" by (simp add: LARGE_PROMPT_THRESHOLD_def)
  then obtain p c u ws where w: "s = p @ c # u"
    "takeWhile (\<lambda>(j, c). j < LARGE_PROMPT_THRESHOLD) (char_indices 0 s) = ws @ [(str_len p, c)]"
    "str_len p < LARGE_PROMPT_THRESHOLD" "LARGE_PROMPT_THRESHOLD \<le> str_len p + len_utf8 c"
    using take_indices [of 0 LARGE_PROMPT_THRESHOLD s] assms by auto
  have "interjection_end s = str_len (p @ [c])"
    by (cases ws) (simp_all add: interjection_end_def w(2))
  then have "str_slice_to s (interjection_end s) = Some (p @ [c])"
    using str_slice_to_prefix [of "p @ [c]" u] by (simp add: w(1))
  then show ?thesis using w len_utf8_bounds(2) [of c]
    by (intro exI [of _ "p @ [c]"] exI [of _ u]) simp
qed

text \<open>The text of an interjection never fails to be built, and it contains the message up to a
  cut: a message of at most 25,000 bytes whole, of a longer one a beginning of whole characters of
  between 25,000 and 25,003 bytes with a mark behind it.\<close>

theorem interjection_text_bounded:
  "\<exists>p u mark. s = p @ u
     \<and> format_interjection s = Some (lit ''The user sent a message while you were working:'' @ [10]
                                     @ user_query (p @ mark))
     \<and> (if str_len s \<le> 25000 then u = [] \<and> mark = []
        else mark = lit ''... [truncated]'' \<and> 25000 \<le> str_len p \<and> str_len p \<le> 25003)"
proof (cases "str_len s \<le> 25000")
  case True
  then show ?thesis
    by (intro exI [of _ s] exI [of _ "[]"] exI [of _ "[]"])
       (simp add: format_interjection_def LARGE_PROMPT_THRESHOLD_def)
next
  case False
  then obtain p u where "s = p @ u" "str_slice_to s (interjection_end s) = Some p"
    "25000 \<le> str_len p" "str_len p \<le> 25003"
    using interjection_cut [of s] by (auto simp: LARGE_PROMPT_THRESHOLD_def)
  with False show ?thesis
    by (intro exI [of _ p] exI [of _ u] exI [of _ "lit ''... [truncated]''"])
       (simp add: format_interjection_def LARGE_PROMPT_THRESHOLD_def)
qed

section \<open>Drains\<close>

lemma format_interjection_total: "\<exists>t. format_interjection s = Some t"
  using interjection_cut [of s] by (cases "LARGE_PROMPT_THRESHOLD < str_len s") (auto simp: format_interjection_def)

lemma format_entries_total:
  "format_entries sanitize es
   = Some (map (\<lambda>e. \<lparr>fi_text = the (format_interjection (sanitize (pi_text e))),
                     fi_attachments = pi_attachments e\<rparr>) es)"
proof (induction es)
  case (Cons e es)
  then show ?case using format_interjection_total [of "sanitize (pi_text e)"] by auto
qed simp

text \<open>A drain of the messages returns one entry for each of them, in the order they were sent,
  each with its own text and attachments, and leaves the queue empty; it never fails.\<close>

theorem drain_formatted_complete:
  "drain_formatted sanitize (foldl queue_push queue_new es)
   = (Some (map (\<lambda>e. \<lparr>fi_text = the (format_interjection (sanitize (pi_text e))),
                      fi_attachments = pi_attachments e\<rparr>) es), [])"
proof -
  have "foldl queue_push q es = q @ es" for q
    by (induction es arbitrary: q) (simp_all add: queue_push_def)
  then show ?thesis by (simp add: drain_formatted_def drain_all_def queue_new_def format_entries_total)
qed

section \<open>The shared buffer\<close>

interpretation event_log: capped_log "push_capped cap" cap for cap
  by unfold_locales (simp add: push_capped_def newest_def Let_def)

text \<open>What a session is given over a run, what it sent, and what is left for it.\<close>

definition events_of :: "rstr \<Rightarrow> monitor_event_notification list \<Rightarrow> monitor_event_notification list" where
  "events_of s q = filter (\<lambda>e. mn_owner e = Some s) q"

fun delivered :: "rstr \<Rightarrow> monitor_event_notification list \<Rightarrow> buffer_op list \<Rightarrow> monitor_event_notification list" where
  "delivered s q [] = []"
| "delivered s q (op # ops) =
     (case buffer_step q op of
        (given, q') \<Rightarrow> (if op = BufferDrain s then given else []) @ delivered s q' ops)"

definition buffer_after :: "monitor_event_notification list \<Rightarrow> buffer_op list \<Rightarrow> monitor_event_notification list" where
  "buffer_after q ops = foldl (\<lambda>q op. snd (buffer_step q op)) q ops"

fun pushed :: "rstr \<Rightarrow> buffer_op list \<Rightarrow> monitor_event_notification list" where
  "pushed s [] = []"
| "pushed s (BufferPush session task event # ops) =
     (if session = s then [\<lparr>mn_task_id = task, mn_event_text = event, mn_owner = Some session\<rparr>] else [])
     @ pushed s ops"
| "pushed s (BufferDrain session # ops) = pushed s ops"
| "pushed s (BufferForget task # ops) = pushed s ops"

abbreviation all_owned :: "monitor_event_notification list \<Rightarrow> bool" where
  "all_owned q \<equiv> \<forall>e \<in> set q. mn_owner e \<noteq> None"

lemma events_of_append [simp]: "events_of s (p @ q) = events_of s p @ events_of s q"
  by (simp add: events_of_def)

lemma buffer_after_Cons [simp]: "buffer_after q (op # ops) = buffer_after (snd (buffer_step q op)) ops"
  by (simp add: buffer_after_def)

lemma push_capped_split: "\<exists>d. q @ [e] = d @ push_capped n q e"
proof (cases "n < length (q @ [e])")
  case True
  then have "q @ [e] = take (length (q @ [e]) - n) (q @ [e]) @ push_capped n q e"
    unfolding push_capped_def Let_def by (simp only: if_True append_take_drop_id)
  then show ?thesis by blast
next
  case False
  then have "q @ [e] = [] @ push_capped n q e" by (simp add: push_capped_def)
  then show ?thesis by blast
qed

lemma set_push_capped: "set (push_capped n q e) \<subseteq> insert e (set q)"
  by (auto simp: push_capped_def Let_def split: if_splits dest: in_set_dropD)

lemma all_owned_step:
  assumes "all_owned q"
  shows "all_owned (snd (buffer_step q op))"
proof (cases op)
  case (BufferPush session task event)
  then show ?thesis using assms set_push_capped [of MAX_BUFFER_EVENTS q] by fastforce
qed (use assms in \<open>auto simp: drain_owned_def drain_matching_def\<close>)

lemma drain_step:
  assumes "all_owned q" "buffer_step q (BufferDrain me) = (given, q')"
  shows "given = events_of me q" "events_of s q' = (if me = s then [] else events_of s q)"
proof -
  have "owned_by_session (Some me) e \<longleftrightarrow> mn_owner e = Some me" if "e \<in> set q" for e
    using assms(1) that by (force simp: owned_by_session_def split: option.split)
  then have "given = events_of me q" and q': "q' = filter (\<lambda>e. mn_owner e \<noteq> Some me) q"
    using assms(2) by (auto simp: drain_owned_def drain_matching_def events_of_def o_def cong: filter_cong)
  then show "given = events_of me q" by simp
  show "events_of s q' = (if me = s then [] else events_of s q)"
    by (auto simp: q' events_of_def filter_empty_conv intro: filter_cong)
qed

text \<open>One operation, seen by one session: what it gets and what is left comes, in order, from what
  was there and what it sent.\<close>

lemma step_for_session:
  assumes "all_owned q" "buffer_step q op = (given, q')"
  shows "subseq ((if op = BufferDrain s then given else []) @ events_of s q') (events_of s q @ pushed s [op])"
proof (cases op)
  case (BufferPush session task event)
  let ?e = "\<lparr>mn_task_id = task, mn_event_text = event, mn_owner = Some session\<rparr>"
  obtain d where d: "q @ [?e] = d @ q'"
    using push_capped_split [of q ?e MAX_BUFFER_EVENTS] assms(2) by (auto simp: BufferPush)
  have "events_of s (q @ [?e]) = events_of s d @ events_of s q'" by (simp only: d events_of_append)
  moreover have "events_of s (q @ [?e]) = events_of s q @ pushed s [op]"
    by (simp add: BufferPush events_of_def)
  ultimately have "events_of s q @ pushed s [op] = events_of s d @ events_of s q'" by metis
  moreover have "subseq (events_of s q') (events_of s d @ events_of s q')"
    by (intro suffix_imp_subseq suffixI [of _ "events_of s d"] refl)
  ultimately show ?thesis by (simp add: BufferPush)
next
  case (BufferDrain me)
  then show ?thesis using drain_step [OF assms(1), of me given q'] assms(2) by simp
next
  case (BufferForget task)
  then have "q' = filter (\<lambda>e. mn_task_id e \<noteq> task) q" using assms(2) by (auto simp: drain_matching_def o_def)
  then have "events_of s q' = filter (\<lambda>e. mn_task_id e \<noteq> task) (events_of s q)"
    by (simp add: events_of_def conj_commute)
  then show ?thesis by (simp add: BufferForget)
qed

lemma pushed_Cons: "pushed s (op # ops) = pushed s [op] @ pushed s ops"
  by (cases op) simp_all

lemma run_for_session:
  "all_owned q \<Longrightarrow>
   subseq (delivered s q ops @ events_of s (buffer_after q ops)) (events_of s q @ pushed s ops)"
proof (induction ops arbitrary: q)
  case Nil
  then show ?case by (simp add: buffer_after_def)
next
  case (Cons op ops)
  obtain given q' where st: "buffer_step q op = (given, q')" by fastforce
  let ?g = "if op = BufferDrain s then given else []"
  have "all_owned q'" using all_owned_step [OF Cons.prems, of op] by (simp add: st)
  then have "subseq (?g @ delivered s q' ops @ events_of s (buffer_after q' ops))
                    (?g @ events_of s q' @ pushed s ops)"
    using list_emb_append_mono [OF subseq_order.order_refl Cons.IH, of q' ?g] by simp
  also have "subseq (?g @ events_of s q' @ pushed s ops) (events_of s q @ pushed s (op # ops))"
    using list_emb_append_mono [OF step_for_session [OF Cons.prems st, of s] subseq_order.order_refl, of "pushed s ops"]
    by (simp add: pushed_Cons [of s op ops])
  finally show ?case by (simp add: st)
qed

text \<open>C31: sessions that share the buffer never see each other's events, whatever the interleaving of
  their pushes and drains: what a session is given over a run, with what still waits for it, is a
  subsequence of the events it sent, so none is given twice, none out of order, and none of another
  session's.\<close>

theorem sessions_kept_apart:
  "subseq (delivered s queue_new ops @ events_of s (buffer_after queue_new ops)) (pushed s ops)"
  using run_for_session [of queue_new s ops] by (simp add: queue_new_def events_of_def)

section \<open>Completeness and its limit\<close>

text \<open>No push finds the buffer full and no task is forgotten.\<close>

fun roomy :: "monitor_event_notification list \<Rightarrow> buffer_op list \<Rightarrow> bool" where
  "roomy q [] \<longleftrightarrow> True"
| "roomy q (op # ops) \<longleftrightarrow>
     (case op of BufferPush _ _ _ \<Rightarrow> length q < MAX_BUFFER_EVENTS | BufferDrain _ \<Rightarrow> True | BufferForget _ \<Rightarrow> False)
     \<and> roomy (snd (buffer_step q op)) ops"

lemma events_conserved:
  "all_owned q \<Longrightarrow> roomy q ops \<Longrightarrow>
   length (delivered s q ops @ events_of s (buffer_after q ops)) = length (events_of s q @ pushed s ops)"
proof (induction ops arbitrary: q)
  case Nil
  then show ?case by (simp add: buffer_after_def)
next
  case (Cons op ops)
  obtain given q' where st: "buffer_step q op = (given, q')" by fastforce
  have "all_owned q'" using all_owned_step [OF Cons.prems(1), of op] by (simp add: st)
  with Cons st have IH: "length (delivered s q' ops @ events_of s (buffer_after q' ops))
      = length (events_of s q' @ pushed s ops)" by simp
  have "length (if op = BufferDrain s then given else []) + length (events_of s q')
        = length (events_of s q) + length (pushed s [op])"
  proof (cases op)
    case (BufferPush session task event)
    with Cons.prems(2) st show ?thesis by (auto simp: push_capped_def Let_def events_of_def)
  next
    case (BufferDrain me)
    then show ?thesis using drain_step [OF Cons.prems(1), of me given q'] st by simp
  next
    case (BufferForget task)
    with Cons.prems(2) show ?thesis by simp
  qed
  with IH show ?case by (simp add: st pushed_Cons [of s op ops])
qed



lemma newest_append_long: "n \<le> length ys \<Longrightarrow> newest n (xs @ ys) = newest n ys"
  by (simp add: newest_def)

lemma pushes_newest:
  assumes "length q \<le> MAX_BUFFER_EVENTS"
  shows "buffer_after q (map (\<lambda>(task, event). BufferPush s task event) evs)
    = newest MAX_BUFFER_EVENTS
        (q @ map (\<lambda>(task, event). \<lparr>mn_task_id = task, mn_event_text = event, mn_owner = Some s\<rparr>) evs)"
proof -
  have "buffer_after q (map (\<lambda>(task, event). BufferPush s task event) evs)
    = foldl (push_capped MAX_BUFFER_EVENTS) q
        (map (\<lambda>(task, event). \<lparr>mn_task_id = task, mn_event_text = event, mn_owner = Some s\<rparr>) evs)" for q
    by (induction evs arbitrary: q) (auto simp: buffer_after_def)
  with event_log.push_all [OF assms] show ?thesis by simp
qed

text \<open>The cap is one for all sessions. Once one session has sent fifty events that were not
  drained, every event of another session is gone from the shared buffer, undelivered.\<close>

theorem busy_session_evicts_others:
  assumes "length q \<le> MAX_BUFFER_EVENTS" "MAX_BUFFER_EVENTS \<le> length evs" "a \<noteq> b"
  shows "events_of a (buffer_after q (map (\<lambda>(task, event). BufferPush b task event) evs)) = []"
proof -
  let ?ys = "map (\<lambda>(task, event). \<lparr>mn_task_id = task, mn_event_text = event, mn_owner = Some b\<rparr>) evs"
  have "buffer_after q (map (\<lambda>(task, event). BufferPush b task event) evs) = newest MAX_BUFFER_EVENTS ?ys"
    using assms(2) by (simp add: pushes_newest [OF assms(1)] newest_append_long)
  moreover have "\<forall>e \<in> set (newest MAX_BUFFER_EVENTS ?ys). mn_owner e = Some b"
    by (auto simp: newest_def dest!: in_set_dropD)
  ultimately show ?thesis using assms(3) by (auto simp: events_of_def filter_empty_conv)
qed

theorem busy_session_evicts_others_witness:
  "events_of (lit ''A'') (buffer_after
      [\<lparr>mn_task_id = lit ''t'', mn_event_text = lit ''x'', mn_owner = Some (lit ''A'')\<rparr>]
      (map (\<lambda>(task, event). BufferPush (lit ''B'') task event) (replicate 50 (lit ''u'', lit ''y'')))) = []"
  by (rule busy_session_evicts_others) (simp_all add: MAX_BUFFER_EVENTS_def str_simps)

end
