(* ===== verification/LineHash.thy ===== *)
theory LineHash
  imports Prelude "HOL-Library.Word"
begin

unbundle bit_operations_syntax

text \<open>
  The hashes behind line anchors (\<^verbatim>\<open>ds-tools/src/util/hash.rs\<close>): FNV-1a on 32 bits, the fingerprint of
  a line that ignores differences in whitespace, and its encoding as letters.
\<close>

section \<open>Hashes\<close>

type_synonym u32 = "32 word"

definition FNV_OFFSET :: u32 where
  "FNV_OFFSET = 2166136261"

definition FNV_PRIME :: u32 where
  "FNV_PRIME = 16777619"

text \<open>One round: the exclusive or with a value, then the wrapping product with the prime.\<close>

definition fnv_mix :: "u32 \<Rightarrow> u32 \<Rightarrow> u32" where
  "fnv_mix h x = (h XOR x) * FNV_PRIME"

definition fnv1a_32 :: "bytes \<Rightarrow> u32" where
  "fnv1a_32 data = foldl (\<lambda>h b. fnv_mix h (word_of_nat b)) FNV_OFFSET data"

text \<open>\<^verbatim>\<open>u8::is_ascii_whitespace\<close>: space, tab, newline, form feed, carriage return.\<close>

definition is_ascii_whitespace :: "nat \<Rightarrow> bool" where
  "is_ascii_whitespace b \<longleftrightarrow> b = 32 \<or> b = 9 \<or> b = 10 \<or> b = 12 \<or> b = 13"

fun line_hash_loop :: "u32 \<Rightarrow> bool \<Rightarrow> bytes \<Rightarrow> u32" where
  "line_hash_loop h prev_ws [] = h"
| "line_hash_loop h prev_ws (b # bs) =
     (if is_ascii_whitespace b then
        (if \<not> prev_ws then line_hash_loop (fnv_mix h 32) True bs
         else line_hash_loop h prev_ws bs)
      else line_hash_loop (fnv_mix h (word_of_nat b)) False bs)"

definition line_hash :: "rstr \<Rightarrow> u32" where
  "line_hash line = line_hash_loop FNV_OFFSET False (as_bytes (trim line))"

text \<open>
  \<open>len\<close> letters, each from another byte of the hash. The assertion that \<open>len\<close> is between one and four
  holds for every scheme that can be built (\<open>build_scheme_lengths\<close>).
\<close>

definition hash_letter :: "u32 \<Rightarrow> nat \<Rightarrow> rune" where
  "hash_letter h i = unat (drop_bit (i * 8) h mod 26) + 97"

definition encode_hash :: "u32 \<Rightarrow> nat \<Rightarrow> rstr" where
  "encode_hash h len = map (hash_letter h) [0..<len]"

definition DEFAULT_HASH_LEN :: nat where
  "DEFAULT_HASH_LEN = 3"

section \<open>What the fingerprint sees\<close>

lemma length_encode_hash [simp]: "length (encode_hash h n) = n"
  by (simp add: encode_hash_def)

definition lowercase :: "rstr \<Rightarrow> bool" where
  "lowercase s = list_all (\<lambda>c. 97 \<le> c \<and> c \<le> 122) s"

lemma hash_letter_range: "97 \<le> hash_letter h i" "hash_letter h i \<le> 122"
proof -
  have "unat (drop_bit (i * 8) h mod 26) < unat (26 :: u32)"
    by (intro unat_mono word_mod_less_divisor) simp
  then show "hash_letter h i \<le> 122" by (simp add: hash_letter_def)
qed (simp add: hash_letter_def)

lemma lowercase_encode_hash [simp]: "lowercase (encode_hash h n)"
  by (auto simp: lowercase_def encode_hash_def list_all_iff hash_letter_range)

lemma encode_hash_ne [simp]: "encode_hash h n = [] \<longleftrightarrow> n = 0"
  by (simp add: encode_hash_def)

text \<open>The bytes that are hashed: every run of whitespace as one space.\<close>

fun collapse :: "bool \<Rightarrow> bytes \<Rightarrow> bytes" where
  "collapse prev_ws [] = []"
| "collapse prev_ws (b # bs) =
     (if is_ascii_whitespace b then (if prev_ws then collapse prev_ws bs else 32 # collapse True bs)
      else b # collapse False bs)"

lemma line_hash_loop_collapse:
  "line_hash_loop h ws bs = foldl (\<lambda>h b. fnv_mix h (word_of_nat b)) h (collapse ws bs)"
  by (induction h ws bs rule: line_hash_loop.induct) auto

lemma line_hash_fnv: "line_hash line = fnv1a_32 (collapse False (as_bytes (trim line)))"
  by (simp add: line_hash_def fnv1a_32_def line_hash_loop_collapse)

end
