(* ===== verification/AnchorScheme.thy ===== *)
theory AnchorScheme
  imports LineHash
begin

text \<open>
  Anchors of lines (\<^verbatim>\<open>ds_build_hashline/scheme.rs\<close>, \<^verbatim>\<open>anchor.rs\<close>, \<^verbatim>\<open>config.rs\<close>): a line is named by its
  number and a short fingerprint, so that an edit can check that it still hits the line it was meant
  for. The trait \<^verbatim>\<open>AnchorScheme\<close> is a record of its methods, the three schemes are values of it, and
  what the clients rely on is the locale \<open>anchor_laws\<close>.
\<close>

section \<open>Anchors\<close>

text \<open>\<^verbatim>\<open>Anchor\<close> and \<^verbatim>\<open>ParsedAnchor\<close> have the same fields and the same text.\<close>

record line_anchor =
  an_line :: nat
  an_local :: rstr
  an_context :: "rstr option"

definition anchor_render :: "line_anchor \<Rightarrow> rstr" where
  "anchor_render a =
     (case an_context a of
        Some ctx \<Rightarrow> show_nat (an_line a) @ [58] @ an_local a @ [58] @ ctx
      | None \<Rightarrow> show_nat (an_line a) @ [58] @ an_local a)"

text \<open>\<^verbatim>\<open>str::splitn\<close> and \<^verbatim>\<open>str::split_once\<close>.\<close>

fun splitn :: "nat \<Rightarrow> rune \<Rightarrow> rstr \<Rightarrow> rstr list" where
  "splitn 0 c s = []"
| "splitn (Suc n) c s =
     (if n = 0 then [s]
      else (case position (\<lambda>x. x = c) s of
              None \<Rightarrow> [s]
            | Some i \<Rightarrow> take i s # splitn n c (drop (i + 1) s)))"

definition split_once :: "rstr \<Rightarrow> rstr \<Rightarrow> (rstr \<times> rstr) option" where
  "split_once p s = map_option (\<lambda>i. (take i s, drop (i + length p) s)) (find_sub p s)"

definition parse_anchor :: "rstr \<Rightarrow> line_anchor option" where
  "parse_anchor s =
     (case splitn 3 58 s of
        line_str # loc # rest \<Rightarrow>
          (if line_str = [] \<or> loc = [] then None
           else (case parse_unsigned 64 line_str of
                   None \<Rightarrow> None
                 | Some n \<Rightarrow>
                     (if n = 0 then None
                      else if \<not> lowercase loc then None
                      else (case rest of
                              [] \<Rightarrow> Some \<lparr>an_line = n, an_local = loc, an_context = None\<rparr>
                            | ctx # _ \<Rightarrow>
                                (if ctx = [] \<or> \<not> lowercase ctx then None
                                 else Some \<lparr>an_line = n, an_local = loc, an_context = Some ctx\<rparr>)))))
      | _ \<Rightarrow> None)"

datatype validation_result = Valid | Stale | OutOfRange

datatype shift_result = ShiftFound nat | ShiftAmbiguous "nat list" | ShiftNotFound

definition DEFAULT_SEARCH_RADIUS :: nat where
  "DEFAULT_SEARCH_RADIUS = 15"

section \<open>The trait\<close>

record anchor_scheme =
  sc_name :: rstr
  sc_hash_len :: nat
  sc_generate :: "rstr list \<Rightarrow> line_anchor list"
  sc_validate :: "line_anchor \<Rightarrow> rstr list \<Rightarrow> validation_result"
  sc_window :: "nat \<Rightarrow> nat \<Rightarrow> nat"
  sc_find_shifted :: "line_anchor \<Rightarrow> rstr list \<Rightarrow> nat \<Rightarrow> shift_result"

text \<open>\<^verbatim>\<open>anchor.line.checked_sub(1).unwrap_or(usize::MAX)\<close> on 64 bits.\<close>

definition anchor_index :: "line_anchor \<Rightarrow> nat" where
  "anchor_index a = (if an_line a = 0 then 2 ^ 64 - 1 else an_line a - 1)"

definition local_hash :: "nat \<Rightarrow> rstr \<Rightarrow> rstr" where
  "local_hash n line = encode_hash (line_hash line) n"

definition shift_candidate :: "nat \<Rightarrow> (line_anchor \<Rightarrow> rstr list \<Rightarrow> validation_result) \<Rightarrow> line_anchor
    \<Rightarrow> rstr list \<Rightarrow> nat \<Rightarrow> bool" where
  "shift_candidate n validate a ls idx \<longleftrightarrow>
     idx \<noteq> an_line a - 1 \<and> local_hash n (ls ! idx) = an_local a \<and>
     (an_context a \<noteq> None \<longrightarrow>
        validate \<lparr>an_line = idx + 1, an_local = local_hash n (ls ! idx), an_context = an_context a\<rparr> ls
        = Valid)"

definition find_shifted_generic :: "nat \<Rightarrow> (line_anchor \<Rightarrow> rstr list \<Rightarrow> validation_result) \<Rightarrow> line_anchor
    \<Rightarrow> rstr list \<Rightarrow> nat \<Rightarrow> shift_result" where
  "find_shifted_generic n validate a ls search_radius =
     (let orig_idx = an_line a - 1;
          start = orig_idx - search_radius;
          stop = min (orig_idx + search_radius + 1) (length ls);
          candidates = map Suc (filter (shift_candidate n validate a ls) [start..<stop])
      in case candidates of
           [] \<Rightarrow> ShiftNotFound
         | [c] \<Rightarrow> ShiftFound c
         | _ \<Rightarrow> ShiftAmbiguous candidates)"

section \<open>Content only\<close>

definition content_only_validate :: "nat \<Rightarrow> line_anchor \<Rightarrow> rstr list \<Rightarrow> validation_result" where
  "content_only_validate n a ls =
     (let idx = anchor_index a
      in if length ls \<le> idx then OutOfRange
         else if an_local a = local_hash n (ls ! idx) then Valid else Stale)"

fun content_only_from :: "nat \<Rightarrow> nat \<Rightarrow> rstr list \<Rightarrow> line_anchor list" where
  "content_only_from n i [] = []"
| "content_only_from n i (line # ls) =
     \<lparr>an_line = i + 1, an_local = local_hash n line, an_context = None\<rparr> # content_only_from n (i + 1) ls"

definition content_only :: "nat \<Rightarrow> anchor_scheme" where
  "content_only n =
     \<lparr>sc_name = lit ''content_only_v1'', sc_hash_len = n,
      sc_generate = content_only_from n 0,
      sc_validate = content_only_validate n,
      sc_window = (\<lambda>line_idx total_lines. 1),
      sc_find_shifted = find_shifted_generic n (content_only_validate n)\<rparr>"

text \<open>The constructors check their arguments; \<open>None\<close> is the panic.\<close>

definition content_only_with_hash_len :: "nat \<Rightarrow> anchor_scheme option" where
  "content_only_with_hash_len n = (if 0 < n \<and> n \<le> 4 then Some (content_only n) else None)"

section \<open>Chunk fingerprints\<close>

definition DEFAULT_CHUNK_SIZE :: nat where
  "DEFAULT_CHUNK_SIZE = 16"

definition chunk_hash :: "bytes \<Rightarrow> rstr list \<Rightarrow> u32" where
  "chunk_hash seed ls = foldl (\<lambda>h line. fnv_mix h (line_hash line)) (fnv1a_32 seed) ls"

definition chunk_seed :: bytes where
  "chunk_seed = as_bytes (lit ''chunk'')"

definition chunk_fingerprint :: "nat \<Rightarrow> nat \<Rightarrow> rstr list \<Rightarrow> nat \<Rightarrow> rstr" where
  "chunk_fingerprint n width ls line_idx =
     (let chunk_start = line_idx div width * width;
          chunk_end = min (chunk_start + width) (length ls)
      in encode_hash (chunk_hash chunk_seed (drop chunk_start (take chunk_end ls))) n)"

text \<open>The fingerprints computed in advance, one for each chunk (\<^verbatim>\<open>div_ceil\<close>).\<close>

definition chunk_fps :: "nat \<Rightarrow> nat \<Rightarrow> rstr list \<Rightarrow> rstr list" where
  "chunk_fps n width ls =
     map (\<lambda>chunk_idx.
            let start = chunk_idx * width;
                stop = min (start + width) (length ls)
            in encode_hash (chunk_hash chunk_seed (drop start (take stop ls))) n)
         [0..<(length ls + width - 1) div width]"

definition chunk_generate :: "nat \<Rightarrow> nat \<Rightarrow> rstr list \<Rightarrow> line_anchor list" where
  "chunk_generate n width ls =
     (let fps = chunk_fps n width ls
      in map (\<lambda>i. \<lparr>an_line = i + 1, an_local = local_hash n (ls ! i), an_context = Some (fps ! (i div width))\<rparr>)
             [0..<length ls])"

text \<open>The check shared by the two schemes with a context: a missing context is stale.\<close>

definition context_validate :: "nat \<Rightarrow> (rstr list \<Rightarrow> nat \<Rightarrow> rstr) \<Rightarrow> line_anchor \<Rightarrow> rstr list \<Rightarrow> validation_result" where
  "context_validate n fingerprint a ls =
     (let idx = anchor_index a
      in if length ls \<le> idx then OutOfRange
         else if an_local a \<noteq> local_hash n (ls ! idx) then Stale
         else (case an_context a of
                 None \<Rightarrow> Stale
               | Some expected_ctx \<Rightarrow> if expected_ctx \<noteq> fingerprint ls idx then Stale else Valid))"

definition chunk_scheme :: "nat \<Rightarrow> nat \<Rightarrow> anchor_scheme" where
  "chunk_scheme n width =
     \<lparr>sc_name = lit ''chunk_v1'', sc_hash_len = n,
      sc_generate = chunk_generate n width,
      sc_validate = context_validate n (chunk_fingerprint n width),
      sc_window = (\<lambda>line_idx total_lines. min width total_lines),
      sc_find_shifted = find_shifted_generic n (context_validate n (chunk_fingerprint n width))\<rparr>"

definition chunk_with_params :: "nat \<Rightarrow> nat \<Rightarrow> anchor_scheme option" where
  "chunk_with_params n width = (if (0 < n \<and> n \<le> 4) \<and> 0 < width then Some (chunk_scheme n width) else None)"

section \<open>Checkpoint chains\<close>

definition DEFAULT_CHECKPOINT_INTERVAL :: nat where
  "DEFAULT_CHECKPOINT_INTERVAL = 32"

definition checkpoint_seed :: bytes where
  "checkpoint_seed = as_bytes (lit ''ckpt'')"

definition checkpoint_fingerprint :: "nat \<Rightarrow> nat \<Rightarrow> rstr list \<Rightarrow> nat \<Rightarrow> rstr" where
  "checkpoint_fingerprint n interval ls line_idx =
     (let checkpoint_start = line_idx div interval * interval
      in encode_hash (chunk_hash checkpoint_seed (drop checkpoint_start (take (line_idx + 1) ls))) n)"

fun checkpoint_loop :: "nat \<Rightarrow> nat \<Rightarrow> nat \<Rightarrow> u32 \<Rightarrow> rstr list \<Rightarrow> line_anchor list" where
  "checkpoint_loop n interval i chain [] = []"
| "checkpoint_loop n interval i chain (line # ls) =
     (let chain = (if i mod interval = 0 then fnv1a_32 checkpoint_seed else chain);
          chain = fnv_mix chain (line_hash line)
      in \<lparr>an_line = i + 1, an_local = local_hash n line, an_context = Some (encode_hash chain n)\<rparr>
         # checkpoint_loop n interval (i + 1) chain ls)"

definition checkpoint_chain :: "nat \<Rightarrow> nat \<Rightarrow> anchor_scheme" where
  "checkpoint_chain n interval =
     \<lparr>sc_name = lit ''checkpoint_v1'', sc_hash_len = n,
      sc_generate = checkpoint_loop n interval 0 (fnv1a_32 checkpoint_seed),
      sc_validate = context_validate n (checkpoint_fingerprint n interval),
      sc_window = (\<lambda>line_idx total_lines. line_idx - line_idx div interval * interval + 1),
      sc_find_shifted = find_shifted_generic n (context_validate n (checkpoint_fingerprint n interval))\<rparr>"

definition checkpoint_with_params :: "nat \<Rightarrow> nat \<Rightarrow> anchor_scheme option" where
  "checkpoint_with_params n interval =
     (if (0 < n \<and> n \<le> 4) \<and> 0 < interval then Some (checkpoint_chain n interval) else None)"

section \<open>Lines of a file\<close>

definition anchor_lines :: "rstr \<Rightarrow> rstr list" where
  "anchor_lines s =
     (if s = [] then [[]]
      else lines s @ (if ends_with s [10] then [[]] else []))"

definition generate_for_content :: "anchor_scheme \<Rightarrow> rstr \<Rightarrow> line_anchor list" where
  "generate_for_content sc s = sc_generate sc (anchor_lines s)"

definition validate_against_content :: "anchor_scheme \<Rightarrow> line_anchor \<Rightarrow> rstr \<Rightarrow> validation_result" where
  "validate_against_content sc a s = sc_validate sc a (anchor_lines s)"

definition find_shifted_in_content :: "anchor_scheme \<Rightarrow> line_anchor \<Rightarrow> rstr \<Rightarrow> nat \<Rightarrow> shift_result" where
  "find_shifted_in_content sc a s radius = sc_find_shifted sc a (anchor_lines s) radius"

section \<open>Parameters\<close>

record scheme_params =
  sp_scheme :: rstr
  sp_hash_len :: nat
  sp_chunk_size :: nat

definition scheme_params_default :: scheme_params where
  "scheme_params_default = \<lparr>sp_scheme = lit ''chunk'', sp_hash_len = 3, sp_chunk_size = 8\<rparr>"

definition validate_params :: "scheme_params \<Rightarrow> rstr + unit" where
  "validate_params p =
     (if sp_scheme p \<noteq> lit ''chunk'' \<and> sp_scheme p \<noteq> lit ''content_only'' then
        Inl (lit ''unknown scheme '' @ [34] @ sp_scheme p @ [34] @ lit '': expected '' @
             [34] @ lit ''chunk'' @ [34] @ lit '' or '' @ [34] @ lit ''content_only'' @ [34])
      else if sp_hash_len p = 0 \<or> 4 < sp_hash_len p then
        Inl (lit ''hash_len must be 1..=4, got '' @ show_nat (sp_hash_len p))
      else if sp_scheme p = lit ''chunk'' \<and> sp_chunk_size p = 0 then
        Inl (lit ''chunk_size must be > 0'')
      else Inr ())"

text \<open>\<open>None\<close> is the panic of a constructor.\<close>

definition build_scheme :: "scheme_params \<Rightarrow> (rstr + anchor_scheme) option" where
  "build_scheme p =
     (case validate_params p of
        Inl e \<Rightarrow> Some (Inl e)
      | Inr _ \<Rightarrow>
          map_option Inr
            (if sp_scheme p = lit ''content_only'' then content_only_with_hash_len (sp_hash_len p)
             else chunk_with_params (sp_hash_len p) (sp_chunk_size p)))"

end
