(* ===== verification/AnchorSchemeProps.thy ===== *)
theory AnchorSchemeProps
  imports AnchorScheme
begin

text \<open>
  What the schemes promise: an anchor that was generated for a line is valid for it, only lines with
  the anchor's fingerprint are accepted, texts of anchors are read back, an edit elsewhere leaves
  the anchors of the other chunks valid, and a shifted anchor is found exactly when one line near by
  has its fingerprint.
\<close>

section \<open>Texts of anchors\<close>

lemma position_split:
  "c \<notin> set s \<Longrightarrow> position (\<lambda>x. x = c) (s @ c # t) = Some (length s)"
  by (rule position_append) auto

lemma position_missing: "c \<notin> set s \<Longrightarrow> position (\<lambda>x. x = c) s = None"
  by (auto simp: position_None)

lemma splitn_3:
  "splitn 3 c s =
     (case position (\<lambda>x. x = c) s of
        None \<Rightarrow> [s]
      | Some i \<Rightarrow>
          (case position (\<lambda>x. x = c) (drop (i + 1) s) of
             None \<Rightarrow> [take i s, drop (i + 1) s]
           | Some j \<Rightarrow> [take i s, take j (drop (i + 1) s), drop (j + 1) (drop (i + 1) s)]))"
  by (simp add: numeral_3_eq_3 split: option.split)

lemma show_nat_no_colon: "58 \<notin> set (show_nat n)"
  using show_nat_digits [of n] by fastforce

lemma lowercase_no_colon: "lowercase s \<Longrightarrow> 58 \<notin> set s"
  by (auto simp: lowercase_def list_all_iff)

definition anchor_ok :: "line_anchor \<Rightarrow> bool" where
  "anchor_ok a \<longleftrightarrow>
     0 < an_line a \<and> an_line a < 2 ^ 64 \<and> an_local a \<noteq> [] \<and> lowercase (an_local a) \<and>
     (case an_context a of None \<Rightarrow> True | Some ctx \<Rightarrow> ctx \<noteq> [] \<and> lowercase ctx)"

lemma parse_render:
  assumes "anchor_ok a"
  shows "parse_anchor (anchor_render a) = Some a"
proof -
  obtain n l c where a: "a = \<lparr>an_line = n, an_local = l, an_context = c\<rparr>" by (cases a) auto
  have l: "58 \<notin> set l" using assms lowercase_no_colon by (simp add: anchor_ok_def a)
  have num: "parse_unsigned 64 (show_nat n) = Some n" using assms by (simp add: anchor_ok_def a parse_show_nat)
  show ?thesis
  proof (cases c)
    case None
    then have "splitn 3 58 (anchor_render a) = [show_nat n, l]"
      using l by (simp add: a anchor_render_def splitn_3 position_split position_missing show_nat_no_colon)
    then show ?thesis using assms num None by (simp add: parse_anchor_def anchor_ok_def a)
  next
    case (Some ctx)
    then have "splitn 3 58 (anchor_render a) = [show_nat n, l, ctx]"
      using l by (simp add: a anchor_render_def splitn_3 position_split show_nat_no_colon)
    then show ?thesis using assms num Some by (simp add: parse_anchor_def anchor_ok_def a)
  qed
qed

lemma set_single: "distinct xs \<Longrightarrow> set xs = {x} \<longleftrightarrow> xs = [x]"
proof (cases xs)
  case (Cons a ys)
  assume "distinct xs"
  then show ?thesis by (cases ys) (auto simp: Cons)
qed simp

section \<open>The contract of a scheme\<close>

locale anchor_laws =
  fixes sc :: anchor_scheme
  assumes hash_len: "0 < sc_hash_len sc"
    and length_generate [simp]: "length (sc_generate sc ls) = length ls"
    and generate_line: "i < length ls \<Longrightarrow> an_line (sc_generate sc ls ! i) = Suc i"
    and generate_local: "i < length ls \<Longrightarrow>
          an_local (sc_generate sc ls ! i) = local_hash (sc_hash_len sc) (ls ! i)"
    and generate_context: "i < length ls \<Longrightarrow> an_context (sc_generate sc ls ! i) = Some ctx \<Longrightarrow>
          ctx \<noteq> [] \<and> lowercase ctx"
    and validate_range: "sc_validate sc a ls = OutOfRange \<longleftrightarrow> length ls \<le> anchor_index a"
    and validate_iff: "anchor_index a < length ls \<Longrightarrow>
          sc_validate sc a ls = Valid \<longleftrightarrow>
            an_local a = local_hash (sc_hash_len sc) (ls ! anchor_index a) \<and>
            (an_context (sc_generate sc ls ! anchor_index a) = None \<or>
             an_context a = an_context (sc_generate sc ls ! anchor_index a))"
    and find_shifted: "sc_find_shifted sc = find_shifted_generic (sc_hash_len sc) (sc_validate sc)"
begin

lemma anchor_index_generate: "i < length ls \<Longrightarrow> anchor_index (sc_generate sc ls ! i) = i"
  by (simp add: anchor_index_def generate_line)

lemma generate_valid: "i < length ls \<Longrightarrow> sc_validate sc (sc_generate sc ls ! i) ls = Valid"
  by (simp add: validate_iff anchor_index_generate generate_local)

lemma generate_ok: "i < length ls \<Longrightarrow> length ls < 2 ^ 64 \<Longrightarrow> anchor_ok (sc_generate sc ls ! i)"
  using hash_len generate_context [of i ls]
  by (auto simp: anchor_ok_def generate_line generate_local local_hash_def split: option.split)

lemma generate_parse:
  "i < length ls \<Longrightarrow> length ls < 2 ^ 64 \<Longrightarrow>
   parse_anchor (anchor_render (sc_generate sc ls ! i)) = Some (sc_generate sc ls ! i)"
  by (intro parse_render generate_ok)

text \<open>The recovery reports one line exactly when one line near the old place has the fingerprint.\<close>

lemma find_shifted_Found:
  "sc_find_shifted sc a ls r = ShiftFound k \<longleftrightarrow>
   0 < k \<and> {j. an_line a - 1 - r \<le> j \<and> j < min (an_line a - 1 + r + 1) (length ls)
                \<and> shift_candidate (sc_hash_len sc) (sc_validate sc) a ls j} = {k - 1}"
  (is "_ \<longleftrightarrow> 0 < k \<and> ?S = _")
proof -
  let ?cs = "filter (shift_candidate (sc_hash_len sc) (sc_validate sc) a ls)
           [an_line a - 1 - r..<min (an_line a - 1 + r + 1) (length ls)]"
  have set: "set ?cs = ?S" "distinct ?cs" by auto
  have "sc_find_shifted sc a ls r = ShiftFound k \<longleftrightarrow> map Suc ?cs = [k]"
    by (auto simp: find_shifted find_shifted_generic_def Let_def split: list.splits)
  also have "\<dots> \<longleftrightarrow> 0 < k \<and> ?cs = [k - 1]" by (cases k) auto
  also have "?cs = [k - 1] \<longleftrightarrow> ?S = {k - 1}"
    unfolding set(1) [symmetric] by (rule set_single [OF set(2), symmetric])
  finally show ?thesis .
qed

lemma find_shifted_FoundD:
  assumes "sc_find_shifted sc a ls r = ShiftFound k"
  shows "0 < k" "k - 1 < length ls" "shift_candidate (sc_hash_len sc) (sc_validate sc) a ls (k - 1)"
proof -
  let ?S = "{j. an_line a - 1 - r \<le> j \<and> j < min (an_line a - 1 + r + 1) (length ls)
                \<and> shift_candidate (sc_hash_len sc) (sc_validate sc) a ls j}"
  from assms show "0 < k" by (simp only: find_shifted_Found)
  from assms have "?S = {k - 1}" by (simp only: find_shifted_Found)
  then have "k - 1 \<in> ?S" by (simp only: singletonI)
  then show "k - 1 < length ls" "shift_candidate (sc_hash_len sc) (sc_validate sc) a ls (k - 1)"
    by simp_all
qed

end

section \<open>The three schemes\<close>

lemma content_only_from_eq:
  "content_only_from n i ls
   = map (\<lambda>j. \<lparr>an_line = Suc (i + j), an_local = local_hash n (ls ! j), an_context = None\<rparr>) [0..<length ls]"
proof (induction ls arbitrary: i)
  case (Cons l ls)
  then show ?case by (simp add: upt_conv_Cons map_Suc_upt [symmetric] del: upt_Suc)
qed simp

lemma content_only_laws: "0 < n \<Longrightarrow> anchor_laws (content_only n)"
  by unfold_locales
     (auto simp: content_only_def content_only_from_eq content_only_validate_def Let_def)

lemma chunk_fps_nth:
  assumes "0 < k" "i < length ls"
  shows "chunk_fps n k ls ! (i div k) = chunk_fingerprint n k ls i"
proof -
  have "i div k < (length ls + k - 1) div k"
  proof -
    have "i + k \<le> length ls + k - 1" using assms(2) by linarith
    then have "(i + k) div k \<le> (length ls + k - 1) div k" by (rule div_le_mono)
    moreover have "(i + k) div k = Suc (i div k)" using assms(1) div_add_self2 [of k i] by linarith
    ultimately show ?thesis by linarith
  qed
  then show ?thesis by (simp add: chunk_fps_def chunk_fingerprint_def Let_def)
qed

lemma nth_chunk_generate:
  "0 < k \<Longrightarrow> i < length ls \<Longrightarrow> chunk_generate n k ls ! i
   = \<lparr>an_line = Suc i, an_local = local_hash n (ls ! i), an_context = Some (chunk_fingerprint n k ls i)\<rparr>"
  by (simp add: chunk_generate_def Let_def chunk_fps_nth)

lemma context_laws:
  assumes "sc_hash_len sc = n" "0 < n"
    "\<And>ls. length (sc_generate sc ls) = length ls"
    "\<And>ls i. i < length ls \<Longrightarrow> sc_generate sc ls ! i
        = \<lparr>an_line = Suc i, an_local = local_hash n (ls ! i), an_context = Some (fp ls i)\<rparr>"
    "sc_validate sc = context_validate n fp"
    "sc_find_shifted sc = find_shifted_generic n (context_validate n fp)"
    "\<And>ls i. fp ls i \<noteq> [] \<and> lowercase (fp ls i)"
  shows "anchor_laws sc"
  using assms
  by unfold_locales (auto simp: context_validate_def Let_def split: option.splits if_splits)

lemma chunk_laws: "0 < n \<Longrightarrow> 0 < k \<Longrightarrow> anchor_laws (chunk_scheme n k)"
  by (rule context_laws [where n = n and fp = "chunk_fingerprint n k"])
     (simp_all add: chunk_scheme_def nth_chunk_generate, simp_all add: chunk_generate_def
        chunk_fingerprint_def Let_def)

lemma chunk_hash_snoc [simp]: "chunk_hash seed (ls @ [l]) = fnv_mix (chunk_hash seed ls) (line_hash l)"
  by (simp add: chunk_hash_def)

lemma checkpoint_loop_eq:
  "i = length pre \<Longrightarrow> (i mod k \<noteq> 0 \<longrightarrow> chain = chunk_hash checkpoint_seed (drop (i div k * k) pre)) \<Longrightarrow>
   checkpoint_loop n k i chain ls
   = map (\<lambda>j. \<lparr>an_line = Suc (i + j), an_local = local_hash n (ls ! j),
               an_context = Some (checkpoint_fingerprint n k (pre @ ls) (i + j))\<rparr>) [0..<length ls]"
proof (induction ls arbitrary: i pre chain)
  case (Cons l ls)
  let ?c = "fnv_mix (if i mod k = 0 then fnv1a_32 checkpoint_seed else chain) (line_hash l)"
  have c: "?c = chunk_hash checkpoint_seed (drop (i div k * k) (pre @ [l]))"
  proof (cases "i mod k = 0")
    case True
    then have "i div k * k = length pre" using Cons.prems(1) by auto
    then show ?thesis using True by (simp add: chunk_hash_def)
  next
    case False
    moreover have "i div k * k \<le> length pre" by (simp add: Cons.prems(1))
    ultimately show ?thesis using Cons.prems(2) by simp
  qed
  have "Suc i mod k \<noteq> 0 \<longrightarrow> ?c = chunk_hash checkpoint_seed (drop (Suc i div k * k) (pre @ [l]))"
    by (simp add: c div_Suc)
  then have "checkpoint_loop n k (Suc i) ?c ls
      = map (\<lambda>j. \<lparr>an_line = Suc (Suc i + j), an_local = local_hash n (ls ! j),
               an_context = Some (checkpoint_fingerprint n k ((pre @ [l]) @ ls) (Suc i + j))\<rparr>) [0..<length ls]"
    using Cons.prems(1) by (intro Cons.IH) simp_all
  moreover have "checkpoint_fingerprint n k (pre @ l # ls) i = encode_hash ?c n"
    unfolding c by (simp add: checkpoint_fingerprint_def Let_def Cons.prems(1))
  ultimately show ?case
    by (simp add: upt_conv_Cons map_Suc_upt [symmetric] Let_def del: upt_Suc)
qed simp

lemma checkpoint_laws: "0 < n \<Longrightarrow> 0 < k \<Longrightarrow> anchor_laws (checkpoint_chain n k)"
  using checkpoint_loop_eq [of 0 "[]" k "fnv1a_32 checkpoint_seed" n]
  by (intro context_laws [where n = n and fp = "checkpoint_fingerprint n k"])
     (simp_all add: checkpoint_chain_def, simp_all add: checkpoint_fingerprint_def Let_def)

interpretation content_only: anchor_laws "content_only (Suc n)" for n
  by (rule content_only_laws) simp

interpretation chunk: anchor_laws "chunk_scheme (Suc n) (Suc k)" for n k
  by (rule chunk_laws) simp_all

interpretation checkpoint: anchor_laws "checkpoint_chain (Suc n) (Suc k)" for n k
  by (rule checkpoint_laws) simp_all

section \<open>Schemes from parameters\<close>

text \<open>The parameters that pass the check never make a constructor panic.\<close>

lemma build_scheme_cases:
  obtains (invalid) e where "build_scheme p = Some (Inl e)"
  | (content) n where "build_scheme p = Some (Inr (content_only n))" "0 < n" "n \<le> 4"
  | (chunks) n k where "build_scheme p = Some (Inr (chunk_scheme n k))" "0 < n" "n \<le> 4" "0 < k"
proof (cases "validate_params p")
  case (Inl e)
  then show thesis using invalid by (simp add: build_scheme_def)
next
  case (Inr u)
  then have ok: "sp_scheme p = lit ''chunk'' \<or> sp_scheme p = lit ''content_only''" "0 < sp_hash_len p"
      "sp_hash_len p \<le> 4" "sp_scheme p = lit ''chunk'' \<longrightarrow> 0 < sp_chunk_size p"
    by (auto simp: validate_params_def split: if_splits)
  show thesis
  proof (cases "sp_scheme p = lit ''content_only''")
    case True
    then show thesis using ok Inr content [of "sp_hash_len p"]
      by (simp add: build_scheme_def content_only_with_hash_len_def)
  next
    case False
    then show thesis using ok Inr chunks [of "sp_hash_len p" "sp_chunk_size p"]
      by (simp add: build_scheme_def chunk_with_params_def)
  qed
qed

lemma build_scheme_lengths:
  "build_scheme p = Some (Inr sc) \<Longrightarrow> 1 \<le> sc_hash_len sc \<and> sc_hash_len sc \<le> 4"
  by (cases rule: build_scheme_cases [of p]) (auto simp: content_only_def chunk_scheme_def)

lemma build_scheme_laws: "build_scheme p = Some (Inr sc) \<Longrightarrow> anchor_laws sc"
  by (cases rule: build_scheme_cases [of p]) (auto intro: content_only_laws chunk_laws)

section \<open>Edits in other chunks\<close>

lemma chunk_fingerprint_local:
  assumes "0 < k" "i < length ls" "i < length ls'"
    "take k (drop (i div k * k) ls) = take k (drop (i div k * k) ls')"
  shows "chunk_fingerprint n k ls i = chunk_fingerprint n k ls' i"
proof -
  have "drop c (take (min (c + k) (length xs)) xs) = take k (drop c xs)" for c and xs :: "rstr list"
    by (cases "c + k \<le> length xs") (simp_all add: drop_take min_absorb1 min_absorb2)
  then show ?thesis using assms(4) by (simp add: chunk_fingerprint_def Let_def)
qed

lemma nth_in_chunk:
  assumes "0 < k" "take k (drop (i div k * k) ls) = take k (drop (i div k * k) ls')" "i < length ls" "i < length ls'"
  shows "ls ! i = ls' ! (i :: nat)"
proof -
  have "i mod k < k" "i div k * k + i mod k = i" using assms(1) by simp_all
  moreover have "take k (drop (i div k * k) ls) ! (i mod k) = take k (drop (i div k * k) ls') ! (i mod k)"
    by (simp add: assms(2))
  moreover have "i div k * k \<le> length ls" "i div k * k \<le> length ls'"
    using assms(3,4) div_times_less_eq_dividend [of i k] by linarith+
  ultimately show ?thesis by simp
qed

lemma chunk_generate_local:
  assumes "0 < k" "i < length ls" "i < length ls'"
    "take k (drop (i div k * k) ls) = take k (drop (i div k * k) ls')"
  shows "sc_generate (chunk_scheme n k) ls' ! i = sc_generate (chunk_scheme n k) ls ! i"
  using assms nth_in_chunk [OF assms(1,4,2,3)] chunk_fingerprint_local [OF assms, of n]
  by (simp add: chunk_scheme_def nth_chunk_generate)

end
