(* ===== verification/HashlineEdit.thy ===== *)
theory HashlineEdit
  imports AnchorScheme ByteText "HOL-Library.Monad_Syntax"
begin

text \<open>
  Edits by anchors (\<^verbatim>\<open>ds_build_hashline/edit/apply.rs\<close>, \<^verbatim>\<open>types.rs\<close>, \<^verbatim>\<open>range_policy.rs\<close>, and the lines
  shown with anchors of \<^verbatim>\<open>read_file.rs\<close>): the anchors of a batch are checked against the file as it
  is, overlapping edits are refused, and the rest is spliced in from the bottom up. \<open>None\<close> is a panic:
  an index or a range out of bounds, a difference or a conversion below zero.
\<close>

definition to_usize :: "int \<Rightarrow> nat option" where
  "to_usize i = (if 0 \<le> i then Some (nat i) else None)"

section \<open>Lines with anchors\<close>

definition ARROW :: rune where
  "ARROW = 8594"

definition anchor_suffix :: "line_anchor \<Rightarrow> rstr" where
  "anchor_suffix a = (case an_context a of Some ctx \<Rightarrow> an_local a @ [58] @ ctx | None \<Rightarrow> an_local a)"

definition render_anchored_line :: "line_anchor \<Rightarrow> rstr \<Rightarrow> rstr" where
  "render_anchored_line a line = show_nat (an_line a) @ [58] @ anchor_suffix a @ [ARROW] @ line"

definition format_hashline_content :: "rstr \<Rightarrow> nat option \<Rightarrow> nat option \<Rightarrow> anchor_scheme
    \<Rightarrow> (rstr \<times> rstr) option" where
  "format_hashline_content s offset limit sc =
     (let all_lines = anchor_lines s;
          anchors = sc_generate sc all_lines;
          skip = (case offset of Some n \<Rightarrow> n | None \<Rightarrow> 1) - 1;
          idxs = drop skip [0..<length all_lines];
          shown = (case limit of Some n \<Rightarrow> take n idxs | None \<Rightarrow> idxs)
      in map_option (\<lambda>out. (join [10] out, join [10] (map (\<lambda>i. all_lines ! i) shown)))
           (those (map (\<lambda>i. map_option (\<lambda>a. show_nat (i + 1) @ [58] @ anchor_suffix a @ [ARROW] @ all_lines ! i)
                             (nth_opt anchors i)) shown)))"

section \<open>Input and output\<close>

datatype hashline_op =
    Replace rstr "rstr option" rstr
  | InsertAfter rstr rstr
  | WriteFile rstr

datatype hashline_error_kind =
    AnchorStale | AmbiguousAnchor | AnchorNotFound | FileNotFoundKind | OverlappingEdits | InvalidInputKind
  | IoErrorKind

record hashline_edit_error =
  he_kind :: hashline_error_kind
  he_message :: rstr
  he_requested :: "rstr option"
  he_current :: "rstr option"
  he_context :: "rstr option"
  he_context_start :: "nat option"
  he_shifted_to :: "nat option"
  he_shifted_anchor :: "rstr option"
  he_ambiguous :: "nat list"

definition plain_error :: "hashline_error_kind \<Rightarrow> rstr \<Rightarrow> rstr option \<Rightarrow> hashline_edit_error" where
  "plain_error kind message requested =
     \<lparr>he_kind = kind, he_message = message, he_requested = requested, he_current = None, he_context = None,
      he_context_start = None, he_shifted_to = None, he_shifted_anchor = None, he_ambiguous = []\<rparr>"

record hashline_edits_applied =
  ha_applied :: nat
  ha_scheme :: rstr
  ha_snippet_start :: nat
  ha_snippet :: rstr
  ha_path :: rstr
  ha_warnings :: "rstr list"

datatype hashline_edit_output = HashlineApplied hashline_edits_applied | HashlineError hashline_edit_error

record edit_region_detail =
  ed_old_line :: nat
  ed_old_text :: rstr
  ed_new_line :: nat
  ed_new_text :: rstr

record apply_result =
  ar_output :: hashline_edit_output
  ar_new_content :: "rstr option"
  ar_details :: "edit_region_detail list"

section \<open>Sizes of ranges\<close>

datatype range_size = SmallRange | MediumRange | LargeRange

definition SMALL_MAX :: nat where
  "SMALL_MAX = 5"

definition MEDIUM_MAX :: nat where
  "MEDIUM_MAX = 20"

definition classify :: "nat \<Rightarrow> range_size" where
  "classify n = (if n \<le> SMALL_MAX then SmallRange else if n \<le> MEDIUM_MAX then MediumRange else LargeRange)"

definition range_warning :: "nat \<Rightarrow> nat \<Rightarrow> rstr option" where
  "range_warning start stop =
     (let count = stop - start
      in case classify count of
           LargeRange \<Rightarrow> Some (lit ''Caution: large range edit ('' @ show_nat count @ lit '' lines, lines '' @
             show_nat (start + 1) @ lit ''-'' @ show_nat stop @
             lit ''). Verify the target range is correct.'')
         | MediumRange \<Rightarrow> Some (lit ''Note: medium range edit ('' @ show_nat count @ lit '' lines, lines '' @
             show_nat (start + 1) @ lit ''-'' @ show_nat stop @ lit '').'')
         | SmallRange \<Rightarrow> None)"

section \<open>Anchors copied into the content\<close>

definition ASCII_ARROW :: rstr where
  "ASCII_ARROW = lit ''->''"

definition prefix_before :: "rstr \<Rightarrow> rstr \<Rightarrow> bool" where
  "prefix_before sep s =
     (case split_once sep s of
        Some (pre, _) \<Rightarrow> str_len pre \<le> 25 \<and> 58 \<in> set pre \<and> 32 \<notin> set pre
      | None \<Rightarrow> False)"

definition detect_anchor_prefix_in_content :: "rstr \<Rightarrow> nat option" where
  "detect_anchor_prefix_in_content s =
     map_option Suc
       (position (\<lambda>line. prefix_before [ARROW] (trim_start line) \<or> prefix_before ASCII_ARROW (trim_start line))
          (lines s))"

definition anchor_content_error :: "rstr \<Rightarrow> rstr \<Rightarrow> nat \<Rightarrow> hashline_edit_error option" where
  "anchor_content_error op_label s line_num = do {
     idx \<leftarrow> checked_sub line_num 1;
     let ls = lines s;
     let ctx_start = line_num - 1 - 1;
     let ctx_end = min (line_num + 1) (length ls);
     let context = join [10] (map (\<lambda>i. (if i + 1 = line_num then lit ''>>>'' else lit ''   '') @ lit '' line '' @
                                       show_nat (i + 1) @ lit '': '' @ ls ! i) [ctx_start..<ctx_end]);
     Some \<lparr>he_kind = InvalidInputKind,
           he_message = op_label @ lit '' content contains anchor prefixes (e.g. '' @ [34] @ lit ''22:abc:rst'' @
             [ARROW, 34] @ lit '') copied from hashline_read output. The first offending line is line '' @
             show_nat line_num @ lit ''. Strip the anchor prefixes and the '' @ [ARROW] @
             lit '' separator from every line, keeping only the actual file content, then retry.'',
           he_requested = None,
           he_current = Some (case nth_opt ls idx of Some l \<Rightarrow> l | None \<Rightarrow> []),
           he_context = Some context, he_context_start = Some (ctx_start + 1),
           he_shifted_to = None, he_shifted_anchor = None, he_ambiguous = []\<rparr>
   }"

section \<open>From anchors to lines\<close>

definition anchor_format_hint :: "anchor_scheme \<Rightarrow> rstr \<times> rstr" where
  "anchor_format_hint sc =
     (let len = max 1 (min 4 (sc_hash_len sc));
          h = take len (lit ''abcd'');
          has_context = (case sc_generate sc [lit ''x''] of a # _ \<Rightarrow> an_context a \<noteq> None | [] \<Rightarrow> False)
      in if has_context then (lit ''LINE:HASH1:HASH2'', lit ''22:'' @ h @ lit '':'' @ take len (lit ''rstu''))
         else (lit ''LINE:HASH'', lit ''22:'' @ h))"

definition suffix_matches :: "rstr \<Rightarrow> line_anchor \<Rightarrow> bool" where
  "suffix_matches suf a =
     (case (an_context a, split_once [58] suf) of
        (Some ctx, Some (loc, sfx_ctx)) \<Rightarrow> an_local a = loc \<and> ctx = sfx_ctx
      | (None, None) \<Rightarrow> an_local a = suf
      | _ \<Rightarrow> False)"

definition recover_anchor_by_suffix :: "rstr \<Rightarrow> rstr list \<Rightarrow> anchor_scheme \<Rightarrow> line_anchor option" where
  "recover_anchor_by_suffix suf ls sc =
     (case filter (suffix_matches suf) (sc_generate sc ls) of
        [a] \<Rightarrow> Some a
      | _ \<Rightarrow> None)"

text \<open>The part before an arrow, when the model copied a whole line.\<close>

definition strip_arrow :: "rstr \<Rightarrow> rstr" where
  "strip_arrow s =
     (case split_once [ARROW] s of
        Some (pre, _) \<Rightarrow> pre
      | None \<Rightarrow> (case split_once ASCII_ARROW s of Some (pre, _) \<Rightarrow> pre | None \<Rightarrow> s))"

definition debug_lines :: "nat list \<Rightarrow> rstr" where
  "debug_lines ns = lit ''['' @ join (lit '', '') (map show_nat ns) @ lit '']''"

text \<open>What a stale anchor's error says about the place its line may have moved to.\<close>

definition shift_report :: "line_anchor \<Rightarrow> line_anchor list \<Rightarrow> shift_result
    \<Rightarrow> (nat option \<times> rstr option \<times> nat list \<times> hashline_error_kind \<times> rstr) option" where
  "shift_report parsed anchors shift =
    (case shift of
       ShiftFound new_line \<Rightarrow> do {
         i \<leftarrow> checked_sub new_line 1;
         a \<leftarrow> nth_opt anchors i;
         let fresh = show_nat new_line @ [58] @ anchor_suffix a;
         Some (Some new_line, Some fresh, [], AnchorStale,
               lit ''Anchor stale at line '' @ show_nat (an_line parsed) @
               lit ''. Content appears to have shifted to line '' @ show_nat new_line @
               lit ''. Retry with anchor '' @ [34] @ fresh @ [34] @ lit ''.'')
       }
     | ShiftAmbiguous candidates \<Rightarrow>
         Some (None, None, candidates, AmbiguousAnchor,
               lit ''Anchor stale at line '' @ show_nat (an_line parsed) @
               lit ''. Multiple candidates at lines '' @ debug_lines candidates @
               lit ''. Use the fresh anchors from the context below to retry your edit.'')
     | ShiftNotFound \<Rightarrow>
         Some (None, None, [], AnchorStale,
               lit ''Anchor stale at line '' @ show_nat (an_line parsed) @
               lit ''. Use the fresh anchors from the context below to retry your edit.''))"

definition stale_error :: "rstr \<Rightarrow> line_anchor \<Rightarrow> rstr list \<Rightarrow> anchor_scheme \<Rightarrow> hashline_edit_error option" where
  "stale_error anchor_str parsed ls sc = do {
     let shift = sc_find_shifted sc parsed ls DEFAULT_SEARCH_RADIUS;
     let anchors = sc_generate sc ls;
     let recovery_ctx = 5;
     let ctx_start = an_line parsed - 1 - recovery_ctx;
     let ctx_end = min (an_line parsed + recovery_ctx) (length ls);
     shown \<leftarrow> those (map (\<lambda>i. map_option (\<lambda>a. render_anchored_line a (ls ! i)) (nth_opt anchors i))
                       [ctx_start..<ctx_end]);
     let idx = an_line parsed - 1;
     current \<leftarrow> (if idx < length ls
                then map_option (\<lambda>a. Some (render_anchored_line a (ls ! idx))) (nth_opt anchors idx)
                else Some None);
     (to, fresh, ambiguous, kind, message) \<leftarrow> shift_report parsed anchors shift;
     Some \<lparr>he_kind = kind, he_message = message, he_requested = Some anchor_str, he_current = current,
           he_context = Some (join [10] shown), he_context_start = Some (ctx_start + 1),
           he_shifted_to = to, he_shifted_anchor = fresh, he_ambiguous = ambiguous\<rparr>
   }"

text \<open>The index of the line, from zero.\<close>

definition validate_anchor :: "rstr \<Rightarrow> rstr list \<Rightarrow> anchor_scheme \<Rightarrow> (hashline_edit_error + nat) option" where
  "validate_anchor anchor_str ls sc =
     (let anchor_str = strip_arrow anchor_str
      in case (case parse_anchor anchor_str of
                 Some p \<Rightarrow> Some p
               | None \<Rightarrow> recover_anchor_by_suffix anchor_str ls sc) of
           None \<Rightarrow>
             (let (fmt, ex) = anchor_format_hint sc
              in Some (Inl (plain_error InvalidInputKind
                   (lit ''Malformed anchor: '' @ [34] @ anchor_str @ [34] @ lit ''. Expected format: '' @ [34] @
                    fmt @ [34] @ lit '' (e.g. '' @ [34] @ ex @ [34] @ lit '').'') (Some anchor_str))))
         | Some parsed \<Rightarrow>
             (case sc_validate sc parsed ls of
                Valid \<Rightarrow> map_option Inr (checked_sub (an_line parsed) 1)
              | OutOfRange \<Rightarrow>
                  Some (Inl (plain_error AnchorNotFound
                    (lit ''Line '' @ show_nat (an_line parsed) @ lit '' is out of range (file has '' @
                     show_nat (length ls) @ lit '' lines).'') (Some anchor_str)))
              | Stale \<Rightarrow> map_option Inl (stale_error anchor_str parsed ls sc)))"

section \<open>Operations\<close>

record resolved_op =
  ro_idx :: nat
  ro_start :: nat
  ro_stop :: nat
  ro_new :: "rstr list"

text \<open>The content of an operation, refused when it still has anchors in it.\<close>

definition content_lines :: "rstr \<Rightarrow> rstr list \<Rightarrow> rstr \<Rightarrow> (hashline_edit_error + rstr list) option" where
  "content_lines op_label when_empty s =
     (case detect_anchor_prefix_in_content s of
        Some line_num \<Rightarrow> map_option Inl (anchor_content_error op_label s line_num)
      | None \<Rightarrow> Some (Inr (if s = [] then when_empty else lines s)))"

definition end_of_lines :: "rstr list \<Rightarrow> nat" where
  "end_of_lines ls = (if 1 < length ls \<and> last ls = [] then length ls - 1 else length ls)"

text \<open>The exclusive end of the range that starts at \<open>start\<close>.\<close>

definition resolve_end :: "rstr option \<Rightarrow> nat \<Rightarrow> rstr list \<Rightarrow> anchor_scheme \<Rightarrow> (hashline_edit_error + nat) option" where
  "resolve_end end_anchor start ls sc =
     (case end_anchor of
        None \<Rightarrow> Some (Inr (start + 1))
      | Some ea \<Rightarrow>
          (case validate_anchor ea ls sc of
             None \<Rightarrow> None
           | Some (Inl e) \<Rightarrow> Some (Inl e)
           | Some (Inr e) \<Rightarrow>
               Some (if e < start then
                       Inl (plain_error InvalidInputKind
                         (lit ''end_anchor line '' @ show_nat (e + 1) @ lit '' is before start anchor line '' @
                          show_nat (start + 1) @ lit ''.'') (Some ea))
                     else Inr (e + 1))))"

fun resolve_op :: "hashline_op \<Rightarrow> nat \<Rightarrow> rstr list \<Rightarrow> anchor_scheme \<Rightarrow> (hashline_edit_error + resolved_op) option" where
  "resolve_op (Replace anchor end_anchor s) idx ls sc =
     (case validate_anchor anchor ls sc of
        None \<Rightarrow> None
      | Some (Inl e) \<Rightarrow> Some (Inl e)
      | Some (Inr start) \<Rightarrow>
          (case resolve_end end_anchor start ls sc of
             None \<Rightarrow> None
           | Some (Inl e) \<Rightarrow> Some (Inl e)
           | Some (Inr stop) \<Rightarrow>
               map_option (map_sum id (\<lambda>new. \<lparr>ro_idx = idx, ro_start = start, ro_stop = stop, ro_new = new\<rparr>))
                 (content_lines (lit ''replace'') [] s)))"
| "resolve_op (InsertAfter anchor s) idx ls sc =
     (case (if anchor = lit ''0:'' then Some (Inr 0)
            else if anchor = lit ''EOF'' then Some (Inr (end_of_lines ls))
            else map_option (map_sum id Suc) (validate_anchor anchor ls sc)) of
        None \<Rightarrow> None
      | Some (Inl e) \<Rightarrow> Some (Inl e)
      | Some (Inr insert_at) \<Rightarrow>
          map_option (map_sum id (\<lambda>new. \<lparr>ro_idx = idx, ro_start = insert_at, ro_stop = insert_at, ro_new = new\<rparr>))
            (content_lines (lit ''insert_after'') [[]] s))"
| "resolve_op (WriteFile s) idx ls sc =
     Some (Inl (plain_error InvalidInputKind
       (lit ''Write op must be the only operation in a batch. Either use write alone (to replace the entire file) '' @
        lit ''or use replace/insert_after ops without write.'') None))"

section \<open>Overlaps\<close>

definition range_desc :: "nat \<Rightarrow> nat \<Rightarrow> nat \<Rightarrow> rstr" where
  "range_desc start stop idx =
     (if start = stop then
        lit ''edit #'' @ show_nat (idx + 1) @ lit '' (insertion at line '' @ show_nat (start + 1) @ lit '')''
      else lit ''edit #'' @ show_nat (idx + 1) @ lit '' (lines '' @ show_nat (start + 1) @ lit ''-'' @
           show_nat stop @ lit '')'')"

definition overlap_error :: "nat \<times> nat \<times> nat \<Rightarrow> nat \<times> nat \<times> nat \<Rightarrow> hashline_edit_error" where
  "overlap_error a b =
     (case (a, b) of
        ((a_start, a_end, a_idx), (b_start, b_end, b_idx)) \<Rightarrow>
          plain_error OverlappingEdits
            (lit ''Overlapping edits: '' @ range_desc a_start a_end a_idx @ lit '' and '' @
             range_desc b_start b_end b_idx @ lit ''.'') None)"

fun window_overlap :: "(nat \<times> nat \<times> nat) list \<Rightarrow> hashline_edit_error option" where
  "window_overlap (a # b # rs) =
     (if fst b < fst (snd a) then Some (overlap_error a b) else window_overlap (b # rs))"
| "window_overlap _ = None"

fun insertion_overlap :: "(nat \<times> nat \<times> nat) list \<Rightarrow> resolved_op list \<Rightarrow> hashline_edit_error option" where
  "insertion_overlap ranges [] = None"
| "insertion_overlap ranges (op # ops) =
     (if ro_start op \<noteq> ro_stop op then insertion_overlap ranges ops
      else (case find (\<lambda>(rs, re, r_idx). rs \<le> ro_start op \<and> ro_start op < re) ranges of
              Some r \<Rightarrow> Some (overlap_error r (ro_start op, ro_start op, ro_idx op))
            | None \<Rightarrow> insertion_overlap ranges ops))"

definition op_ranges :: "resolved_op list \<Rightarrow> (nat \<times> nat \<times> nat) list" where
  "op_ranges ops =
     sort_key fst (map (\<lambda>op. (ro_start op, ro_stop op, ro_idx op)) (filter (\<lambda>op. ro_start op \<noteq> ro_stop op) ops))"

definition check_overlaps :: "resolved_op list \<Rightarrow> hashline_edit_error option" where
  "check_overlaps ops =
     (case window_overlap (op_ranges ops) of
        Some e \<Rightarrow> Some e
      | None \<Rightarrow> insertion_overlap (op_ranges ops) ops)"

section \<open>The text shown after an edit\<close>

definition SNIPPET_CONTEXT :: nat where
  "SNIPPET_CONTEXT = 3"

definition MAX_CONTIGUOUS_SNIPPET :: nat where
  "MAX_CONTIGUOUS_SNIPPET = 80"

text \<open>The windows around the regions, in the order of the regions; the last one comes first.\<close>

fun merge_regions :: "nat \<Rightarrow> (nat \<times> nat) list \<Rightarrow> (nat \<times> nat) list \<Rightarrow> (nat \<times> nat) list" where
  "merge_regions total_n merged [] = rev merged"
| "merge_regions total_n merged ((start, stop) # rs) =
     (let ctx_start = start - SNIPPET_CONTEXT;
          ctx_end = min (stop + SNIPPET_CONTEXT) total_n
      in case merged of
           (ls, le) # others \<Rightarrow>
             (if ctx_start \<le> le then merge_regions total_n ((ls, max le ctx_end) # others) rs
              else merge_regions total_n ((ctx_start, ctx_end) # merged) rs)
         | [] \<Rightarrow> merge_regions total_n [(ctx_start, ctx_end)] rs)"

definition not_shown :: "nat \<Rightarrow> rstr" where
  "not_shown n = lit ''... '' @ show_nat n @ lit '' lines not shown ...''"

fun snippet_parts :: "rstr \<Rightarrow> anchor_scheme \<Rightarrow> nat \<Rightarrow> bool \<Rightarrow> nat \<Rightarrow> (nat \<times> nat) list \<Rightarrow> rstr list option" where
  "snippet_parts s sc total_n first prev_end [] =
     Some (if prev_end < total_n then [not_shown (total_n - prev_end)] else [])"
| "snippet_parts s sc total_n first prev_end ((start, stop) # rs) = do {
     let gap = (if \<not> first then [not_shown (start - prev_end)]
                else if 0 < start then [not_shown start] else []);
     n \<leftarrow> checked_sub stop start;
     (region, raw) \<leftarrow> format_hashline_content s (Some (start + 1)) (Some n) sc;
     others \<leftarrow> snippet_parts s sc total_n False stop rs;
     Some (gap @ [region] @ others)
   }"

definition build_snippet :: "rstr \<Rightarrow> (nat \<times> nat) list \<Rightarrow> nat \<Rightarrow> anchor_scheme \<Rightarrow> rstr option" where
  "build_snippet s regions total_n sc =
     (if regions = [] then Some []
      else do {
        let global_start = fst (hd regions) - SNIPPET_CONTEXT;
        let global_end = min (snd (last regions) + SNIPPET_CONTEXT) total_n;
        n \<leftarrow> checked_sub global_end global_start;
        if n \<le> MAX_CONTIGUOUS_SNIPPET then
          map_option fst (format_hashline_content s (Some (global_start + 1)) (Some n) sc)
        else map_option (join [10]) (snippet_parts s sc total_n True 0 (merge_regions total_n [] regions))
      })"

section \<open>Applying a batch\<close>

definition build_write_result :: "rstr \<Rightarrow> rstr \<Rightarrow> anchor_scheme \<Rightarrow> hashline_edit_output option" where
  "build_write_result s path sc = do {
     let total_n = length (anchor_lines s);
     (snippet, raw) \<leftarrow> format_hashline_content s (Some 1) (Some (min (SNIPPET_CONTEXT * 2) total_n)) sc;
     Some (HashlineApplied \<lparr>ha_applied = 1, ha_scheme = sc_name sc, ha_snippet_start = 1, ha_snippet = snippet,
                            ha_path = path, ha_warnings = []\<rparr>)
   }"

fun resolve_all :: "nat \<Rightarrow> hashline_op list \<Rightarrow> rstr list \<Rightarrow> anchor_scheme
    \<Rightarrow> ((nat \<times> hashline_op \<times> hashline_edit_error) + resolved_op list) option" where
  "resolve_all idx [] ls sc = Some (Inr [])"
| "resolve_all idx (op # ops) ls sc =
     (case resolve_op op idx ls sc of
        None \<Rightarrow> None
      | Some (Inl e) \<Rightarrow> Some (Inl (idx, op, e))
      | Some (Inr r) \<Rightarrow> map_option (map_sum id ((#) r)) (resolve_all (idx + 1) ops ls sc))"

fun op_label :: "hashline_op \<Rightarrow> rstr" where
  "op_label (Replace a e s) = lit ''replace''"
| "op_label (InsertAfter a s) = lit ''insert_after''"
| "op_label (WriteFile s) = lit ''write''"

definition batch_error :: "nat \<Rightarrow> nat \<Rightarrow> hashline_op \<Rightarrow> hashline_edit_error \<Rightarrow> hashline_edit_error" where
  "batch_error total_n idx op e =
     (if 1 < total_n then
        e\<lparr>he_message := lit ''Edit '' @ show_nat (idx + 1) @ lit ''/'' @ show_nat total_n @ lit '' ('' @ op_label op @
          lit ''): '' @ he_message e @ [10, 10] @ lit ''This batch contained '' @ show_nat total_n @
          lit '' edits. Because this anchor failed validation, none of the edits were applied. Retry all '' @
          show_nat total_n @ lit '' edits with fresh anchors, not just the failed one.''\<rparr>
      else e)"

definition batch_overlap_error :: "nat \<Rightarrow> hashline_edit_error \<Rightarrow> hashline_edit_error" where
  "batch_overlap_error total_n e =
     (if 1 < total_n then
        e\<lparr>he_message := he_message e @ [10, 10] @ lit ''This batch contained '' @ show_nat total_n @
          lit '' edits. Because of the overlap, none were applied. Fix the overlapping ranges and retry all edits.''\<rparr>
      else e)"

definition error_result :: "hashline_edit_error \<Rightarrow> apply_result" where
  "error_result e = \<lparr>ar_output = HashlineError e, ar_new_content = None, ar_details = []\<rparr>"

text \<open>
  The order of the splices: by start, and for one start by the index in the request, both from the
  largest down.
\<close>

definition bottom_up :: "resolved_op list \<Rightarrow> resolved_op list" where
  "bottom_up ops = rev (sort_key ro_start (sort_key ro_idx ops))"

text \<open>From the top down: the region of every edit in the new file and its detail.\<close>

fun edit_regions :: "rstr list \<Rightarrow> int \<Rightarrow> resolved_op list \<Rightarrow> ((nat \<times> nat) \<times> edit_region_detail) list option" where
  "edit_regions ls shift [] = Some []"
| "edit_regions ls shift (op # ops) = do {
     shifted_start \<leftarrow> to_usize (int (ro_start op) + shift);
     replaced \<leftarrow> checked_sub (ro_stop op) (ro_start op);
     let inserted = length (ro_new op);
     old_text \<leftarrow> (if ro_start op < ro_stop op
                 then map_option (join [10]) (slice_opt ls (ro_start op) (ro_stop op)) else Some []);
     others \<leftarrow> edit_regions ls (shift + (int inserted - int replaced)) ops;
     Some (((shifted_start, shifted_start + inserted),
            \<lparr>ed_old_line = ro_start op + 1, ed_old_text = old_text, ed_new_line = shifted_start + 1,
             ed_new_text = join [10] (ro_new op)\<rparr>) # others)
   }"

definition vec_splice :: "resolved_op \<Rightarrow> rstr list \<Rightarrow> rstr list option" where
  "vec_splice op ls =
     (if ro_start op \<le> ro_stop op \<and> ro_stop op \<le> length ls
      then Some (take (ro_start op) ls @ ro_new op @ drop (ro_stop op) ls) else None)"

fun splice_all :: "resolved_op list \<Rightarrow> rstr list \<Rightarrow> rstr list option" where
  "splice_all [] ls = Some ls"
| "splice_all (op # ops) ls = Option.bind (vec_splice op ls) (splice_all ops)"

definition apply_resolved :: "rstr list \<Rightarrow> nat \<Rightarrow> resolved_op list \<Rightarrow> rstr \<Rightarrow> anchor_scheme \<Rightarrow> apply_result option" where
  "apply_resolved ls total_ops resolved path sc = do {
     let warnings = List.map_filter (\<lambda>op. range_warning (ro_start op) (ro_stop op)) resolved;
     let ops = bottom_up resolved;
     regions \<leftarrow> edit_regions ls 0 (rev ops);
     result_lines \<leftarrow> splice_all ops ls;
     let new_content = join [10] result_lines;
     let total_n = length (anchor_lines new_content);
     let sorted_regions = sort_key fst (map fst regions);
     snippet \<leftarrow> build_snippet new_content sorted_regions total_n sc;
     let start = (case sorted_regions of r # _ \<Rightarrow> fst r - SNIPPET_CONTEXT + 1 | [] \<Rightarrow> 1);
     Some \<lparr>ar_output = HashlineApplied \<lparr>ha_applied = total_ops, ha_scheme = sc_name sc, ha_snippet_start = start,
                                        ha_snippet = snippet, ha_path = path, ha_warnings = warnings\<rparr>,
           ar_new_content = Some new_content, ar_details = map snd regions\<rparr>
   }"

definition apply_edits :: "rstr \<Rightarrow> hashline_op list \<Rightarrow> rstr \<Rightarrow> anchor_scheme \<Rightarrow> apply_result option" where
  "apply_edits s ops path sc =
     (let ls = anchor_lines s
      in case ops of
           [WriteFile new_content] \<Rightarrow>
             (case detect_anchor_prefix_in_content new_content of
                Some line_num \<Rightarrow> map_option error_result (anchor_content_error (lit ''write'') new_content line_num)
              | None \<Rightarrow>
                  map_option (\<lambda>out. \<lparr>ar_output = out, ar_new_content = Some new_content, ar_details = []\<rparr>)
                    (build_write_result new_content path sc))
         | _ \<Rightarrow>
             (case resolve_all 0 ops ls sc of
                None \<Rightarrow> None
              | Some (Inl (idx, op, e)) \<Rightarrow> Some (error_result (batch_error (length ops) idx op e))
              | Some (Inr resolved) \<Rightarrow>
                  (case check_overlaps resolved of
                     Some e \<Rightarrow> Some (error_result (batch_overlap_error (length ops) e))
                   | None \<Rightarrow> apply_resolved ls (length ops) resolved path sc)))"

end
