(* ===== verification/HashlineEditProps.thy ===== *)
theory HashlineEditProps
  imports AnchorSchemeProps HashlineEdit PatchApply
begin

text \<open>
  Correctness of edits by anchors. A batch that is accepted is the simultaneous edit of the lines it
  names, whatever the order of its operations; the regions it reports are where the new text is; no
  input makes it panic; a line shown with its anchor is the line an edit with that anchor hits, and
  an edit never hits a line with another fingerprint.
\<close>

section \<open>Lines of a text\<close>

lemma split_on_snoc_sep: "split_on c (s @ [c]) = split_on c s @ [[]]"
proof (induction s)
  case (Cons x s)
  then show ?case by (cases "split_on c s") auto
qed simp

lemma last_split_on: "x \<noteq> c \<Longrightarrow> last (split_on c (s @ [x])) \<noteq> []"
proof (induction s)
  case (Cons y s)
  then show ?case by (cases "split_on c (s @ [x])") auto
qed simp

lemma ends_with_newline_iff: "s \<noteq> [] \<Longrightarrow> ends_with s [10] \<longleftrightarrow> last (split_on 10 s) = []"
  by (cases s rule: rev_cases) (auto simp: ends_with_def starts_with_def split_on_snoc_sep dest: last_split_on)

lemma anchor_lines_eq:
  "anchor_lines s = map strip_cr (butlast (split_on 10 s)) @ [last (split_on 10 s)]"
  by (cases "s = []") (auto simp: anchor_lines_def lines_def Let_def ends_with_newline_iff)

lemma length_anchor_lines: "length (anchor_lines s) = length (split_on 10 s)"
  by (simp add: anchor_lines_eq)

lemma anchor_lines_ne [simp]: "anchor_lines s \<noteq> []"
  by (simp add: anchor_lines_eq)

lemma strip_cr_set: "set (strip_cr l) \<subseteq> set l"
  by (auto simp: strip_cr_def dest: in_set_butlastD)

lemma no_newline_lines:
  "l \<in> set (anchor_lines s) \<Longrightarrow> 10 \<notin> set l" "l \<in> set (lines s) \<Longrightarrow> 10 \<notin> set l"
  using strip_cr_set split_on_no_sep [of _ 10 s]
  by (fastforce simp: anchor_lines_eq lines_def Let_def dest: in_set_butlastD split: if_splits)+

lemma total_lines_join:
  assumes "\<And>l. l \<in> set ls \<Longrightarrow> 10 \<notin> set l"
  shows "length (anchor_lines (join [10] ls)) = max 1 (length ls)"
proof (cases "ls = []")
  case False
  then have "split_on 10 (join [10] ls) = ls" using assms by (intro split_on_join) auto
  with False show ?thesis by (simp add: length_anchor_lines) (cases ls; simp)
qed (simp add: anchor_lines_def)

section \<open>Ranges that do not overlap\<close>

definition as_replacement :: "resolved_op \<Rightarrow> replacement" where
  "as_replacement op = (ro_start op, ro_stop op - ro_start op, ro_new op)"

definition op_wf :: "nat \<Rightarrow> resolved_op \<Rightarrow> bool" where
  "op_wf len op \<longleftrightarrow> ro_start op \<le> ro_stop op \<and> ro_stop op \<le> len"

definition top_down :: "resolved_op list \<Rightarrow> resolved_op list" where
  "top_down ops = sort_key ro_start (sort_key ro_idx ops)"

abbreviation precedes :: "resolved_op \<Rightarrow> resolved_op \<Rightarrow> bool" where
  "precedes a b \<equiv> ro_stop a \<le> ro_start b"

lemma window_overlap_None:
  "window_overlap rs = None \<Longrightarrow> \<forall>r \<in> set rs. fst r < fst (snd r) \<Longrightarrow> sorted_wrt (\<lambda>a b. fst (snd a) \<le> fst b) rs"
proof (induction rs rule: window_overlap.induct)
  case (1 a b rs)
  then have *: "fst (snd a) \<le> fst b" "sorted_wrt (\<lambda>a b. fst (snd a) \<le> fst b) (b # rs)"
    by (auto split: if_splits)
  have "fst (snd a) \<le> fst r" if "r \<in> set rs" for r
    using * 1(3) that by fastforce
  with * show ?case by simp
qed auto

lemma insertion_overlap_None:
  "insertion_overlap ranges ops = None \<Longrightarrow> op \<in> set ops \<Longrightarrow> ro_start op = ro_stop op \<Longrightarrow> (rs, re, i) \<in> set ranges \<Longrightarrow>
   \<not> (rs \<le> ro_start op \<and> ro_start op < re)"
  by (induction ops) (auto split: if_splits option.splits simp: find_None_iff)

lemma filter_sort_map:
  "sort_key fst (map (\<lambda>op. (ro_start op, g op)) (filter P ops))
   = map (\<lambda>op. (ro_start op, g op)) (filter P (sort_key ro_start ops))"
proof -
  have "map (\<lambda>op. (ro_start op, g op)) (insort_key ro_start x xs)
        = insort_key fst (ro_start x, g x) (map (\<lambda>op. (ro_start op, g op)) xs)" for x xs
    by (induction xs) auto
  then have "sort_key fst (map (\<lambda>op. (ro_start op, g op)) xs) = map (\<lambda>op. (ro_start op, g op)) (sort_key ro_start xs)" for xs
    by (induction xs) simp_all
  then show ?thesis by (simp add: filter_sort)
qed

lemma no_overlap_sorted:
  assumes "check_overlaps ops = None" "\<forall>op \<in> set ops. ro_start op \<le> ro_stop op"
  shows "sorted_wrt precedes (sort_key ro_start ops)"
proof -
  let ?T = "sort_key ro_start ops"
  let ?g = "\<lambda>op. (ro_start op, ro_stop op, ro_idx op)" and ?P = "\<lambda>op. ro_start op \<noteq> ro_stop op"
  have ranges: "op_ranges ops = map ?g (filter ?P ?T)"
    by (simp add: op_ranges_def filter_sort_map)
  have "window_overlap (op_ranges ops) = None" and ins: "insertion_overlap (op_ranges ops) ops = None"
    using assms(1) by (auto simp: check_overlaps_def split: option.splits)
  then have "sorted_wrt (\<lambda>a b. fst (snd a) \<le> fst b) (map ?g (filter ?P ?T))"
    using window_overlap_None [of "op_ranges ops"] assms(2) unfolding ranges by (auto simp: le_neq_implies_less)
  then have repl: "sorted_wrt precedes (filter ?P ?T)" by (simp add: sorted_wrt_map)
  have ok: "precedes a b" if "a \<in> set ops" "b \<in> set ops" "ro_start a \<le> ro_start b" "\<not> ?P a \<or> \<not> ?P b" for a b
  proof (cases "?P a")
    case True
    then have "?g a \<in> set (op_ranges ops)" using that(1) by (auto simp: ranges)
    then have "\<not> (ro_start a \<le> ro_start b \<and> ro_start b < ro_stop a)"
      using insertion_overlap_None [OF ins that(2)] that(4) True by auto
    with that(3) show ?thesis by linarith
  qed (use that(3) in simp)
  have "sorted_wrt precedes (filter ?P xs) \<Longrightarrow> sorted (map ro_start xs) \<Longrightarrow> set xs \<subseteq> set ops \<Longrightarrow>
        sorted_wrt precedes xs" for xs
  proof (induction xs)
    case (Cons a xs)
    have "precedes a b" if b: "b \<in> set xs" for b
    proof (cases "?P a \<and> ?P b")
      case True
      then show ?thesis using Cons.prems(1) b by auto
    next
      case False
      then show ?thesis using Cons.prems(2,3) b by (intro ok) auto
    qed
    with Cons show ?case by (auto split: if_splits)
  qed simp
  from this [OF repl] show ?thesis by simp
qed

lemma chained_op [simp]:
  "chained p (as_replacement op # rs) len
   \<longleftrightarrow> p \<le> ro_start op \<and> chained (ro_start op + (ro_stop op - ro_start op)) rs len"
  by (simp add: as_replacement_def)

lemma splice_op [simp]:
  "splice p (as_replacement op # rs) ls
   = take (ro_start op - p) (drop p ls) @ ro_new op @ splice (ro_start op + (ro_stop op - ro_start op)) rs ls"
  by (simp add: as_replacement_def)

lemma chained_precedes:
  "sorted_wrt precedes ops \<Longrightarrow> \<forall>op \<in> set ops. op_wf len op \<and> p \<le> ro_start op \<Longrightarrow> p \<le> len \<Longrightarrow>
   chained p (map as_replacement ops) len"
proof (induction ops arbitrary: p)
  case (Cons op ops)
  then have "chained (ro_stop op) (map as_replacement ops) len" by (intro Cons.IH) (auto simp: op_wf_def)
  with Cons.prems(2) show ?case by (simp add: op_wf_def)
qed simp

section \<open>Splices from the bottom up\<close>

lemma splice_all_append: "splice_all (xs @ ys) ls = Option.bind (splice_all xs ls) (splice_all ys)"
  by (induction xs arbitrary: ls) (auto simp: bind_assoc split: Option.bind_splits)

lemma splice_all_chained:
  "chained p (map as_replacement ops) (length ls) \<Longrightarrow> \<forall>op \<in> set ops. ro_start op \<le> ro_stop op \<Longrightarrow>
   splice_all (rev ops) ls = Some (take p ls @ splice p (map as_replacement ops) ls)"
proof (induction ops arbitrary: p)
  case (Cons op ops)
  let ?s = "ro_start op" and ?e = "ro_stop op"
  have ch: "p \<le> ?s" "chained ?e (map as_replacement ops) (length ls)"
    using Cons.prems by simp_all
  then have le: "?e \<le> length ls" using chained_bounds by blast
  have "take p ls @ take (?s - p) (drop p ls) = take ?s ls"
    using ch(1) take_add [of p "?s - p" ls] by simp
  then have "take p ls @ splice p (map as_replacement (op # ops)) ls
             = take ?s ls @ ro_new op @ splice ?e (map as_replacement ops) ls"
    using Cons.prems(2) by (simp flip: append_assoc)
  then show ?case using Cons ch le by (simp add: splice_all_append vec_splice_def)
qed simp

section \<open>The simultaneous edit\<close>

text \<open>
  What a batch asks for, without an order of its operations: where an operation starts, its new
  lines; a line of the file unless it is in a range that is replaced.
\<close>

definition starting_at :: "resolved_op list \<Rightarrow> nat \<Rightarrow> rstr list" where
  "starting_at ops i = concat (map ro_new (filter (\<lambda>op. ro_start op = i) ops))"

definition covered :: "resolved_op list \<Rightarrow> nat \<Rightarrow> bool" where
  "covered ops i = list_ex (\<lambda>op. ro_start op \<le> i \<and> i < ro_stop op) ops"

definition edited_line :: "rstr list \<Rightarrow> resolved_op list \<Rightarrow> nat \<Rightarrow> rstr list" where
  "edited_line ls ops i = starting_at ops i @ (if covered ops i then [] else [ls ! i])"

definition edited_from :: "rstr list \<Rightarrow> resolved_op list \<Rightarrow> nat \<Rightarrow> rstr list" where
  "edited_from ls ops p =
     concat (map (edited_line ls ops) [p..<length ls]) @ starting_at ops (length ls)"

definition edited :: "rstr list \<Rightarrow> resolved_op list \<Rightarrow> rstr list" where
  "edited ls ops = edited_from ls ops 0"

lemma starting_at_simps [simp]:
  "starting_at [] i = []"
  "starting_at (op # ops) i = (if ro_start op = i then ro_new op else []) @ starting_at ops i"
  by (simp_all add: starting_at_def)

lemma covered_simps [simp]:
  "covered [] i \<longleftrightarrow> False"
  "covered (op # ops) i \<longleftrightarrow> ro_start op \<le> i \<and> i < ro_stop op \<or> covered ops i"
  by (simp_all add: covered_def)

lemma before_starts: "\<forall>op \<in> set ops. i < ro_start op \<Longrightarrow> starting_at ops i = [] \<and> \<not> covered ops i"
  by (induction ops) auto

lemma edited_from_split:
  "p \<le> q \<Longrightarrow> q \<le> length ls \<Longrightarrow>
   edited_from ls ops p = concat (map (edited_line ls ops) [p..<q]) @ edited_from ls ops q"
  using upt_add_eq_append [of p q "length ls - q"] by (simp add: edited_from_def)

lemma edited_from_untouched:
  assumes "p \<le> q" "q \<le> length ls" "\<forall>op \<in> set ops. q \<le> ro_start op"
  shows "edited_from ls ops p = take (q - p) (drop p ls) @ edited_from ls ops q"
proof -
  have "edited_line ls ops i = [ls ! i]" if "i < q" for i
    using before_starts [of ops i] assms(3) that by (fastforce simp: edited_line_def)
  then have "concat (map (edited_line ls ops) [p..<q]) = concat (map (\<lambda>i. [ls ! i]) [p..<q])"
    by (intro arg_cong [where f = concat] map_cong) simp_all
  also have "\<dots> = map ((!) ls) [p..<q]" by (rule concat_map_singleton)
  also have "\<dots> = take (q - p) (drop p ls)"
    using assms(1,2) by (intro nth_equalityI) auto
  finally show ?thesis using assms by (simp add: edited_from_split [of p q])
qed

lemma edited_from_op:
  assumes "ro_start op \<le> ro_stop op" "ro_stop op \<le> length ls" "\<forall>b \<in> set ops. ro_stop op \<le> ro_start b"
  shows "edited_from ls (op # ops) (ro_start op) = ro_new op @ edited_from ls ops (ro_stop op)"
proof -
  let ?s = "ro_start op" and ?e = "ro_stop op"
  have later: "edited_from ls (op # ops) q = edited_from ls ops q" if "?s < q" "?e \<le> q" "q \<le> length ls" for q
    using that by (auto simp: edited_from_def edited_line_def intro!: arg_cong [where f = concat])
  show ?thesis
  proof (cases "?s = length ls")
    case True
    then show ?thesis using assms by (simp add: edited_from_def)
  next
    case False
    then have lt: "?s < length ls" using assms by simp
    have step: "edited_from ls ops' ?s = edited_line ls ops' ?s @ edited_from ls ops' (Suc ?s)" for ops'
      using lt by (simp add: edited_from_def upt_conv_Cons)
    show ?thesis
    proof (cases "?s = ?e")
      case True
      then show ?thesis using step [of ops] step [of "op # ops"] later [of "Suc ?s"] lt
        by (simp add: edited_line_def)
    next
      case False
      have "edited_line ls (op # ops) i = (if i = ?s then ro_new op else [])" if "?s \<le> i" "i < ?e" for i
        using before_starts [of ops i] assms(3) that by (fastforce simp: edited_line_def)
      moreover from this have "concat (map (edited_line ls (op # ops)) [Suc ?s..<?e]) = []" by simp
      ultimately show ?thesis
        using step [of "op # ops"] edited_from_split [of "Suc ?s" ?e ls "op # ops"] later [of ?e] False assms
        by simp
    qed
  qed
qed

lemma splice_edited:
  "sorted_wrt precedes ops \<Longrightarrow> \<forall>op \<in> set ops. op_wf (length ls) op \<and> p \<le> ro_start op \<Longrightarrow> p \<le> length ls \<Longrightarrow>
   splice p (map as_replacement ops) ls = edited_from ls ops p"
proof (induction ops arbitrary: p)
  case Nil
  then show ?case using edited_from_untouched [of p "length ls" ls "[]"] by (simp add: edited_from_def)
next
  case (Cons op ops)
  let ?s = "ro_start op" and ?e = "ro_stop op"
  have wf: "p \<le> ?s" "?s \<le> ?e" "?e \<le> length ls" using Cons.prems by (auto simp: op_wf_def)
  have "splice ?e (map as_replacement ops) ls = edited_from ls ops ?e"
    using Cons.prems wf by (intro Cons.IH) auto
  moreover have "edited_from ls (op # ops) ?s = ro_new op @ edited_from ls ops ?e"
    using Cons.prems wf by (intro edited_from_op) auto
  moreover have "edited_from ls (op # ops) p = take (?s - p) (drop p ls) @ edited_from ls (op # ops) ?s"
    using Cons.prems wf by (intro edited_from_untouched) fastforce+
  ultimately show ?case using wf by simp
qed

lemma edited_sort: "edited_from ls (sort_key ro_start ops) p = edited_from ls ops p"
proof -
  have "starting_at (sort_key ro_start ops) = starting_at ops"
    using sort_key_stable [of ro_start _ ops] by (fastforce simp: starting_at_def fun_eq_iff)
  moreover have "covered (sort_key ro_start ops) = covered ops"
    by (auto simp: covered_def list_ex_iff fun_eq_iff)
  ultimately have "edited_line ls (sort_key ro_start ops) = edited_line ls ops"
    by (simp add: edited_line_def fun_eq_iff)
  then show ?thesis using \<open>starting_at _ = _\<close> by (simp add: edited_from_def)
qed

section \<open>The regions that are reported\<close>

text \<open>The new text is where the region says, and the detail has the lines it replaced.\<close>

fun region_ok :: "rstr list \<Rightarrow> rstr list \<Rightarrow> resolved_op \<Rightarrow> (nat \<times> nat) \<times> edit_region_detail \<Rightarrow> bool" where
  "region_ok ls new op ((a, b), d) \<longleftrightarrow>
     slice_opt new a b = Some (ro_new op) \<and>
     d = \<lparr>ed_old_line = ro_start op + 1,
          ed_old_text = join [10] (take (ro_stop op - ro_start op) (drop (ro_start op) ls)),
          ed_new_line = a + 1, ed_new_text = join [10] (ro_new op)\<rparr>"

lemma slice_opt_middle: "slice_opt (xs @ ys @ zs) (length xs) (length xs + length ys) = Some ys"
  by (simp add: slice_opt_def)

lemma edit_regions_ok:
  "chained p (map as_replacement ops) (length ls) \<Longrightarrow> \<forall>op \<in> set ops. ro_start op \<le> ro_stop op \<Longrightarrow>
   int (length pre) = int p + shift \<Longrightarrow>
   \<exists>regs. edit_regions ls shift ops = Some regs \<and>
     list_all2 (region_ok ls (pre @ splice p (map as_replacement ops) ls)) ops regs"
proof (induction ops arbitrary: p pre shift)
  case (Cons op ops)
  let ?s = "ro_start op" and ?e = "ro_stop op" and ?new = "ro_new op"
  let ?mid = "take (?s - p) (drop p ls)"
  let ?pre = "(pre @ ?mid) @ ?new" and ?shift = "shift + (int (length ?new) - int (?e - ?s))"
  let ?rest = "splice ?e (map as_replacement ops) ls"
  have ch: "p \<le> ?s" "?s \<le> ?e" "chained ?e (map as_replacement ops) (length ls)"
    using Cons.prems by simp_all
  then have le: "?e \<le> length ls" using chained_bounds by blast
  have start: "int ?s + shift = int (length (pre @ ?mid))" using Cons.prems(3) ch le by simp
  have "int (length ?pre) = int ?e + ?shift" using start ch by simp
  then obtain regs where regs: "edit_regions ls ?shift ops = Some regs"
      "list_all2 (region_ok ls (?pre @ ?rest)) ops regs"
    using Cons.IH [OF ch(3)] Cons.prems(2) by fastforce
  have new: "pre @ splice p (map as_replacement (op # ops)) ls = ?pre @ ?rest" using ch by simp
  have old: "(if ?s < ?e then map_option (join [10]) (slice_opt ls ?s ?e) else Some [])
             = Some (join [10] (take (?e - ?s) (drop ?s ls)))"
    using le ch by (simp add: slice_opt_def)
  have reg: "edit_regions ls shift (op # ops)
             = Some (((length (pre @ ?mid), length (pre @ ?mid) + length ?new),
                     \<lparr>ed_old_line = ?s + 1, ed_old_text = join [10] (take (?e - ?s) (drop ?s ls)),
                      ed_new_line = length (pre @ ?mid) + 1, ed_new_text = join [10] ?new\<rparr>) # regs)"
    using regs(1) ch(2)
    by (simp only: edit_regions.simps start old) (simp add: to_usize_def checked_sub_def)
  show ?case unfolding reg new using regs(2) slice_opt_middle [of "pre @ ?mid" ?new ?rest]
    by simp
qed simp

section \<open>No input panics\<close>

lemma those_map_Some: "(\<And>x. x \<in> set xs \<Longrightarrow> f x \<noteq> None) \<Longrightarrow> those (map f xs) \<noteq> None"
  by (induction xs) (auto split: option.splits)

lemma content_lines_total: "content_lines label when_empty s \<noteq> None"
  by (auto simp: content_lines_def anchor_content_error_def detect_anchor_prefix_in_content_def
      checked_sub_def Let_def split: option.splits)

lemma content_lines_Inr:
  "content_lines label when_empty s = Some (Inr new) \<Longrightarrow> new = (if s = [] then when_empty else lines s)"
  by (auto simp: content_lines_def split: option.splits)

lemma merge_regions_ok:
  "\<forall>(a, b) \<in> set rs. a \<le> b \<and> b \<le> n \<Longrightarrow> \<forall>(a, b) \<in> set merged. a \<le> b \<Longrightarrow>
   (a, b) \<in> set (merge_regions n merged rs) \<Longrightarrow> a \<le> b"
proof (induction rs arbitrary: merged)
  case (Cons r rs)
  obtain start stop where r: "r = (start, stop)" by fastforce
  let ?a = "start - SNIPPET_CONTEXT" and ?b = "min (stop + SNIPPET_CONTEXT) n"
  have ab: "?a \<le> ?b" using Cons.prems(1) by (auto simp: r)
  show ?case
  proof (cases merged)
    case Nil
    then show ?thesis using Cons.prems ab by (intro Cons.IH [of "[(?a, ?b)]"]) (simp_all add: r Let_def)
  next
    case (Cons m ms)
    then obtain c d where m: "m = (c, d)" by fastforce
    show ?thesis
    proof (cases "?a \<le> d")
      case True
      then show ?thesis using Cons.prems ab Cons
        by (intro Cons.IH [of "(c, max d ?b) # ms"]) (auto simp: r m Let_def)
    next
      case False
      then show ?thesis using Cons.prems ab Cons
        by (intro Cons.IH [of "(?a, ?b) # merged"]) (auto simp: r m Let_def)
    qed
  qed
qed auto

text \<open>A resolved operation: its place in the request, a range in the file, new lines that are lines.\<close>

definition resolved_ok :: "nat \<Rightarrow> nat \<Rightarrow> resolved_op \<Rightarrow> bool" where
  "resolved_ok len idx r \<longleftrightarrow> ro_idx r = idx \<and> op_wf len r \<and> (\<forall>l \<in> set (ro_new r). 10 \<notin> set l)"

context anchor_laws
begin

lemma format_hashline_total: "format_hashline_content s offset limit sc \<noteq> None"
proof -
  let ?ls = "anchor_lines s"
  have "those (map (\<lambda>i. map_option (\<lambda>a. g i a) (nth_opt (sc_generate sc ?ls) i)) idxs) \<noteq> None"
    if "set idxs \<subseteq> {..<length ?ls}" for idxs and g :: "nat \<Rightarrow> line_anchor \<Rightarrow> rstr"
    using that by (intro those_map_Some) (auto simp: nth_opt_def)
  moreover have "set (drop n [0..<length ?ls]) \<subseteq> {..<length ?ls}"
    "set (take m (drop n [0..<length ?ls])) \<subseteq> {..<length ?ls}" for n m
    using set_drop_subset [of n "[0..<length ?ls]"] set_take_subset [of m "drop n [0..<length ?ls]"] by auto
  ultimately show ?thesis by (simp add: format_hashline_content_def Let_def split: option.split)
qed

lemma shift_report_total: "shift_report a (sc_generate sc ls) (sc_find_shifted sc a ls r) \<noteq> None"
proof (cases "sc_find_shifted sc a ls r")
  case (ShiftFound k)
  then have "0 < k" "k - 1 < length ls" using find_shifted_FoundD by blast+
  then show ?thesis unfolding ShiftFound by (simp add: shift_report_def checked_sub_def nth_opt_def)
qed (simp_all add: shift_report_def)

lemma stale_error_total: "stale_error anc a ls sc \<noteq> None"
proof -
  have "those (map (\<lambda>i. map_option (\<lambda>b. render_anchored_line b (ls ! i)) (nth_opt (sc_generate sc ls) i))
          [m..<min k (length ls)]) \<noteq> None" for m k
    by (rule those_map_Some) (simp add: nth_opt_def)
  then show ?thesis using shift_report_total [of a ls DEFAULT_SEARCH_RADIUS]
    by (auto simp: stale_error_def Let_def bind_eq_None_conv nth_opt_def)
qed

lemma recover_iff:
  "recover_anchor_by_suffix suf ls sc = Some a \<longleftrightarrow>
   (\<exists>i < length ls. a = sc_generate sc ls ! i \<and> {j. j < length ls \<and> suffix_matches suf (sc_generate sc ls ! j)} = {i})"
  (is "_ \<longleftrightarrow> (\<exists>i < _. _ \<and> ?S = _)")
proof -
  let ?g = "sc_generate sc ls"
  let ?is = "filter (\<lambda>j. suffix_matches suf (?g ! j)) [0..<length ls]"
  have fil: "filter (suffix_matches suf) ?g = map ((!) ?g) ?is"
    using filter_map [of "suffix_matches suf" "(!) ?g" "[0..<length ls]"] map_nth [of ?g] by (simp add: comp_def)
  have "recover_anchor_by_suffix suf ls sc = Some a \<longleftrightarrow> map ((!) ?g) ?is = [a]"
    by (auto simp: recover_anchor_by_suffix_def fil split: list.splits)
  also have "\<dots> \<longleftrightarrow> (\<exists>i. ?is = [i] \<and> a = ?g ! i)" by auto
  also have "\<dots> \<longleftrightarrow> (\<exists>i. ?S = {i} \<and> a = ?g ! i)" using set_single [of ?is] by (simp flip: set_single)
  also have "\<dots> \<longleftrightarrow> (\<exists>i < length ls. a = ?g ! i \<and> ?S = {i})" by blast
  finally show ?thesis .
qed

lemma recover_line: "recover_anchor_by_suffix suf ls sc = Some a \<Longrightarrow> \<exists>i < length ls. a = sc_generate sc ls ! i"
  unfolding recover_iff by blast

lemma parse_anchor_pos: "parse_anchor text = Some a \<Longrightarrow> 0 < an_line a"
  by (auto simp: parse_anchor_def split: list.splits if_splits option.splits)

text \<open>An anchor is accepted only for a line with its fingerprint.\<close>

lemma validate_anchor_cases:
  obtains (refused) e where "validate_anchor anc ls sc = Some (Inl e)"
  | (accepted) a where "validate_anchor anc ls sc = Some (Inr (an_line a - 1))" "0 < an_line a"
      "an_line a - 1 < length ls" "sc_validate sc a ls = Valid"
      "(case parse_anchor (strip_arrow anc) of Some p \<Rightarrow> Some p
        | None \<Rightarrow> recover_anchor_by_suffix (strip_arrow anc) ls sc) = Some a"
proof (cases "case parse_anchor (strip_arrow anc) of Some p \<Rightarrow> Some p
        | None \<Rightarrow> recover_anchor_by_suffix (strip_arrow anc) ls sc")
  case None
  then show thesis using refused by (cases "anchor_format_hint sc") (simp add: validate_anchor_def Let_def)
next
  case (Some a)
  have pos: "0 < an_line a"
  proof (cases "parse_anchor (strip_arrow anc)")
    case None
    then obtain i where "i < length ls" "a = sc_generate sc ls ! i"
      using Some recover_line [of "strip_arrow anc" ls a] by auto
    then show ?thesis using generate_line by simp
  qed (use Some parse_anchor_pos in auto)
  show thesis
  proof (cases "sc_validate sc a ls")
    case Valid
    then have "an_line a - 1 < length ls"
      using validate_range [of a ls] pos by (simp add: anchor_index_def split: if_splits)
    then show thesis using Valid Some pos accepted by (simp add: validate_anchor_def checked_sub_def)
  next
    case Stale
    then show thesis using Some refused stale_error_total [of "strip_arrow anc" a ls] by (auto simp: validate_anchor_def)
  next
    case OutOfRange
    then show thesis using Some refused by (simp add: validate_anchor_def)
  qed
qed

lemma resolve_end_cases:
  assumes "start < length ls"
  obtains (refused) e where "resolve_end ea start ls sc = Some (Inl e)"
  | (ending) stop where "resolve_end ea start ls sc = Some (Inr stop)" "start < stop" "stop \<le> length ls"
proof (cases ea)
  case None
  then show thesis using assms ending [of "start + 1"] by (simp add: resolve_end_def)
next
  case (Some anc)
  show thesis
  proof (cases rule: validate_anchor_cases [of anc ls])
    case (accepted a)
    then show thesis
      using Some refused ending [of "an_line a"] by (cases "an_line a - 1 < start") (auto simp: resolve_end_def)
  qed (use Some refused in \<open>simp add: resolve_end_def\<close>)
qed

lemma content_lines_cases:
  obtains (refused) e where "content_lines label when_empty s = Some (Inl e)"
  | (content) new where "content_lines label when_empty s = Some (Inr new)"
      "new = (if s = [] then when_empty else lines s)"
proof (cases "content_lines label when_empty s")
  case None
  then show thesis using content_lines_total by blast
next
  case (Some r)
  then show thesis using refused content content_lines_Inr by (cases r) auto
qed

lemma resolve_op_cases:
  obtains (refused) e where "resolve_op op idx ls sc = Some (Inl e)"
  | (resolved) r where "resolve_op op idx ls sc = Some (Inr r)" "resolved_ok (length ls) idx r"
proof (cases op)
  case (Replace anc ea s)
  show thesis
  proof (cases rule: validate_anchor_cases [of anc ls])
    case (accepted a)
    note a = this
    from a(3) show thesis
    proof (cases rule: resolve_end_cases [where ea = ea])
      case (ending stop)
      then show thesis
      proof (cases rule: content_lines_cases [of "lit ''replace''" "[]" s])
        case (content new)
        then show thesis using Replace a ending no_newline_lines(2)
          by (intro resolved [of "\<lparr>ro_idx = idx, ro_start = an_line a - 1, ro_stop = stop, ro_new = new\<rparr>"])
             (auto simp: resolved_ok_def op_wf_def)
      qed (use Replace a refused in simp)
    qed (use Replace a refused in simp)
  qed (use Replace refused in simp)
next
  case (InsertAfter anc s)
  let ?at = "if anc = lit ''0:'' then Some (Inr 0) else if anc = lit ''EOF'' then Some (Inr (end_of_lines ls))
             else map_option (map_sum id Suc) (validate_anchor anc ls sc)"
  have "(\<exists>e. ?at = Some (Inl e)) \<or> (\<exists>k. ?at = Some (Inr k) \<and> k \<le> length ls)"
    by (cases rule: validate_anchor_cases [of anc ls]) (auto simp: end_of_lines_def)
  then show thesis
  proof (elim disjE exE conjE)
    fix k assume k: "?at = Some (Inr k)" "k \<le> length ls"
    show thesis
    proof (cases rule: content_lines_cases [of "lit ''insert_after''" "[[]]" s])
      case (content new)
      then show thesis using InsertAfter k no_newline_lines(2)
        by (intro resolved [of "\<lparr>ro_idx = idx, ro_start = k, ro_stop = k, ro_new = new\<rparr>"])
           (auto simp: resolved_ok_def op_wf_def simp del: option.case_eq_if)
    qed (use InsertAfter k refused in simp)
  qed (use InsertAfter refused in simp)
qed (use refused in simp)

lemma resolve_all_cases:
  obtains (refused) r where "resolve_all idx ops ls sc = Some (Inl r)"
  | (resolved) rs where "resolve_all idx ops ls sc = Some (Inr rs)"
      "list_all2 (resolved_ok (length ls)) [idx..<idx + length ops] rs"
proof (induction ops arbitrary: idx thesis)
  case (Cons op ops)
  show thesis
  proof (cases rule: resolve_op_cases [of op idx ls])
    case (resolved r)
    show thesis
    proof (cases rule: Cons.IH [of "Suc idx"])
      case (2 rs)
      then show thesis using resolved by (intro Cons.prems(2) [of "r # rs"]) (simp_all add: upt_conv_Cons del: upt_Suc)
    qed (use resolved Cons.prems in simp)
  qed (use Cons.prems in simp)
qed simp

lemma snippet_parts_total: "\<forall>(a, b) \<in> set rs. a \<le> b \<Longrightarrow> snippet_parts s sc n first prev rs \<noteq> None"
proof (induction rs arbitrary: first prev)
  case (Cons r rs)
  obtain a b where r: "r = (a, b)" by fastforce
  obtain others where "snippet_parts s sc n False b rs = Some others" using Cons by fastforce
  then show ?case using format_hashline_total [of s "Some (a + 1)" "Some (b - a)"] Cons.prems
    by (auto simp: r checked_sub_def)
qed simp

lemma build_snippet_total:
  assumes "\<forall>(a, b) \<in> set rs. a \<le> b \<and> b \<le> n" "sorted (map fst rs)"
  shows "build_snippet s rs n sc \<noteq> None"
proof (cases "rs = []")
  case False
  then have "fst (hd rs) \<le> fst (last rs)" using assms(2) by (cases rs) auto
  moreover have "fst (last rs) \<le> snd (last rs)" "snd (last rs) \<le> n"
    using assms(1) last_in_set [OF False] by fastforce+
  ultimately have "fst (hd rs) - SNIPPET_CONTEXT \<le> min (snd (last rs) + SNIPPET_CONTEXT) n" by linarith
  moreover have "snippet_parts s sc n True 0 (merge_regions n [] rs) \<noteq> None"
    using merge_regions_ok [OF assms(1), of "[]"] by (intro snippet_parts_total) auto
  ultimately show ?thesis using format_hashline_total
    by (simp add: build_snippet_def checked_sub_def Let_def)
qed (simp add: build_snippet_def)

end

section \<open>A batch\<close>

lemma resolved_facts:
  assumes "list_all2 (resolved_ok len) [0..<n] rs"
  shows "sort_key ro_idx rs = rs" "\<forall>op \<in> set rs. op_wf len op \<and> (\<forall>l \<in> set (ro_new op). 10 \<notin> set l)"
proof -
  have "map ro_idx rs = [0..<n]"
    using assms by (intro nth_equalityI) (auto simp: list_all2_conv_all_nth resolved_ok_def)
  then show "sort_key ro_idx rs = rs" by (simp add: sort_key_id_if_sorted)
  show "\<forall>op \<in> set rs. op_wf len op \<and> (\<forall>l \<in> set (ro_new op). 10 \<notin> set l)"
    using assms by (auto simp: list_all2_conv_all_nth resolved_ok_def all_set_conv_all_nth)
qed

lemma bottom_up_splice:
  assumes "list_all2 (resolved_ok (length ls)) [0..<n] rs" "check_overlaps rs = None"
  shows "splice_all (bottom_up rs) ls = Some (edited ls rs)"
    "\<exists>regs. edit_regions ls 0 (rev (bottom_up rs)) = Some regs \<and>
       list_all2 (region_ok ls (edited ls rs)) (sort_key ro_start rs) regs"
proof -
  let ?T = "sort_key ro_start rs"
  note facts = resolved_facts [OF assms(1)]
  have b: "bottom_up rs = rev ?T" by (simp add: bottom_up_def facts(1))
  have sorted: "sorted_wrt precedes ?T" using no_overlap_sorted [OF assms(2)] facts(2) by (auto simp: op_wf_def)
  have wf: "\<forall>op \<in> set ?T. op_wf (length ls) op \<and> 0 \<le> ro_start op" "\<forall>op \<in> set ?T. ro_start op \<le> ro_stop op"
    using facts(2) by (auto simp: op_wf_def)
  have ch: "chained 0 (map as_replacement ?T) (length ls)" using chained_precedes [OF sorted wf(1)] by simp
  have ed: "splice 0 (map as_replacement ?T) ls = edited ls rs"
    using splice_edited [OF sorted wf(1)] by (simp add: edited_def edited_sort)
  show "splice_all (bottom_up rs) ls = Some (edited ls rs)"
    using splice_all_chained [OF ch wf(2)] by (simp add: b ed)
  show "\<exists>regs. edit_regions ls 0 (rev (bottom_up rs)) = Some regs \<and> list_all2 (region_ok ls (edited ls rs)) ?T regs"
    using edit_regions_ok [OF ch wf(2), of "[]" 0] by (simp add: b ed)
qed

lemma edited_no_newline:
  assumes "\<forall>op \<in> set ops. \<forall>l \<in> set (ro_new op). 10 \<notin> set l" "l \<in> set (edited (anchor_lines s) ops)"
  shows "10 \<notin> set l"
proof -
  have "10 \<notin> set m" if "m \<in> set (starting_at ops i)" for m i
    using that assms(1) by (auto simp: starting_at_def)
  then show ?thesis using assms(2) no_newline_lines(1) [of _ s]
    by (auto simp: edited_def edited_from_def edited_line_def split: if_splits)
qed

lemma region_bounds:
  assumes "list_all2 (region_ok ls new) ops regs" "length new \<le> n"
  shows "\<forall>(a, b) \<in> set (map fst regs). a \<le> b \<and> b \<le> n"
  using assms(1)
proof (induction rule: list_all2_induct)
  case (Cons op ops r rs)
  then show ?case using assms(2) by (cases r) (auto simp: slice_opt_def split: if_splits)
qed simp

context anchor_laws
begin

lemma apply_resolved_edited:
  assumes "list_all2 (resolved_ok (length (anchor_lines s))) [0..<n] rs" "check_overlaps rs = None"
  obtains res regs applied where "apply_resolved (anchor_lines s) m rs path sc = Some res"
    "ar_output res = HashlineApplied applied" "ha_applied applied = m"
    "ar_new_content res = Some (join [10] (edited (anchor_lines s) rs))" "ar_details res = map snd regs"
    "list_all2 (region_ok (anchor_lines s) (edited (anchor_lines s) rs)) (sort_key ro_start rs) regs"
proof -
  let ?ls = "anchor_lines s"
  let ?new = "edited ?ls rs"
  obtain regs where regs: "edit_regions ?ls 0 (rev (bottom_up rs)) = Some regs"
      "list_all2 (region_ok ?ls ?new) (sort_key ro_start rs) regs"
    using bottom_up_splice(2) [OF assms] by blast
  have "\<forall>l \<in> set ?new. 10 \<notin> set l"
    using edited_no_newline [of rs _ s] resolved_facts(2) [OF assms(1)] by blast
  then have "length (anchor_lines (join [10] ?new)) = max 1 (length ?new)" by (intro total_lines_join) blast
  then have "build_snippet (join [10] ?new) (sort_key fst (map fst regs))
               (length (anchor_lines (join [10] ?new))) sc \<noteq> None"
    using region_bounds [OF regs(2)] by (intro build_snippet_total) auto
  then show thesis using that regs bottom_up_splice(1) [OF assms]
    by (auto simp: apply_resolved_def Let_def)
qed

end

end
