(* ===== verification/HashlineProps.thy ===== *)
theory HashlineProps
  imports HashlineEditProps
begin

text \<open>
  What edits by anchors guarantee, for every scheme that the configuration can build: no panic and
  all or nothing; a batch is the simultaneous edit; a line that was shown can be edited by its
  anchor; an anchor of another text is refused; the anchor suggested for a line that moved works.
\<close>

section \<open>Anchors as they are shown\<close>

lemma find_sub_char:
  "c \<notin> set s \<Longrightarrow> find_sub [c] (s @ c # t) = Some (length s)"
  by (induction s) (auto simp: starts_with_def)

lemma find_sub_missing: "x \<in> set p \<Longrightarrow> x \<notin> set s \<Longrightarrow> find_sub p s = None"
proof (induction s)
  case (Cons y s)
  have "\<not> starts_with (y # s) p"
    using Cons.prems by (metis in_set_takeD starts_with_def)
  with Cons show ?case by simp
qed auto

lemma render_chars:
  assumes "anchor_ok a" "c \<in> set (anchor_render a)"
  shows "48 \<le> c" "c \<le> 122"
proof -
  have "97 \<le> c \<and> c \<le> 122" if "lowercase t" "c \<in> set t" for t
    using that by (auto simp: lowercase_def list_all_iff)
  then show "48 \<le> c" "c \<le> 122"
    using assms show_nat_digits [of "an_line a"]
    by (fastforce simp: anchor_render_def anchor_ok_def split: option.splits)+
qed

lemma anchor_render_suffix: "anchor_render a = show_nat (an_line a) @ [58] @ anchor_suffix a"
  by (simp add: anchor_render_def anchor_suffix_def split: option.split)

lemma render_anchored_line_eq: "render_anchored_line a l = anchor_render a @ ARROW # l"
  by (simp add: render_anchored_line_def anchor_render_suffix)

lemma strip_arrow_render: "anchor_ok a \<Longrightarrow> strip_arrow (anchor_render a) = anchor_render a"
  using find_sub_missing [of ARROW "[ARROW]" "anchor_render a"] find_sub_missing [of 45 ASCII_ARROW "anchor_render a"]
    render_chars [of a ARROW] render_chars [of a 45]
  by (fastforce simp: strip_arrow_def split_once_def ASCII_ARROW_def ARROW_def str_simps)

lemma strip_arrow_line: "anchor_ok a \<Longrightarrow> strip_arrow (render_anchored_line a l) = anchor_render a"
  using find_sub_char [of ARROW "anchor_render a" l] render_chars [of a ARROW]
  by (fastforce simp: strip_arrow_def split_once_def render_anchored_line_eq ARROW_def)

lemma those_map_total: "those (map (\<lambda>x. Some (f x)) xs) = Some (map f xs)"
  by (induction xs) auto

definition shown_lines :: "nat option \<Rightarrow> nat option \<Rightarrow> nat \<Rightarrow> nat list" where
  "shown_lines offset limit n =
     (let idxs = drop ((case offset of Some k \<Rightarrow> k | None \<Rightarrow> 1) - 1) [0..<n]
      in case limit of Some k \<Rightarrow> take k idxs | None \<Rightarrow> idxs)"

lemma shown_lines_bound: "i \<in> set (shown_lines offset limit n) \<Longrightarrow> i < n"
  by (auto simp: shown_lines_def Let_def dest!: in_set_takeD in_set_dropD split: option.splits)

context anchor_laws
begin

lemma format_shown:
  fixes s :: rstr
  defines "ls \<equiv> anchor_lines s"
  shows "format_hashline_content s offset limit sc =
     Some (join [10] (map (\<lambda>i. render_anchored_line (sc_generate sc ls ! i) (ls ! i)) (shown_lines offset limit (length ls))),
           join [10] (map ((!) ls) (shown_lines offset limit (length ls))))"
proof -
  let ?idxs = "shown_lines offset limit (length ls)"
  have "(case limit of None \<Rightarrow> drop ((case offset of None \<Rightarrow> 1 | Some k \<Rightarrow> k) - 1) [0..<length ls]
         | Some n \<Rightarrow> take n (drop ((case offset of None \<Rightarrow> 1 | Some k \<Rightarrow> k) - 1) [0..<length ls])) = ?idxs"
    by (simp add: shown_lines_def split: option.split)
  moreover have "map (\<lambda>i. map_option (\<lambda>a. show_nat (i + 1) @ [58] @ anchor_suffix a @ [ARROW] @ ls ! i)
               (nth_opt (sc_generate sc ls) i)) ?idxs
        = map (\<lambda>i. Some (render_anchored_line (sc_generate sc ls ! i) (ls ! i))) ?idxs"
    by (auto dest!: shown_lines_bound simp: nth_opt_def render_anchored_line_def generate_line)
  ultimately show ?thesis
    by (simp only: format_hashline_content_def Let_def ls_def [symmetric] those_map_total option.map)
qed

lemma validate_shown:
  assumes "i < length ls" "length ls < 2 ^ 64" "anc = anchor_render (sc_generate sc ls ! i)
     \<or> anc = render_anchored_line (sc_generate sc ls ! i) l"
  shows "validate_anchor anc ls sc = Some (Inr i)"
proof -
  have "strip_arrow anc = anchor_render (sc_generate sc ls ! i)"
    using assms generate_ok strip_arrow_render strip_arrow_line by blast
  then show ?thesis
    using assms(1,2) by (simp add: validate_anchor_def generate_parse generate_valid generate_line checked_sub_def)
qed

end

section \<open>One edit\<close>

lemma edited_single:
  "op_wf (length ls) op \<Longrightarrow> edited ls [op] = take (ro_start op) ls @ ro_new op @ drop (ro_stop op) ls"
  using splice_edited [of "[op]" ls 0] by (simp add: edited_def op_wf_def)

text \<open>Everything but the single write of a whole file.\<close>

definition batch_result :: "rstr \<Rightarrow> hashline_op list \<Rightarrow> rstr \<Rightarrow> anchor_scheme \<Rightarrow> apply_result option" where
  "batch_result s ops path sc =
     (case resolve_all 0 ops (anchor_lines s) sc of
        None \<Rightarrow> None
      | Some (Inl (idx, op, e)) \<Rightarrow> Some (error_result (batch_error (length ops) idx op e))
      | Some (Inr resolved) \<Rightarrow>
          (case check_overlaps resolved of
             Some e \<Rightarrow> Some (error_result (batch_overlap_error (length ops) e))
           | None \<Rightarrow> apply_resolved (anchor_lines s) (length ops) resolved path sc))"

lemma apply_edits_batch: "(\<And>c. ops \<noteq> [WriteFile c]) \<Longrightarrow> apply_edits s ops path sc = batch_result s ops path sc"
  by (auto simp: apply_edits_def batch_result_def Let_def simp del: resolve_all.simps
      split: list.split hashline_op.split)

lemma single_overlaps: "check_overlaps [op] = None"
  by (auto simp: check_overlaps_def op_ranges_def)

context anchor_laws
begin

lemma apply_batch:
  assumes "resolve_all 0 ops (anchor_lines s) sc = Some (Inr rs)" "check_overlaps rs = None"
  obtains res regs applied where "apply_edits s ops path sc = Some res"
    "ar_output res = HashlineApplied applied" "ha_applied applied = length ops"
    "ar_new_content res = Some (join [10] (edited (anchor_lines s) rs))" "ar_details res = map snd regs"
    "list_all2 (region_ok (anchor_lines s) (edited (anchor_lines s) rs)) (sort_key ro_start rs) regs"
proof -
  have "list_all2 (resolved_ok (length (anchor_lines s))) [0..<0 + length ops] rs"
    by (rule resolve_all_cases [of 0 ops "anchor_lines s"]) (use assms(1) in simp_all)
  moreover have "ops \<noteq> [WriteFile c]" for c using assms(1) by auto
  then have "apply_edits s ops path sc = apply_resolved (anchor_lines s) (length ops) rs path sc"
    using assms by (simp add: apply_edits_batch batch_result_def)
  ultimately show thesis
    using apply_resolved_edited [OF _ assms(2), of s "0 + length ops" "length ops" path] that by auto
qed

lemma apply_total:
  obtains (applied) res a c where "apply_edits s ops path sc = Some res"
    "ar_output res = HashlineApplied a" "ha_applied a = length ops" "ar_new_content res = Some c"
  | (refused) e where "apply_edits s ops path sc = Some (error_result e)"
proof (cases "\<exists>c. ops = [WriteFile c]")
  case True
  then obtain c where ops: "ops = [WriteFile c]" by blast
  show thesis
  proof (cases "detect_anchor_prefix_in_content c")
    case None
    obtain r where "build_write_result c path sc = Some (HashlineApplied r)" "ha_applied r = 1"
      using format_hashline_total [of c "Some 1" "Some (min (SNIPPET_CONTEXT * 2) (length (anchor_lines c)))"]
      by (auto simp: build_write_result_def Let_def)
    then show thesis using None applied by (simp add: apply_edits_def ops)
  next
    case (Some n)
    obtain e where "anchor_content_error (lit ''write'') c n = Some e"
      using content_lines_total [of "lit ''write''" "[]" c] Some by (auto simp: content_lines_def)
    then show thesis using Some refused by (simp add: apply_edits_def ops)
  qed
next
  case False
  then have eq: "apply_edits s ops path sc = batch_result s ops path sc"
    by (intro apply_edits_batch) blast
  show thesis
  proof (cases rule: resolve_all_cases [of 0 ops "anchor_lines s"])
    case (refused r)
    then show thesis using that(2) by (cases r) (simp add: eq batch_result_def)
  next
    case (resolved rs)
    show thesis
    proof (cases "check_overlaps rs")
      case None
      then show thesis using apply_batch [OF resolved(1) None, of path] applied by metis
    qed (use resolved refused eq in \<open>simp add: batch_result_def\<close>)
  qed
qed

lemma validate_parsed_iff:
  assumes "parse_anchor (strip_arrow anc) = Some a"
  shows "validate_anchor anc ls sc = Some (Inr i) \<longleftrightarrow> i < length ls \<and> an_line a = Suc i \<and>
    an_local a = local_hash (sc_hash_len sc) (ls ! i) \<and> an_context (sc_generate sc ls ! i) \<in> {None, an_context a}"
proof -
  have pos: "0 < an_line a" using parse_anchor_pos [OF assms] .
  then have idx: "anchor_index a = an_line a - 1" by (simp add: anchor_index_def)
  have "validate_anchor anc ls sc = Some (Inr i) \<longleftrightarrow> sc_validate sc a ls = Valid \<and> an_line a = Suc i"
    using pos by (auto simp: validate_anchor_def Let_def assms checked_sub_def split: validation_result.splits)
  moreover have "sc_validate sc a ls = Valid \<Longrightarrow> anchor_index a < length ls"
    using validate_range [of a ls] by (simp add: not_le [symmetric] del: not_le)
  ultimately show ?thesis using validate_iff [of a ls] by (auto simp: idx)
qed

lemma validate_recovered_iff:
  assumes "parse_anchor (strip_arrow anc) = None"
  shows "validate_anchor anc ls sc = Some (Inr i) \<longleftrightarrow>
    {j. j < length ls \<and> suffix_matches (strip_arrow anc) (sc_generate sc ls ! j)} = {i}" (is "_ \<longleftrightarrow> ?S = _")
proof (cases "recover_anchor_by_suffix (strip_arrow anc) ls sc")
  case None
  then have "\<forall>i. ?S \<noteq> {i}" using recover_iff [of "strip_arrow anc" ls] by (metis (mono_tags, lifting) mem_Collect_eq option.distinct(1) singletonI)
  moreover have "validate_anchor anc ls sc \<noteq> Some (Inr i)"
    by (cases "anchor_format_hint sc") (simp add: validate_anchor_def Let_def assms None)
  ultimately show ?thesis by blast
next
  case (Some a)
  then obtain k where k: "k < length ls" "a = sc_generate sc ls ! k" "?S = {k}" unfolding recover_iff by blast
  then show ?thesis
    by (simp add: validate_anchor_def assms Some generate_valid generate_line checked_sub_def)
qed

text \<open>A line of the text that was shown, pasted as an anchor.\<close>

lemma shown_line:
  fixes s :: rstr
  defines "ls \<equiv> anchor_lines s"
  assumes "length ls < 2 ^ 64" "format_hashline_content s offset limit sc = Some (shown, raw)" "shown \<noteq> []"
    "l \<in> set (split_on 10 shown)"
  shows "\<exists>i < length ls. l = render_anchored_line (sc_generate sc ls ! i) (ls ! i)"
proof -
  let ?idxs = "shown_lines offset limit (length ls)"
  let ?f = "\<lambda>i. render_anchored_line (sc_generate sc ls ! i) (ls ! i)"
  have shown: "shown = join [10] (map ?f ?idxs)" using assms(3) format_shown [of s offset limit] by (simp add: ls_def)
  have "10 \<notin> set (?f i)" if "i \<in> set ?idxs" for i
  proof -
    have "i < length ls" using that by (rule shown_lines_bound)
    then have "10 \<notin> set (ls ! i)" "anchor_ok (sc_generate sc ls ! i)"
      using no_newline_lines(1) [of "ls ! i" s] generate_ok assms(2) by (simp_all add: ls_def)
    then show ?thesis using render_chars(1) [of _ 10] by (auto simp: render_anchored_line_eq ARROW_def)
  qed
  moreover have "?idxs \<noteq> []" using assms(4) shown by auto
  ultimately have "split_on 10 shown = map ?f ?idxs" unfolding shown by (intro split_on_join) auto
  then obtain i where "i \<in> set ?idxs" "l = ?f i" using assms(5) by auto
  then show ?thesis using shown_lines_bound by blast
qed

lemma replace_line:
  assumes "i < length (anchor_lines s)" "validate_anchor anc (anchor_lines s) sc = Some (Inr i)"
    "detect_anchor_prefix_in_content c = None"
  shows "\<exists>res. apply_edits s [Replace anc None c] path sc = Some res \<and>
    ar_new_content res = Some (join [10] (take i (anchor_lines s) @ (if c = [] then [] else lines c) @
                                          drop (Suc i) (anchor_lines s)))"
proof -
  let ?op = "\<lparr>ro_idx = 0, ro_start = i, ro_stop = Suc i, ro_new = if c = [] then [] else lines c\<rparr>"
  have "resolve_all 0 [Replace anc None c] (anchor_lines s) sc = Some (Inr [?op])"
    using assms(2,3) by (simp add: resolve_end_def content_lines_def)
  moreover have "edited (anchor_lines s) [?op]
      = take i (anchor_lines s) @ (if c = [] then [] else lines c) @ drop (Suc i) (anchor_lines s)"
    using assms(1) by (subst edited_single) (simp_all add: op_wf_def)
  ultimately show ?thesis using apply_batch [OF _ single_overlaps, of _ s _ path] by metis
qed

lemma stale_error_report:
  "stale_error anc a ls sc = Some e \<Longrightarrow>
   \<exists>amb kind msg. shift_report a (sc_generate sc ls) (sc_find_shifted sc a ls DEFAULT_SEARCH_RADIUS)
     = Some (he_shifted_to e, he_shifted_anchor e, amb, kind, msg)"
  by (auto simp: stale_error_def Let_def bind_eq_Some_conv)

lemma stale_error_shift:
  assumes "stale_error anc a ls sc = Some e" "he_shifted_anchor e = Some fresh"
  shows "\<exists>k. sc_find_shifted sc a ls DEFAULT_SEARCH_RADIUS = ShiftFound k \<and> he_shifted_to e = Some k \<and>
    Some fresh = map_option (\<lambda>b. show_nat k @ [58] @ anchor_suffix b) (nth_opt (sc_generate sc ls) (k - 1))"
  using stale_error_report [OF assms(1)] assms(2)
  by (auto simp: shift_report_def checked_sub_def bind_eq_Some_conv split: shift_result.splits if_splits)

lemma stale_error_found:
  assumes "stale_error anc a ls sc = Some e" "sc_find_shifted sc a ls DEFAULT_SEARCH_RADIUS = ShiftFound k"
  shows "he_shifted_anchor e = Some (anchor_render (sc_generate sc ls ! (k - 1)))"
  using stale_error_report [OF assms(1)] find_shifted_FoundD [OF assms(2)]
  by (auto simp: assms(2) shift_report_def checked_sub_def nth_opt_def anchor_render_suffix generate_line)

lemma stale_suggestion:
  assumes "length ls < 2 ^ 64" "validate_anchor anc ls sc = Some (Inl e)" "he_shifted_anchor e = Some fresh"
  shows "\<exists>a k. parse_anchor (strip_arrow anc) = Some a \<and> he_shifted_to e = Some k \<and> k \<noteq> an_line a \<and>
    validate_anchor fresh ls sc = Some (Inr (k - 1)) \<and> local_hash (sc_hash_len sc) (ls ! (k - 1)) = an_local a"
proof -
  have he: "he_shifted_anchor (plain_error kind msg req) = None" for kind msg req
    by (simp add: plain_error_def)
  have parsed: "parse_anchor (strip_arrow anc) \<noteq> None"
  proof
    assume none: "parse_anchor (strip_arrow anc) = None"
    then have "recover_anchor_by_suffix (strip_arrow anc) ls sc = None"
      using assms(2) recover_iff [of "strip_arrow anc" ls] validate_recovered_iff [OF none, of ls]
      by (cases "recover_anchor_by_suffix (strip_arrow anc) ls sc") auto
    then have "\<exists>msg. e = plain_error InvalidInputKind msg (Some (strip_arrow anc))"
      using assms(2) none by (cases "anchor_format_hint sc") (auto simp: validate_anchor_def Let_def)
    then show False using assms(3) he by auto
  qed
  then obtain a where a: "parse_anchor (strip_arrow anc) = Some a" by blast
  then have "stale_error (strip_arrow anc) a ls sc = Some e"
    using assms(2,3) he by (auto simp: validate_anchor_def Let_def split: validation_result.splits)
  then obtain k where k: "sc_find_shifted sc a ls DEFAULT_SEARCH_RADIUS = ShiftFound k" "he_shifted_to e = Some k"
      "Some fresh = map_option (\<lambda>b. show_nat k @ [58] @ anchor_suffix b) (nth_opt (sc_generate sc ls) (k - 1))"
    using stale_error_shift assms(3) by blast
  note found = find_shifted_FoundD [OF k(1)]
  have "fresh = anchor_render (sc_generate sc ls ! (k - 1))"
    using k(3) found(1,2) by (simp add: nth_opt_def anchor_render_suffix generate_line)
  then have "validate_anchor fresh ls sc = Some (Inr (k - 1))"
    using found(2) assms(1) by (intro validate_shown) simp_all
  moreover have "k \<noteq> an_line a" "local_hash (sc_hash_len sc) (ls ! (k - 1)) = an_local a"
    using found(3) by (auto simp: shift_candidate_def)
  ultimately show ?thesis using a k(2) by blast
qed

end

section \<open>Examples\<close>

definition sample_params :: scheme_params where
  "sample_params = \<lparr>sp_scheme = lit ''content_only'', sp_hash_len = 2, sp_chunk_size = 8\<rparr>"

definition sample_text :: rstr where
  "sample_text = lit ''a'' @ [10] @ lit ''b'' @ [10] @ lit ''c''"

lemma sample_scheme: "build_scheme sample_params = Some (Inr (content_only 2))"
  by (simp add: build_scheme_def sample_params_def validate_params_def content_only_with_hash_len_def str_simps)

lemma sample_laws: "anchor_laws (content_only 2)"
  by (rule content_only_laws) simp

lemma sample_lines: "anchor_lines sample_text = [lit ''a'', lit ''b'', lit ''c'']"
  by code_simp

lemma sample_fnv:
  "line_hash (lit ''a'') = 3826002220" "line_hash (lit ''b'') = 3876335077" "line_hash (lit ''c'') = 3859557458"
proof -
  have "as_bytes (trim (lit ''a'')) = [97]" "as_bytes (trim (lit ''b'')) = [98]" "as_bytes (trim (lit ''c'')) = [99]"
    by (simp_all add: str_simps trim_def trim_start_def trim_end_def is_whitespace_def encode_rune_def)
  then show "line_hash (lit ''a'') = 3826002220" "line_hash (lit ''b'') = 3876335077" "line_hash (lit ''c'') = 3859557458"
    by (simp_all add: line_hash_def is_ascii_whitespace_def fnv_mix_def FNV_OFFSET_def FNV_PRIME_def)
qed

lemma sample_hashes:
  "local_hash 2 (lit ''a'') = lit ''ob''" "local_hash 2 (lit ''b'') = lit ''rb''" "local_hash 2 (lit ''c'') = lit ''qk''"
  "lit ''ob'' \<noteq> lit ''rb''" "lit ''qk'' \<noteq> lit ''rb''"
proof -
  have upt: "[0..<2] = [0, 1 :: nat]" by code_simp
  show "local_hash 2 (lit ''a'') = lit ''ob''" "local_hash 2 (lit ''b'') = lit ''rb''" "local_hash 2 (lit ''c'') = lit ''qk''"
    by (simp_all only: local_hash_def sample_fnv) (simp_all add: encode_hash_def upt hash_letter_def str_simps)
qed (simp_all add: str_simps)

lemma sample_generate:
  "sc_generate (content_only 2) (anchor_lines sample_text) =
     [\<lparr>an_line = 1, an_local = lit ''ob'', an_context = None\<rparr>, \<lparr>an_line = 2, an_local = lit ''rb'', an_context = None\<rparr>,
      \<lparr>an_line = 3, an_local = lit ''qk'', an_context = None\<rparr>]"
  by (simp add: content_only_def sample_lines sample_hashes)

lemma sample_render: "render_anchored_line \<lparr>an_line = 1, an_local = lit ''ob'', an_context = None\<rparr> l = lit ''1:ob'' @ ARROW # l"
  "render_anchored_line \<lparr>an_line = 2, an_local = lit ''rb'', an_context = None\<rparr> l = lit ''2:rb'' @ ARROW # l"
  "render_anchored_line \<lparr>an_line = 3, an_local = lit ''qk'', an_context = None\<rparr> l = lit ''3:qk'' @ ARROW # l"
proof -
  have "show_nat 1 = [49]" "show_nat 2 = [50]" "show_nat 3 = [51]" by code_simp+
  then show "render_anchored_line \<lparr>an_line = 1, an_local = lit ''ob'', an_context = None\<rparr> l = lit ''1:ob'' @ ARROW # l"
    "render_anchored_line \<lparr>an_line = 2, an_local = lit ''rb'', an_context = None\<rparr> l = lit ''2:rb'' @ ARROW # l"
    "render_anchored_line \<lparr>an_line = 3, an_local = lit ''qk'', an_context = None\<rparr> l = lit ''3:qk'' @ ARROW # l"
    by (simp_all add: render_anchored_line_def anchor_suffix_def str_simps)
qed

lemma sample_anchor: "anchor_render (sc_generate (content_only 2) (anchor_lines sample_text) ! 1) = lit ''2:rb''"
  using sample_render(2) [of "[]"] by (simp add: sample_generate render_anchored_line_eq)

lemma sample_validate:
  "validate_anchor (lit ''2:rb'') (anchor_lines sample_text) (content_only 2) = Some (Inr 1)"
  by (rule anchor_laws.validate_shown [OF sample_laws, where l = "[]"])
     (simp_all only: sample_anchor, simp_all add: sample_lines)

lemma sample_format:
  "format_hashline_content sample_text None None (content_only 2)
   = Some (lit ''1:ob'' @ ARROW # lit ''a'' @ [10] @ lit ''2:rb'' @ ARROW # lit ''b'' @ [10] @ lit ''3:qk'' @ ARROW # lit ''c'',
      sample_text)"
proof -
  have "shown_lines None None (Suc (Suc (Suc 0))) = [0, Suc 0, Suc (Suc 0)]" by code_simp
  then show ?thesis
    using anchor_laws.format_shown [OF sample_laws, of sample_text None None]
    by (simp add: sample_generate [unfolded sample_lines] sample_lines sample_render [unfolded One_nat_def])
       (simp add: sample_text_def str_simps)
qed

lemma sample_content:
  "detect_anchor_prefix_in_content (lit ''y'') = None" "lines (lit ''y'') = [lit ''y'']" "lit ''y'' \<noteq> []"
  "lit ''2:rb'' \<noteq> lit ''0:''" "lit ''2:rb'' \<noteq> lit ''EOF''"
  by (simp_all add: detect_anchor_prefix_in_content_def str_simps lines_def trim_start_def is_whitespace_def
      strip_cr_def prefix_before_def split_once_def ASCII_ARROW_def ARROW_def starts_with_def)

lemma sample_batch:
  "resolve_all 0 [InsertAfter (lit ''2:rb'') (lit ''y''), Replace (lit ''2:rb'') None (lit ''y'')]
     (anchor_lines sample_text) (content_only 2)
   = Some (Inr [\<lparr>ro_idx = 0, ro_start = 2, ro_stop = 2, ro_new = [lit ''y'']\<rparr>,
                \<lparr>ro_idx = 1, ro_start = 1, ro_stop = 2, ro_new = [lit ''y'']\<rparr>])"
  by (simp add: sample_validate sample_content content_lines_def resolve_end_def)

lemma sample_parse: "parse_anchor (strip_arrow (lit ''1:rb'')) = Some \<lparr>an_line = 1, an_local = lit ''rb'', an_context = None\<rparr>"
proof -
  let ?a = "\<lparr>an_line = 1, an_local = lit ''rb'', an_context = None\<rparr>"
  have "anchor_ok ?a" by (simp add: anchor_ok_def lowercase_def str_simps)
  moreover have "anchor_render ?a = lit ''1:rb''" by code_simp
  ultimately show ?thesis using parse_render [of ?a] strip_arrow_render [of ?a] by simp
qed

lemma sample_shift: "sc_find_shifted (content_only 2) \<lparr>an_line = 1, an_local = lit ''rb'', an_context = None\<rparr> (anchor_lines sample_text) DEFAULT_SEARCH_RADIUS = ShiftFound 2"
proof -
  have "[0..<3] = [0, 1, 2 :: nat]" by code_simp
  then show ?thesis
    by (simp add: content_only_def find_shifted_generic_def shift_candidate_def sample_lines sample_hashes
        DEFAULT_SEARCH_RADIUS_def)
qed

lemma sample_stale:
  "\<exists>e. validate_anchor (lit ''1:rb'') (anchor_lines sample_text) (content_only 2) = Some (Inl e) \<and>
    he_shifted_anchor e = Some (lit ''2:rb'')"
proof -
  let ?a = "\<lparr>an_line = 1, an_local = lit ''rb'', an_context = None\<rparr>" and ?ls = "anchor_lines sample_text"
  have st: "sc_validate (content_only 2) ?a ?ls = Stale"
    using sample_hashes by (simp add: content_only_def content_only_validate_def anchor_index_def sample_lines)
  obtain e where e: "stale_error (strip_arrow (lit ''1:rb'')) ?a ?ls (content_only 2) = Some e"
    using anchor_laws.stale_error_total [OF sample_laws] by fastforce
  then have "he_shifted_anchor e = Some (lit ''2:rb'')"
    using anchor_laws.stale_error_found [OF sample_laws e sample_shift] sample_anchor by simp
  moreover have "validate_anchor (lit ''1:rb'') ?ls (content_only 2) = Some (Inl e)"
    by (simp only: validate_anchor_def sample_parse st Let_def option.case validation_result.case e option.map)
  ultimately show ?thesis by blast
qed

section \<open>Guarantees\<close>

text \<open>Applying a batch never panics, and it is all or nothing: either every operation is applied and there is a new text, or there is an error and none.\<close>

theorem apply_all_or_nothing:
  assumes "build_scheme p = Some (Inr sc)"
  shows "\<exists>res. apply_edits s ops path sc = Some res \<and>
    (case ar_output res of
       HashlineApplied a \<Rightarrow> ha_applied a = length ops \<and> ar_new_content res \<noteq> None
     | HashlineError e \<Rightarrow> ar_new_content res = None \<and> ar_details res = [])"
  by (cases rule: anchor_laws.apply_total [OF build_scheme_laws [OF assms], of s ops path])
     (auto simp: error_result_def)

lemma apply_all_or_nothing_witness:
  "\<exists>res. apply_edits sample_text [Replace (lit ''2:rb'') None []] (lit ''p'') (content_only 2) = Some res \<and>
    (case ar_output res of
       HashlineApplied a \<Rightarrow> ha_applied a = Suc 0 \<and> ar_new_content res \<noteq> None
     | HashlineError e \<Rightarrow> ar_new_content res = None \<and> ar_details res = [])"
  using apply_all_or_nothing [OF sample_scheme, of sample_text "[Replace (lit ''2:rb'') None []]" "lit ''p''"]
  by (simp only: list.size add_0)

text \<open>C12: a batch whose anchors are accepted and whose ranges do not overlap is the simultaneous edit of the lines it names, and the reported details say, for every operation from the top down, which lines it replaced and where its new lines are.\<close>

theorem batch_is_simultaneous:
  assumes "build_scheme p = Some (Inr sc)" "resolve_all 0 ops (anchor_lines s) sc = Some (Inr rs)"
    "check_overlaps rs = None"
  shows "\<exists>res regs. apply_edits s ops path sc = Some res \<and>
    ar_new_content res = Some (join [10] (edited (anchor_lines s) rs)) \<and>
    ar_details res = map snd regs \<and>
    list_all2 (region_ok (anchor_lines s) (edited (anchor_lines s) rs)) (sort_key ro_start rs) regs"
  by (rule anchor_laws.apply_batch [OF build_scheme_laws [OF assms(1)] assms(2,3)]) blast

lemma batch_is_simultaneous_witness:
  "\<exists>res. apply_edits sample_text [InsertAfter (lit ''2:rb'') (lit ''y''), Replace (lit ''2:rb'') None (lit ''y'')]
       (lit ''p'') (content_only 2) = Some res \<and>
     ar_new_content res = Some (join [10] [lit ''a'', lit ''y'', lit ''y'', lit ''c''])"
proof -
  let ?rs = "[\<lparr>ro_idx = 0, ro_start = 2, ro_stop = 2, ro_new = [lit ''y'']\<rparr>,
              \<lparr>ro_idx = 1, ro_start = 1, ro_stop = 2, ro_new = [lit ''y'']\<rparr>]"
  have "check_overlaps ?rs = None" by code_simp
  moreover have "edited (anchor_lines sample_text) ?rs = [lit ''a'', lit ''y'', lit ''y'', lit ''c'']" by code_simp
  ultimately show ?thesis using batch_is_simultaneous [OF sample_scheme sample_batch, of "lit ''p''"] by auto
qed

text \<open>C17: an anchor is accepted for a line exactly when the line is there and has the anchor's fingerprint; a fingerprint without a line number exactly when one line of the file has it.\<close>

theorem anchor_accepted_iff:
  assumes "build_scheme p = Some (Inr sc)"
  shows "validate_anchor anc ls sc = Some (Inr i) \<longleftrightarrow> i < length ls \<and>
    (case parse_anchor (strip_arrow anc) of
       Some a \<Rightarrow> an_line a = Suc i \<and> an_local a = local_hash (sc_hash_len sc) (ls ! i) \<and>
         an_context (sc_generate sc ls ! i) \<in> {None, an_context a}
     | None \<Rightarrow> {j. j < length ls \<and> suffix_matches (strip_arrow anc) (sc_generate sc ls ! j)} = {i})"
proof (cases "parse_anchor (strip_arrow anc)")
  case None
  then show ?thesis using anchor_laws.validate_recovered_iff [OF build_scheme_laws [OF assms] None, of ls i] by auto
next
  case (Some a)
  then show ?thesis using anchor_laws.validate_parsed_iff [OF build_scheme_laws [OF assms] Some, of ls i] by simp
qed

lemma anchor_accepted_iff_witness:
  "validate_anchor (lit ''1:rb'') (anchor_lines sample_text) (content_only 2) \<noteq> Some (Inr 0)"
  using anchor_accepted_iff [OF sample_scheme, of "lit ''1:rb''" "anchor_lines sample_text" 0] sample_hashes
  by (simp add: sample_parse sample_lines content_only_def)

text \<open>C16: every line that a read shows can be pasted, whole or without its text, as the anchor of an edit: the edit then replaces exactly that line of the file.\<close>

theorem shown_line_editable:
  assumes "build_scheme p = Some (Inr sc)" "length (anchor_lines s) < 2 ^ 64"
    "format_hashline_content s offset limit sc = Some (shown, raw)" "shown \<noteq> []" "l \<in> set (split_on 10 shown)"
    "anc \<in> {l, strip_arrow l}" "detect_anchor_prefix_in_content c = None"
  shows "\<exists>i pre res. i < length (anchor_lines s) \<and> l = show_nat (Suc i) @ 58 # pre @ ARROW # anchor_lines s ! i \<and>
    apply_edits s [Replace anc None c] path sc = Some res \<and>
    ar_new_content res = Some (join [10] (take i (anchor_lines s) @ (if c = [] then [] else lines c) @
                                          drop (Suc i) (anchor_lines s)))"
proof -
  let ?ls = "anchor_lines s"
  note laws = build_scheme_laws [OF assms(1)]
  obtain i where i: "i < length ?ls" "l = render_anchored_line (sc_generate sc ?ls ! i) (?ls ! i)"
    using anchor_laws.shown_line [OF laws assms(2-5)] by blast
  have ok: "anchor_ok (sc_generate sc ?ls ! i)" using anchor_laws.generate_ok [OF laws i(1) assms(2)] .
  have "validate_anchor anc ?ls sc = Some (Inr i)"
    using assms(6) i strip_arrow_line [OF ok] by (intro anchor_laws.validate_shown [OF laws i(1) assms(2)]) auto
  then show ?thesis
    using anchor_laws.replace_line [OF laws i(1) _ assms(7)] i anchor_laws.generate_line [OF laws i(1)]
    by (fastforce simp: render_anchored_line_def)
qed

lemma shown_line_editable_witness:
  "\<exists>res. apply_edits sample_text [Replace (lit ''2:rb'' @ ARROW # lit ''b'') None (lit ''y'')] (lit ''p'') (content_only 2)
       = Some res \<and>
     ar_new_content res = Some (lit ''a'' @ [10] @ lit ''y'' @ [10] @ lit ''c'')"
proof -
  let ?shown = "lit ''1:ob'' @ ARROW # lit ''a'' @ [10] @ lit ''2:rb'' @ ARROW # lit ''b'' @ [10] @
                lit ''3:qk'' @ ARROW # lit ''c''"
  let ?l = "lit ''2:rb'' @ ARROW # lit ''b''"
  have "?shown \<noteq> []" "?l \<in> set (split_on 10 ?shown)" by (simp_all add: str_simps ARROW_def)
  moreover have "length (anchor_lines sample_text) < 2 ^ 64" by (simp add: sample_lines)
  ultimately obtain i pre res where i: "i < length (anchor_lines sample_text)"
      "?l = show_nat (Suc i) @ 58 # pre @ ARROW # anchor_lines sample_text ! i"
      "apply_edits sample_text [Replace ?l None (lit ''y'')] (lit ''p'') (content_only 2) = Some res"
      "ar_new_content res = Some (join [10] (take i (anchor_lines sample_text) @
         (if lit ''y'' = [] then [] else lines (lit ''y'')) @ drop (Suc i) (anchor_lines sample_text)))"
    using shown_line_editable [OF sample_scheme _ sample_format, of ?l ?l "lit ''y''" "lit ''p''"] sample_content(1) by auto
  have "hd ?l = hd (show_nat (Suc i) @ 58 # pre @ ARROW # anchor_lines sample_text ! i)" using i(2) by simp
  moreover have "i = 0 \<or> i = 1 \<or> i = 2" using i(1) by (auto simp: sample_lines)
  moreover have "show_nat 1 = [49]" "show_nat 2 = [50]" "show_nat 3 = [51]" "hd ?l = 50" by code_simp+
  ultimately have "i = 1" by (auto simp: numeral_2_eq_2 numeral_3_eq_3)
  then show ?thesis using i(3,4) by (auto simp: sample_lines sample_content)
qed

text \<open>When the error for a stale anchor suggests another anchor, that anchor is accepted for the line it names, and the line has the fingerprint of the stale anchor.\<close>

theorem suggested_anchor_works:
  assumes "build_scheme p = Some (Inr sc)" "length ls < 2 ^ 64"
    "validate_anchor anc ls sc = Some (Inl e)" "he_shifted_anchor e = Some fresh"
  shows "\<exists>a k. parse_anchor (strip_arrow anc) = Some a \<and> he_shifted_to e = Some k \<and> k \<noteq> an_line a \<and>
    validate_anchor fresh ls sc = Some (Inr (k - 1)) \<and> local_hash (sc_hash_len sc) (ls ! (k - 1)) = an_local a"
  by (rule anchor_laws.stale_suggestion [OF build_scheme_laws [OF assms(1)] assms(2-4)])

lemma suggested_anchor_works_witness:
  "\<exists>e k. validate_anchor (lit ''1:rb'') (anchor_lines sample_text) (content_only 2) = Some (Inl e) \<and>
     he_shifted_to e = Some k \<and> validate_anchor (lit ''2:rb'') (anchor_lines sample_text) (content_only 2) = Some (Inr (k - 1))"
proof -
  have "length (anchor_lines sample_text) < 2 ^ 64" by (simp add: sample_lines)
  then show ?thesis
    using sample_stale suggested_anchor_works [OF sample_scheme, of "anchor_lines sample_text" "lit ''1:rb''"] by blast
qed

text \<open>With chunk fingerprints, an anchor stays the anchor of its line, and is still accepted, as long as the chunk of the line is unchanged and at its place.\<close>

theorem other_chunks_keep_anchors:
  assumes "0 < n" "0 < k" "i < length ls" "i < length ls'" "length ls' < 2 ^ 64"
    "take k (drop (i div k * k) ls) = take k (drop (i div k * k) ls')"
  shows "sc_generate (chunk_scheme n k) ls' ! i = sc_generate (chunk_scheme n k) ls ! i \<and>
    validate_anchor (anchor_render (sc_generate (chunk_scheme n k) ls ! i)) ls' (chunk_scheme n k) = Some (Inr i)"
  using chunk_generate_local [OF assms(2,3,4,6), of n]
    anchor_laws.validate_shown [OF chunk_laws [OF assms(1,2)] assms(4,5)] by simp

lemma other_chunks_keep_anchors_witness:
  "validate_anchor (anchor_render (sc_generate (chunk_scheme 3 1) [lit ''a'', lit ''b''] ! 0)) [lit ''a'', lit ''c'']
     (chunk_scheme 3 1) = Some (Inr 0)"
  using other_chunks_keep_anchors [of 3 1 0 "[lit ''a'', lit ''b'']" "[lit ''a'', lit ''c'']"] by simp

end
