(* ===== verification/EditOutput.thy ===== *)
theory EditOutput
  imports FileSystem
begin

text \<open>
  What the editing tools report (\<^verbatim>\<open>ds-tools/src/types/output.rs\<close>), and what they need of the system
  around a path: \<^verbatim>\<open>tokio::fs::canonicalize\<close>, the look-up of a file whose name differs only in
  confusable characters, and the hints that are added to the error for a missing file.
\<close>

record search_replace_edit_detail =
  sd_old_string :: rstr
  sd_old_line :: nat
  sd_new_string :: rstr
  sd_new_line :: nat
  sd_context_before :: rstr
  sd_context_after :: rstr
  sd_line_prefix :: rstr

record search_replace_edits_applied =
  sa_old_string :: rstr
  sa_new_string :: rstr
  sa_prompt :: rstr
  sa_prompt_concise :: "rstr option"
  sa_path :: rstr
  sa_details :: "search_replace_edit_detail list"
  sa_patch :: "rstr option"
  sa_unicode_normalized :: bool

record no_matches_found_error =
  nm_message :: rstr
  nm_path :: rstr
  nm_snapshot :: "rstr option"

datatype search_replace_output =
    FileAlreadyExists rstr
  | EditsApplied search_replace_edits_applied
  | MultipleMatchesFound rstr
  | NoMatchesFound no_matches_found_error
  | InvalidInput rstr
  | TargetNotFound rstr
  | FilenameTooLong rstr

datatype edit_tool_error =
    MissingResource rstr
  | InvalidArguments rstr
  | ExecutionError rstr rstr
  | CustomError rstr rstr

record 'fs path_services =
  ps_tilde :: "rstr \<Rightarrow> rstr"
  ps_canonicalize :: "'fs \<Rightarrow> rstr \<Rightarrow> rstr option"
  ps_unicode_match :: "'fs \<Rightarrow> rstr \<Rightarrow> rstr option"
  ps_not_found_hint :: "'fs \<Rightarrow> rstr \<Rightarrow> rstr \<Rightarrow> rstr \<Rightarrow> rstr"

text \<open>The resources of a call; \<open>None\<close> is a directory that was not set.\<close>

record edit_context =
  ec_cwd :: "rstr option"
  ec_display_cwd :: "rstr option"
  ec_hints :: bool

definition canonicalize_with_timeout :: "'fs path_services \<Rightarrow> 'fs \<Rightarrow> rstr \<Rightarrow> rstr" where
  "canonicalize_with_timeout ps fs p = (case ps_canonicalize ps fs p of Some q \<Rightarrow> q | None \<Rightarrow> p)"

definition format_not_found_error :: "'fs path_services \<Rightarrow> 'fs \<Rightarrow> rstr \<Rightarrow> rstr \<Rightarrow> rstr \<Rightarrow> rstr \<Rightarrow> bool \<Rightarrow> rstr" where
  "format_not_found_error ps fs display_path resolved_path cwd display_cwd hints_enabled =
     (let base = lit ''Error: '' @ display_path @ lit '' does not exist.''
      in if \<not> hints_enabled then base else base @ ps_not_found_hint ps fs resolved_path cwd display_cwd)"

definition io_error_kind_of :: "computer_error \<Rightarrow> io_error_kind option" where
  "io_error_kind_of e = (case e of IOError msg kind \<Rightarrow> kind | CommandNotQuoted \<Rightarrow> None)"

end
