(* ===== verification/ModelPath.thy ===== *)
theory ModelPath
  imports ReadFile
begin

text \<open>
  Paths in the arguments of tools (\<^verbatim>\<open>ds-tools/src/types/resources.rs\<close>): quotes and escapes that a model
  left around a path are removed, and a path below the directory that was shown to the model is
  moved to the directory in which the tools run. The expansion of \<open>~\<close> (\<^verbatim>\<open>shellexpand::tilde\<close>) is the
  argument \<open>tilde\<close>.
\<close>

section \<open>Texts of paths\<close>

fun component_text :: "component \<Rightarrow> rstr" where
  "component_text RootDir = []"
| "component_text CurDir = [46]"
| "component_text ParentDir = [46, 46]"
| "component_text (Normal s) = s"

text \<open>The path with these components; \<^verbatim>\<open>Path::strip_prefix\<close> gives one that is equal to it.\<close>

definition render_path :: "component list \<Rightarrow> rstr" where
  "render_path cs =
     (case cs of
        RootDir # rest \<Rightarrow> 47 # join [47] (map component_text rest)
      | _ \<Rightarrow> join [47] (map component_text cs))"

definition path_strip_prefix :: "rstr \<Rightarrow> rstr \<Rightarrow> rstr option" where
  "path_strip_prefix p base = map_option render_path (strip_prefix (components p) (components base))"

section \<open>Arguments\<close>

definition is_quote :: "rune \<Rightarrow> bool" where
  "is_quote c \<longleftrightarrow> c = 34 \<or> c = 39"

definition trim_quotes :: "rstr \<Rightarrow> rstr" where
  "trim_quotes s = rev (dropWhile is_quote (rev (dropWhile is_quote s)))"

definition strip_escape :: "rstr \<Rightarrow> rstr option" where
  "strip_escape s =
     (case strip_suffix s [92, 110] of
        Some r \<Rightarrow> Some r
      | None \<Rightarrow> (case strip_suffix s [92, 114] of Some r \<Rightarrow> Some r | None \<Rightarrow> strip_suffix s [92, 116]))"

lemma strip_suffix_shorter: "strip_suffix s p = Some r \<Longrightarrow> p \<noteq> [] \<Longrightarrow> length r < length s"
  by (cases s; cases p) (auto simp: strip_suffix_def ends_with_def starts_with_def split: if_splits)

lemma strip_escape_shorter: "strip_escape s = Some r \<Longrightarrow> length r < length s"
  by (auto simp: strip_escape_def split: option.splits intro: strip_suffix_shorter)

lemma length_trim_end: "length (trim_end s) \<le> length s"
  by (simp add: trim_end_def) (metis length_dropWhile_le length_rev)

function strip_escapes :: "rstr \<Rightarrow> rstr" where
  "strip_escapes s = (case strip_escape s of Some r \<Rightarrow> strip_escapes (trim_end r) | None \<Rightarrow> s)"
  by pat_completeness auto
termination
  by (relation "measure length") (auto dest: strip_escape_shorter intro: le_less_trans [OF length_trim_end])

declare strip_escapes.simps [simp del]

definition sanitize_model_path_arg :: "rstr \<Rightarrow> rstr" where
  "sanitize_model_path_arg input =
     (let trimmed = trim input;
          quote_wrapped = 2 \<le> str_len trimmed \<and> trimmed \<noteq> [] \<and> is_quote (hd trimmed) \<and> is_quote (last trimmed);
          unquoted = trim (trim_quotes trimmed)
      in if \<not> quote_wrapped then unquoted else strip_escapes unquoted)"

definition resolve_model_path :: "(rstr \<Rightarrow> rstr) \<Rightarrow> rstr \<Rightarrow> rstr option \<Rightarrow> rstr \<Rightarrow> rstr" where
  "resolve_model_path tilde cwd display_cwd input =
     (let expanded = tilde (sanitize_model_path_arg input);
          base = (case display_cwd of Some d \<Rightarrow> d | None \<Rightarrow> cwd)
      in if display_cwd \<noteq> None \<and> is_absolute expanded then
           (case path_strip_prefix expanded base of
              Some suf \<Rightarrow> path_join cwd suf
            | None \<Rightarrow> expanded)
         else if \<not> is_absolute expanded \<and> expanded \<noteq> [] then
           (case path_strip_prefix (47 # expanded) base of
              Some suf \<Rightarrow> path_join cwd suf
            | None \<Rightarrow> path_join cwd expanded)
         else path_join cwd expanded)"

definition display_cwd_or_cwd :: "rstr \<Rightarrow> rstr option \<Rightarrow> rstr" where
  "display_cwd_or_cwd cwd display_cwd = (case display_cwd of Some d \<Rightarrow> d | None \<Rightarrow> cwd)"

section \<open>Components\<close>

definition simple_component :: "component \<Rightarrow> bool" where
  "simple_component c =
     (case c of ParentDir \<Rightarrow> True | Normal s \<Rightarrow> s \<noteq> [] \<and> s \<noteq> [46] \<and> s \<noteq> [46, 46] \<and> 47 \<notin> set s | _ \<Rightarrow> False)"

lemma simple_parts: "c \<in> set (map to_component (filter (\<lambda>s. s \<noteq> [] \<and> s \<noteq> [46]) (split_on 47 p))) \<Longrightarrow> simple_component c"
  using split_on_no_sep [of _ 47 p] by (auto simp: simple_component_def to_component_def)

lemma components_tail:
  assumes "c \<in> set (tl (components p))"
  shows "simple_component c"
proof -
  let ?parts = "map to_component (filter (\<lambda>s. s \<noteq> [] \<and> s \<noteq> [46]) (split_on 47 p))"
  have sub: "set (tl cs) \<subseteq> set cs" for cs :: "component list" by (cases cs) auto
  obtain pre where "components p = pre @ ?parts" "length pre \<le> 1"
    by (auto simp: components_def Let_def)
  then have "set (tl (components p)) \<subseteq> set ?parts"
  proof (cases pre)
    case Nil
    then show ?thesis using \<open>components p = pre @ ?parts\<close> sub [of ?parts] by (simp only: append_Nil)
  qed auto
  then show ?thesis using assms simple_parts [of c p] by blast
qed

lemma components_join:
  assumes "\<not> is_absolute b" "hd (split_on 47 b) \<noteq> [46]"
  shows "components (path_join a b) = components a @ components b"
proof -
  have split: "split_on 47 (x @ 47 # y) = split_on 47 x @ split_on 47 y" for x y :: rstr
    by (induction x) (auto split: list.splits)
  have b: "components b = map to_component (filter (\<lambda>s. s \<noteq> [] \<and> s \<noteq> [46]) (split_on 47 b))"
    using assms by (simp add: components_def is_absolute_def)
  consider "a = []" | "a \<noteq> []" "last a \<noteq> 47" | x where "a = x @ [47]"
    by (cases a rule: rev_cases) auto
  then show ?thesis
  proof cases
    case 1
    then show ?thesis using assms(1) by (simp add: path_join_def is_absolute_def components_def starts_with_def)
  next
    case 2
    then have "path_join a b = a @ 47 # b" using assms(1) by (simp add: path_join_def is_absolute_def)
    moreover have "starts_with (a @ 47 # b) [47] = starts_with a [47]"
      using 2(1) by (cases a) (simp_all add: starts_with_def)
    ultimately show ?thesis by (simp add: components_def Let_def split b [unfolded components_def Let_def] hd_append)
  next
    case (3 x)
    then have "path_join a b = x @ 47 # b" using assms(1) by (simp add: path_join_def is_absolute_def)
    moreover have "starts_with (x @ 47 # b) [47] = starts_with (x @ [47]) [47]"
      by (cases x) (simp_all add: starts_with_def)
    ultimately show ?thesis
      using split [of x "[]"] by (simp add: 3 components_def Let_def split b [unfolded components_def Let_def] hd_append)
  qed
qed

lemma components_render:
  assumes "\<forall>c \<in> set cs. simple_component c"
  shows "components (render_path cs) = cs" "\<not> is_absolute (render_path cs)" "hd (split_on 47 (render_path cs)) \<noteq> [46]"
proof -
  have names: "47 \<notin> set (component_text c) \<and> component_text c \<noteq> [] \<and> component_text c \<noteq> [46]
      \<and> to_component (component_text c) = c" if "c \<in> set cs" for c
    using assms that by (cases c) (auto simp: simple_component_def to_component_def)
  have render: "render_path cs = join [47] (map component_text cs)"
    using assms by (cases cs rule: list.exhaust [case_names Nil Cons])
      (auto simp: render_path_def simple_component_def split: component.splits)
  have parts: "split_on 47 (render_path cs) = (if cs = [] then [[]] else map component_text cs)"
    unfolding render using names by (auto intro!: split_on_join)
  show rel: "\<not> is_absolute (render_path cs)"
  proof
    assume "is_absolute (render_path cs)"
    then obtain t where "render_path cs = 47 # t" by (cases "render_path cs") (auto simp: is_absolute_def starts_with_def)
    then have "cs \<noteq> []" "component_text (hd cs) = []" using parts by (cases cs; auto)+
    then show False using names [of "hd cs"] by simp
  qed
  show hd: "hd (split_on 47 (render_path cs)) \<noteq> [46]" using parts names by (cases cs) auto
  have "filter (\<lambda>s. s \<noteq> [] \<and> s \<noteq> [46]) (map component_text cs) = map component_text cs"
    using names by (auto simp: filter_id_conv)
  moreover have "map (to_component \<circ> component_text) cs = cs" using names by (simp add: map_idI)
  ultimately show "components (render_path cs) = cs"
    using rel hd by (simp add: components_def Let_def is_absolute_def parts)
qed

text \<open>A path below the directory that the model was shown is the same path below the directory in which the tools run.\<close>

theorem shown_path_resolves:
  assumes "is_absolute shown" "is_absolute (tilde (sanitize_model_path_arg input))"
    "components (tilde (sanitize_model_path_arg input)) = components shown @ below"
  shows "components (resolve_model_path tilde cwd (Some shown) input) = components cwd @ below"
proof -
  let ?p = "tilde (sanitize_model_path_arg input)"
  have "components shown \<noteq> []" using assms(1) by (simp add: components_def is_absolute_def Let_def)
  then have "set below \<subseteq> set (tl (components ?p))" by (auto simp: assms(3) neq_Nil_conv)
  then have "\<forall>c \<in> set below. simple_component c" using components_tail [of _ ?p] by blast
  then have "components (path_join cwd (render_path below)) = components cwd @ below"
    by (simp add: components_join components_render)
  moreover have "path_strip_prefix ?p shown = Some (render_path below)"
    by (simp add: path_strip_prefix_def assms(3))
  ultimately show ?thesis using assms(2) by (simp add: resolve_model_path_def Let_def)
qed

lemma shown_path_resolves_witness:
  "components (resolve_model_path id (lit ''/w'') (Some (lit ''/home'')) (lit ''/home/a''))
   = components (lit ''/w'') @ [Normal (lit ''a'')]"
proof (rule shown_path_resolves)
  show "is_absolute (lit ''/home'')" by (simp add: is_absolute_def starts_with_def str_simps)
  have "sanitize_model_path_arg (lit ''/home/a'') = lit ''/home/a''"
    by (simp add: sanitize_model_path_arg_def trim_def trim_start_def trim_end_def is_whitespace_def trim_quotes_def
        is_quote_def str_simps)
  then show "is_absolute (id (sanitize_model_path_arg (lit ''/home/a'')))"
    "components (id (sanitize_model_path_arg (lit ''/home/a''))) = components (lit ''/home'') @ [Normal (lit ''a'')]"
    by (simp_all add: is_absolute_def starts_with_def str_simps components_def to_component_def)
qed

end
