(* ===== verification/HashlineTool.thy ===== *)
theory HashlineTool
  imports HashlineEdit EditOutput ModelPath
begin

text \<open>
  The tools built on anchors: \<open>hashline_edit\<close> (\<^verbatim>\<open>edit/mod.rs\<close>) reads a file, applies the batch and
  writes the result; \<open>hashline_grep\<close> (\<^verbatim>\<open>grep.rs\<close>) adds anchors to the lines that ripgrep found;
  \<open>hashline_read\<close> (\<^verbatim>\<open>read_file.rs\<close>) shows a window of a file with anchors. \<open>None\<close> is a panic.
\<close>

section \<open>The result of an edit\<close>

definition context_window :: "rstr list \<Rightarrow> nat \<Rightarrow> nat \<Rightarrow> rstr option" where
  "context_window ls a b =
     (if a < b then map_option (\<lambda>xs. join [10] xs @ [10]) (slice_opt ls a b) else Some [])"

definition region_detail :: "rstr list \<Rightarrow> edit_region_detail \<Rightarrow> search_replace_edit_detail option" where
  "region_detail old_lines d = do {
     let ctx_count = 3;
     let old_idx = ed_old_line d - 1;
     context_before \<leftarrow> context_window old_lines (old_idx - ctx_count) old_idx;
     let old_text_line_count = (if ed_old_text d = [] then 0 else length (split_on 10 (ed_old_text d)));
     let after_start = old_idx + old_text_line_count;
     let after_end = min (after_start + ctx_count) (length old_lines);
     context_after \<leftarrow> context_window old_lines after_start after_end;
     Some \<lparr>sd_old_string = ed_old_text d, sd_old_line = ed_old_line d, sd_new_string = ed_new_text d,
           sd_new_line = ed_new_line d, sd_context_before = context_before, sd_context_after = context_after,
           sd_line_prefix = []\<rparr>
   }"

definition error_text :: "hashline_edit_error \<Rightarrow> rstr" where
  "error_text e =
     he_message e @
     (case he_context e of
        None \<Rightarrow> []
      | Some ctx \<Rightarrow>
          [10, 10] @
          (case he_context_start e of
             Some start \<Rightarrow> lit ''Fresh anchors around line '' @ show_nat start @ [32, 8212] @
                           lit '' use these to retry your edit:''
           | None \<Rightarrow> lit ''Fresh anchors '' @ [8212] @ lit '' use these to retry your edit:'') @
          [10] @ ctx) @
     (case he_shifted_anchor e of
        None \<Rightarrow> []
      | Some anchor \<Rightarrow> [10, 10] @ lit ''Suggested anchor: '' @ anchor)"

definition to_search_replace :: "hashline_edit_output \<Rightarrow> rstr \<Rightarrow> rstr \<Rightarrow> rstr option \<Rightarrow> edit_region_detail list
    \<Rightarrow> search_replace_output option" where
  "to_search_replace result target old_content new_content edit_details =
     (case result of
        HashlineApplied applied \<Rightarrow> do {
          let new_text = (case new_content of Some c \<Rightarrow> c | None \<Rightarrow> []);
          details \<leftarrow>
            (if edit_details = [] then
               Some [\<lparr>sd_old_string = old_content, sd_old_line = 1, sd_new_string = new_text, sd_new_line = 1,
                      sd_context_before = [], sd_context_after = [], sd_line_prefix = []\<rparr>]
             else those (map (region_detail (split_on 10 old_content)) edit_details));
          Some (EditsApplied
            \<lparr>sa_old_string = old_content, sa_new_string = new_text,
             sa_prompt = (if ha_warnings applied = [] then ha_snippet applied
                          else join [10] (ha_warnings applied) @ [10, 10] @ ha_snippet applied),
             sa_prompt_concise = None, sa_path = ha_path applied, sa_details = details, sa_patch = None,
             sa_unicode_normalized = False\<rparr>)
        }
      | HashlineError e \<Rightarrow>
          Some (case he_kind e of
                  FileNotFoundKind \<Rightarrow> TargetNotFound (error_text e)
                | InvalidInputKind \<Rightarrow> InvalidInput (error_text e)
                | _ \<Rightarrow> NoMatchesFound \<lparr>nm_message = error_text e, nm_path = target, nm_snapshot = None\<rparr>))"

section \<open>The edit tool\<close>

text \<open>The answers to an error of the file system.\<close>

definition io_failure :: "rstr \<Rightarrow> 'fs path_services \<Rightarrow> 'fs \<Rightarrow> edit_context \<Rightarrow> rstr \<Rightarrow> rstr \<Rightarrow> rstr \<Rightarrow> computer_error
    \<Rightarrow> search_replace_output" where
  "io_failure what ps fs ctx cwd requested resolved e =
     (let display_dcwd = display_cwd_or_cwd cwd (ec_display_cwd ctx)
      in if io_error_kind_of e = Some io_error_kind.NotFound then
           TargetNotFound (format_not_found_error ps fs (path_join display_dcwd requested) resolved cwd display_dcwd
                             (ec_hints ctx))
         else InvalidInput (lit ''Failed to '' @ what @ lit '' file: '' @ show_computer_error e))"

text \<open>A single write to a file that is not there: the file is written, then the result is computed.\<close>

definition create_file :: "'fs async_file_system \<Rightarrow> 'fs path_services \<Rightarrow> edit_context \<Rightarrow> rstr \<Rightarrow> rstr \<Rightarrow> rstr \<Rightarrow> rstr
    \<Rightarrow> anchor_scheme \<Rightarrow> 'fs \<Rightarrow> (search_replace_output \<times> 'fs) option" where
  "create_file ops ps ctx cwd requested joined content sc fs =
     (case write_file ops fs joined (as_bytes content) of
        (Inl e, fs') \<Rightarrow> Some (io_failure (lit ''write'') ps fs' ctx cwd requested joined e, fs')
      | (Inr _, fs') \<Rightarrow>
          (let abs = canonicalize_with_timeout ps fs' joined
           in case apply_edits content [WriteFile content] abs sc of
                None \<Rightarrow> None
              | Some r \<Rightarrow>
                  map_option (\<lambda>res. (res, fs'))
                    (to_search_replace (ar_output r) abs [] (ar_new_content r) (ar_details r))))"

definition edit_file :: "'fs async_file_system \<Rightarrow> 'fs path_services \<Rightarrow> edit_context \<Rightarrow> rstr \<Rightarrow> rstr \<Rightarrow> hashline_op list
    \<Rightarrow> rstr \<Rightarrow> anchor_scheme \<Rightarrow> 'fs \<Rightarrow> (search_replace_output \<times> 'fs) option" where
  "edit_file ops ps ctx cwd requested edits target sc fs =
     (case read_file ops fs target of
        Inl e \<Rightarrow> Some (io_failure (lit ''read'') ps fs ctx cwd requested target e, fs)
      | Inr file_bytes \<Rightarrow>
          (let old_content = from_utf8_lossy file_bytes
           in case apply_edits old_content edits target sc of
                None \<Rightarrow> None
              | Some r \<Rightarrow>
                  (let finish = (\<lambda>fs'. map_option (\<lambda>res. (res, fs'))
                         (to_search_replace (ar_output r) target old_content (ar_new_content r) (ar_details r)))
                   in case ar_new_content r of
                        None \<Rightarrow> finish fs
                      | Some new_content \<Rightarrow>
                          (case write_file ops fs target (as_bytes new_content) of
                             (Inl e, fs') \<Rightarrow>
                               map_option (\<lambda>res. (res, fs'))
                                 (to_search_replace
                                    (HashlineError (plain_error IoErrorKind
                                       (lit ''Edits validated but failed to write file: '' @ show_computer_error e @ lit ''.'')
                                       None))
                                    target old_content None [])
                           | (Inr _, fs') \<Rightarrow> finish fs'))))"

definition hashline_edit_run :: "'fs async_file_system \<Rightarrow> 'fs path_services \<Rightarrow> edit_context \<Rightarrow> scheme_params option
    \<Rightarrow> rstr \<Rightarrow> hashline_op list \<Rightarrow> 'fs \<Rightarrow> ((edit_tool_error + search_replace_output) \<times> 'fs) option" where
  "hashline_edit_run ops ps ctx params requested edits fs =
     (if edits = [] then Some (Inr (InvalidInput (lit ''No edit operations provided.'')), fs)
      else (case ec_cwd ctx of
              None \<Rightarrow> Some (Inl (MissingResource (lit ''Cwd'')), fs)
            | Some cwd \<Rightarrow>
                (case build_scheme (case params of Some p \<Rightarrow> p | None \<Rightarrow> scheme_params_default) of
                   None \<Rightarrow> None
                 | Some (Inl e) \<Rightarrow> Some (Inl (InvalidArguments e), fs)
                 | Some (Inr sc) \<Rightarrow>
                     (let display_dcwd = display_cwd_or_cwd cwd (ec_display_cwd ctx);
                          joined = resolve_model_path (ps_tilde ps) cwd (ec_display_cwd ctx) requested;
                          answer = map_option (\<lambda>(res, fs'). (Inr res, fs'))
                      in case (case ps_canonicalize ps fs joined of
                                 Some p \<Rightarrow> Some p
                               | None \<Rightarrow> ps_unicode_match ps fs joined) of
                           Some target \<Rightarrow> answer (edit_file ops ps ctx cwd requested edits target sc fs)
                         | None \<Rightarrow>
                             (case edits of
                                [WriteFile content] \<Rightarrow>
                                  answer (create_file ops ps ctx cwd requested joined content sc fs)
                              | _ \<Rightarrow>
                                  Some (Inr (TargetNotFound (format_not_found_error ps fs
                                          (path_join display_dcwd requested) joined cwd display_dcwd (ec_hints ctx))),
                                        fs))))))"

section \<open>Anchors in search results\<close>

definition parse_rg_line :: "rstr \<Rightarrow> (nat \<times> rune \<times> rstr) option" where
  "parse_rg_line line =
     (let digits = takeWhile is_digit line
      in if digits = [] then None
         else (case dropWhile is_digit line of
                 [] \<Rightarrow> None
               | sep # rest \<Rightarrow>
                   (if sep \<noteq> 58 \<and> sep \<noteq> 45 then None
                    else map_option (\<lambda>num. (num, sep, rest)) (parse_unsigned 64 digits))))"

text \<open>The cache of one invocation, by path.\<close>

type_synonym anchor_cache = "component list \<rightharpoonup> line_anchor list"

definition get_or_generate :: "'fs async_file_system \<Rightarrow> 'fs \<Rightarrow> anchor_scheme \<Rightarrow> rstr \<Rightarrow> anchor_cache
    \<Rightarrow> line_anchor list option \<times> anchor_cache" where
  "get_or_generate ops fs sc p cache =
     (let cache' =
        (if components p \<in> dom cache then cache
         else (case read_file ops fs p of
                 Inl e \<Rightarrow> cache
               | Inr bs \<Rightarrow> cache(components p \<mapsto> sc_generate sc (anchor_lines (from_utf8_lossy bs)))))
      in (cache' (components p), cache'))"

record inject_state =
  is_cache :: anchor_cache
  is_result :: rstr
  is_current :: "rstr option"

text \<open>A line that is not given an anchor: the header of a file names the current file.\<close>

definition pass_line :: "rstr \<Rightarrow> rstr \<Rightarrow> inject_state \<Rightarrow> inject_state" where
  "pass_line cwd line st =
     st\<lparr>is_result := is_result st @ line,
        is_current := (if parse_rg_line line = None \<and> \<not> starts_with line (lit ''Found '') \<and>
                          \<not> starts_with line (lit ''... ['') \<and> line \<noteq> []
                       then Some (path_join cwd line) else is_current st)\<rparr>"

definition inject_step :: "'fs async_file_system \<Rightarrow> 'fs \<Rightarrow> rstr \<Rightarrow> anchor_scheme \<Rightarrow> rstr \<Rightarrow> inject_state
    \<Rightarrow> inject_state option" where
  "inject_step ops fs cwd sc line st =
     (let st = (if \<not> ends_with (is_result st) [10] \<and> \<not> ends_with (is_result st) [62]
                then st\<lparr>is_result := is_result st @ [10]\<rparr> else st)
      in if line = lit ''--'' then Some (st\<lparr>is_result := is_result st @ line\<rparr>)
         else (case (parse_rg_line line, is_current st) of
                 (Some (line_num, sep, rest), Some p) \<Rightarrow>
                   (case get_or_generate ops fs sc p (is_cache st) of
                      (found, cache) \<Rightarrow>
                        (let st = st\<lparr>is_cache := cache\<rparr>
                         in case found of
                              None \<Rightarrow> Some (pass_line cwd line st)
                            | Some anchors \<Rightarrow>
                                (if line_num - 1 < length anchors then do {
                                   idx \<leftarrow> checked_sub line_num 1;
                                   a \<leftarrow> nth_opt anchors idx;
                                   Some (st\<lparr>is_result := is_result st @ show_nat line_num @ [58] @ anchor_suffix a @
                                                         [sep] @ rest\<rparr>)
                                 }
                                 else Some (pass_line cwd line st))))
               | _ \<Rightarrow> Some (pass_line cwd line st)))"

fun inject_lines :: "'fs async_file_system \<Rightarrow> 'fs \<Rightarrow> rstr \<Rightarrow> anchor_scheme \<Rightarrow> rstr list \<Rightarrow> inject_state
    \<Rightarrow> inject_state option" where
  "inject_lines ops fs cwd sc [] st = Some st"
| "inject_lines ops fs cwd sc (line # ls) st =
     Option.bind (inject_step ops fs cwd sc line st) (inject_lines ops fs cwd sc ls)"

definition inject_anchors :: "'fs async_file_system \<Rightarrow> 'fs \<Rightarrow> rstr \<Rightarrow> anchor_scheme \<Rightarrow> bytes \<Rightarrow> bytes option" where
  "inject_anchors ops fs cwd sc stdout_bytes =
     (let stdout = from_utf8_lossy stdout_bytes
      in case (find_sub [62, 10] stdout, rfind_sub (10 # lit ''</workspace_result>'') stdout) of
           (Some start, Some stop) \<Rightarrow> do {
             let body_start = start + 2;
             body \<leftarrow> slice_opt stdout body_start stop;
             st \<leftarrow> inject_lines ops fs cwd sc (lines body)
                    \<lparr>is_cache = Map.empty, is_result = take body_start stdout, is_current = None\<rparr>;
             Some (as_bytes (is_result st @ drop stop stdout))
           }
         | _ \<Rightarrow> Some stdout_bytes)"

definition DEFAULT_ANCHOR_TIMEOUT_SECS :: nat where
  "DEFAULT_ANCHOR_TIMEOUT_SECS = 60"

text \<open>What \<open>hashline_grep\<close> does with the output of the search; \<open>elapsed\<close> is the timer running out.\<close>

definition hashline_grep_output :: "'fs async_file_system \<Rightarrow> 'fs \<Rightarrow> rstr \<Rightarrow> scheme_params option \<Rightarrow> bool \<Rightarrow> bool
    \<Rightarrow> int \<Rightarrow> bytes \<Rightarrow> (edit_tool_error + bytes) option" where
  "hashline_grep_output ops fs cwd params elapsed content_mode exit_code stdout =
     (if \<not> (content_mode \<and> exit_code = 0) then Some (Inr stdout)
      else (case build_scheme (case params of Some p \<Rightarrow> p | None \<Rightarrow> scheme_params_default) of
              None \<Rightarrow> None
            | Some (Inl e) \<Rightarrow> Some (Inl (InvalidArguments e))
            | Some (Inr sc) \<Rightarrow>
                (if elapsed then
                   Some (Inr (stdout @ as_bytes ([10] @ lit ''Hashline anchoring for tool output failed after '' @
                     show_nat DEFAULT_ANCHOR_TIMEOUT_SECS @ lit '' seconds. Since results lack '' @
                     lit ''anchoring, please read the file before editing.'' @ [10])))
                 else map_option Inr (inject_anchors ops fs cwd sc stdout))))"

section \<open>Reading with anchors\<close>

text \<open>What \<open>hashline_read\<close> does with the result of reading the window.\<close>

definition hashline_read_output :: "'fs async_file_system \<Rightarrow> 'fs \<Rightarrow> scheme_params option \<Rightarrow> nat \<Rightarrow> 'i read_file_output
    \<Rightarrow> (edit_tool_error + 'i read_file_output) option" where
  "hashline_read_output ops fs params max_lines_read result =
     (case result of
        FileContent fc \<Rightarrow>
          (if fc_raw_output fc = [] \<and> fc_total_lines fc = 0
           then Some (Inr (FileContent (fc\<lparr>fc_content_concise := None\<rparr>)))
           else (case build_scheme (case params of Some p \<Rightarrow> p | None \<Rightarrow> scheme_params_default) of
                   None \<Rightarrow> None
                 | Some (Inl e) \<Rightarrow> Some (Inl (InvalidArguments e))
                 | Some (Inr sc) \<Rightarrow>
                     (let full_content = (case read_file ops fs (fc_absolute_path fc) of
                                            Inr bs \<Rightarrow> from_utf8_lossy bs
                                          | Inl _ \<Rightarrow> fc_raw_output fc);
                          effective_limit = Some (case fc_limit fc of
                                                    Some n \<Rightarrow> min n max_lines_read
                                                  | None \<Rightarrow> max_lines_read)
                      in map_option (\<lambda>(hashline_content, raw).
                            Inr (FileContent (fc\<lparr>fc_content := hashline_content, fc_content_concise := None,
                                                 fc_extracted_images := []\<rparr>)))
                           (format_hashline_content full_content (fc_offset fc) effective_limit sc))))
      | other \<Rightarrow> Some (Inr other))"

end
