(* ===== verification/HashlineToolProps.thy ===== *)
theory HashlineToolProps
  imports HashlineProps HashlineTool
begin

text \<open>
  The tools on top of edits by anchors: the edit tool answers every request and changes at most the
  file it names, exactly when it reports an edit; the anchors that a search adds are accepted by an
  edit.
\<close>

section \<open>Every request is answered\<close>

lemma context_window_total: "b \<le> length ls \<Longrightarrow> context_window ls a b \<noteq> None"
  by (simp add: context_window_def slice_opt_def)

lemma region_detail_total: "ed_old_line d \<le> Suc (length ls) \<Longrightarrow> region_detail ls d \<noteq> None"
  using context_window_total [of "ed_old_line d - 1" ls "ed_old_line d - 1 - 3"]
    context_window_total [of "min k (length ls)" ls m for k m]
  by (auto simp: region_detail_def Let_def bind_eq_None_conv)

lemma to_search_replace_total:
  "\<forall>d \<in> set ds. ed_old_line d \<le> Suc (length (split_on 10 old)) \<Longrightarrow> to_search_replace r target old new ds \<noteq> None"
  using those_map_Some [of ds "region_detail (split_on 10 old)"] region_detail_total [of _ "split_on 10 old"]
  by (auto simp: to_search_replace_def Let_def split: hashline_edit_output.split)

lemma region_old_line:
  assumes "list_all2 (region_ok ls new) ops regs" "\<forall>op \<in> set ops. op_wf (length ls) op" "d \<in> set (map snd regs)"
  shows "ed_old_line d \<le> Suc (length ls)"
  using assms
proof (induction rule: list_all2_induct)
  case (Cons op ops r rs)
  then show ?case by (cases r) (auto simp: op_wf_def)
qed simp

context anchor_laws
begin

lemma details_in_file:
  assumes "apply_edits s ops target sc = Some res" "d \<in> set (ar_details res)"
  shows "ed_old_line d \<le> Suc (length (anchor_lines s))"
proof (cases "\<exists>c. ops = [WriteFile c]")
  case True
  then have "ar_details res = []"
    using assms(1) by (auto simp: apply_edits_def error_result_def split: option.splits)
  with assms(2) show ?thesis by simp
next
  case False
  then have eq: "apply_edits s ops target sc = batch_result s ops target sc" by (intro apply_edits_batch) blast
  show ?thesis
  proof (cases rule: resolve_all_cases [of 0 ops "anchor_lines s"])
    case (refused r)
    then show ?thesis using assms eq by (cases r) (auto simp: batch_result_def error_result_def)
  next
    case (resolved rs)
    show ?thesis
    proof (cases "check_overlaps rs")
      case None
      then obtain res' regs where "apply_edits s ops target sc = Some res'" "ar_details res' = map snd regs"
          "list_all2 (region_ok (anchor_lines s) (edited (anchor_lines s) rs)) (sort_key ro_start rs) regs"
        using apply_batch [OF resolved(1) None, of target] by metis
      moreover have "\<forall>op \<in> set (sort_key ro_start rs). op_wf (length (anchor_lines s)) op"
        using resolved_facts(2) [of _ "length ops"] resolved(2) by simp
      ultimately show ?thesis using assms region_old_line by fastforce
    qed (use assms eq resolved in \<open>auto simp: batch_result_def error_result_def\<close>)
  qed
qed

lemma apply_and_report:
  obtains r rep where "apply_edits s ops target sc = Some r"
    "to_search_replace (ar_output r) target s (ar_new_content r) (ar_details r) = Some rep"
    "(\<exists>a. rep = EditsApplied a) \<longleftrightarrow> ar_new_content r \<noteq> None"
proof -
  obtain r where r: "apply_edits s ops target sc = Some r"
      "(\<exists>a. ar_output r = HashlineApplied a) \<longleftrightarrow> ar_new_content r \<noteq> None"
    by (cases rule: apply_total [of s ops target]) (auto simp: error_result_def)
  obtain rep where rep: "to_search_replace (ar_output r) target s (ar_new_content r) (ar_details r) = Some rep"
    using to_search_replace_total [of "ar_details r" s] details_in_file [OF r(1)] length_anchor_lines by fastforce
  have "(\<exists>a. rep = EditsApplied a) \<longleftrightarrow> (\<exists>a. ar_output r = HashlineApplied a)"
    using rep by (cases "ar_output r")
      (auto simp: to_search_replace_def Let_def bind_eq_Some_conv split: hashline_error_kind.splits)
  with r rep that show thesis by blast
qed

end

section \<open>One file at a time\<close>

text \<open>The four ways in which an edit of a file ends.\<close>

lemma edit_file_cases:
  assumes "build_scheme p = Some (Inr sc)"
  obtains (unread) e where "read_file ops fs target = Inl e"
      "edit_file ops ps ctx cwd requested edits target sc fs
       = Some (io_failure (lit ''read'') ps fs ctx cwd requested target e, fs)"
  | (refused) bs r rep where "read_file ops fs target = Inr bs"
      "apply_edits (from_utf8_lossy bs) edits target sc = Some r" "ar_new_content r = None"
      "edit_file ops ps ctx cwd requested edits target sc fs = Some (rep, fs)" "\<forall>a. rep \<noteq> EditsApplied a"
  | (unwritten) bs r new e fs' m where "read_file ops fs target = Inr bs"
      "apply_edits (from_utf8_lossy bs) edits target sc = Some r" "ar_new_content r = Some new"
      "write_file ops fs target (as_bytes new) = (Inl e, fs')"
      "edit_file ops ps ctx cwd requested edits target sc fs = Some (NoMatchesFound m, fs')"
  | (written) bs r new u fs' a where "read_file ops fs target = Inr bs"
      "apply_edits (from_utf8_lossy bs) edits target sc = Some r" "ar_new_content r = Some new"
      "write_file ops fs target (as_bytes new) = (Inr u, fs')"
      "edit_file ops ps ctx cwd requested edits target sc fs = Some (EditsApplied a, fs')"
proof (cases "read_file ops fs target")
  case (Inl e)
  then show thesis using unread by (simp add: edit_file_def)
next
  case (Inr bs)
  let ?old = "from_utf8_lossy bs"
  obtain r rep where r: "apply_edits ?old edits target sc = Some r"
      "to_search_replace (ar_output r) target ?old (ar_new_content r) (ar_details r) = Some rep"
      "(\<exists>a. rep = EditsApplied a) \<longleftrightarrow> ar_new_content r \<noteq> None"
    by (rule anchor_laws.apply_and_report [OF build_scheme_laws [OF assms], of ?old edits target])
  show thesis
  proof (cases "ar_new_content r")
    case None
    then show thesis using r Inr by (intro refused [of bs r rep]) (simp_all add: edit_file_def)
  next
    case (Some new)
    obtain w fs' where w: "write_file ops fs target (as_bytes new) = (w, fs')" by fastforce
    from Some r(3) obtain a where a: "rep = EditsApplied a" by auto
    show thesis
    proof (cases w)
      case (Inl e)
      then show thesis using r Inr \<open>read_file ops fs target = Inr bs\<close> Some w
        by (intro unwritten [of bs r new e fs']) (simp_all add: edit_file_def to_search_replace_def plain_error_def)
    next
      case (Inr u)
      then show thesis using r \<open>read_file ops fs target = Inr bs\<close> Some w a
        by (intro written [of bs r new u fs' a]) (simp_all add: edit_file_def)
    qed
  qed
qed

text \<open>Where the paths lead to: a file, or nowhere.\<close>

definition target_of :: "'fs path_services \<Rightarrow> edit_context \<Rightarrow> rstr \<Rightarrow> rstr \<Rightarrow> 'fs \<Rightarrow> rstr option" where
  "target_of ps ctx cwd requested fs =
     (let joined = resolve_model_path (ps_tilde ps) cwd (ec_display_cwd ctx) requested
      in case ps_canonicalize ps fs joined of Some p \<Rightarrow> Some p | None \<Rightarrow> ps_unicode_match ps fs joined)"

lemma create_file_total:
  assumes "build_scheme p = Some (Inr sc)"
  shows "create_file ops ps ctx cwd requested joined s sc fs \<noteq> None"
proof -
  obtain w fs' where w: "write_file ops fs joined (as_bytes s) = (w, fs')" by fastforce
  have "\<exists>r. apply_edits s [WriteFile s] abs sc = Some r \<and> ar_details r = []" for abs
    using anchor_laws.apply_total [OF build_scheme_laws [OF assms], of s "[WriteFile s]" abs]
    by (cases rule: anchor_laws.apply_total [OF build_scheme_laws [OF assms], of s "[WriteFile s]" abs])
       (auto simp: apply_edits_def error_result_def split: option.splits)
  then obtain r where "apply_edits s [WriteFile s] (canonicalize_with_timeout ps fs' joined) sc = Some r"
      "ar_details r = []" by blast
  then show ?thesis using w to_search_replace_total [of "[]" "[]" "ar_output r"]
    by (cases w) (auto simp: create_file_def Let_def)
qed

lemma edit_file_total:
  "build_scheme p = Some (Inr sc) \<Longrightarrow> edit_file ops ps ctx cwd requested edits target sc fs \<noteq> None"
  by (erule edit_file_cases [of p sc ops fs target ps ctx cwd requested edits]) auto

lemma build_scheme_total: "build_scheme p \<noteq> None"
  by (cases rule: build_scheme_cases [of p]) auto

lemma hashline_edit_run_eq:
  assumes "edits \<noteq> []" "ec_cwd ctx = Some cwd"
    "build_scheme (case params of Some p \<Rightarrow> p | None \<Rightarrow> scheme_params_default) = Some (Inr sc)"
  shows "hashline_edit_run ops ps ctx params requested edits fs =
    (let joined = resolve_model_path (ps_tilde ps) cwd (ec_display_cwd ctx) requested;
         display = display_cwd_or_cwd cwd (ec_display_cwd ctx);
         answer = map_option (\<lambda>(res, fs'). (Inr res, fs'))
     in case target_of ps ctx cwd requested fs of
          Some target \<Rightarrow> answer (edit_file ops ps ctx cwd requested edits target sc fs)
        | None \<Rightarrow> (case edits of
            [WriteFile s] \<Rightarrow> answer (create_file ops ps ctx cwd requested joined s sc fs)
          | _ \<Rightarrow> Some (Inr (TargetNotFound (format_not_found_error ps fs (path_join display requested) joined cwd
                    display (ec_hints ctx))), fs)))"
  using assms by (simp add: hashline_edit_run_def target_of_def Let_def)

lemma hashline_edit_run_target:
  assumes "edits \<noteq> []" "ec_cwd ctx = Some cwd"
    "build_scheme (case params of Some p \<Rightarrow> p | None \<Rightarrow> scheme_params_default) = Some (Inr sc)"
    "target_of ps ctx cwd requested fs = Some target"
    "edit_file ops ps ctx cwd requested edits target sc fs = Some (rep, fs')"
  shows "hashline_edit_run ops ps ctx params requested edits fs = Some (Inr rep, fs')"
  using assms(4,5) by (simp add: hashline_edit_run_eq [OF assms(1-3)])

text \<open>C23: the edit tool answers every request: no batch, no parameters and no state of the file system make it panic.\<close>

theorem hashline_edit_answers:
  "\<exists>answer fs'. hashline_edit_run ops ps ctx params requested edits fs = Some (answer, fs')"
proof (cases "edits = [] \<or> ec_cwd ctx = None")
  case True
  then show ?thesis by (auto simp: hashline_edit_run_def)
next
  case False
  then obtain cwd where cwd: "edits \<noteq> []" "ec_cwd ctx = Some cwd" by blast
  let ?p = "case params of Some p \<Rightarrow> p | None \<Rightarrow> scheme_params_default"
  obtain b where b: "build_scheme ?p = Some b" using build_scheme_total [of ?p] by blast
  show ?thesis
  proof (cases b)
    case (Inl e)
    then show ?thesis using cwd b by (simp add: hashline_edit_run_def)
  next
    case (Inr sc)
    have "\<exists>fs' rep. edit_file ops ps ctx cwd requested edits target sc fs = Some (rep, fs')"
      "\<exists>fs' rep. create_file ops ps ctx cwd requested target s sc fs = Some (rep, fs')" for target s
      using edit_file_total [OF b [unfolded Inr]] create_file_total [OF b [unfolded Inr]] by fastforce+
    then show ?thesis
      by (auto simp: hashline_edit_run_eq [OF cwd b [unfolded Inr]] Let_def
          split: option.split list.split hashline_op.split)
  qed
qed



text \<open>
  A write to a file that is not there puts the text on the disk before it is checked: a text that is
  refused because it still has anchors in it is written all the same.
\<close>

lemma refused_write_creates_file:
  assumes "ec_cwd ctx = Some cwd" "target_of ps ctx cwd requested fs = None"
    "build_scheme (case params of Some p \<Rightarrow> p | None \<Rightarrow> scheme_params_default) = Some (Inr sc)"
    "detect_anchor_prefix_in_content s = Some n"
  defines "joined \<equiv> resolve_model_path (ps_tilde ps) cwd (ec_display_cwd ctx) requested"
  shows "\<exists>msg. hashline_edit_run mock_ops ps ctx params requested [WriteFile s] fs
    = Some (Inr (InvalidInput msg), fs(components joined \<mapsto> as_bytes s))"
proof -
  obtain e where e: "anchor_content_error (lit ''write'') s n = Some e"
    using content_lines_total [of "lit ''write''" "[]" s] assms(4) by (auto simp: content_lines_def)
  then have "he_kind e = InvalidInputKind" by (auto simp: anchor_content_error_def checked_sub_def Let_def split: if_splits)
  then show ?thesis using assms(2,4) e
    by (simp add: hashline_edit_run_eq [OF _ assms(1,3)] create_file_def mock_write apply_edits_def
        to_search_replace_def error_result_def Let_def joined_def)
qed

section \<open>Anchors in search results\<close>

definition found_line :: "nat \<times> rune \<times> rstr \<Rightarrow> rstr" where
  "found_line h = (case h of (n, sep, s) \<Rightarrow> show_nat n @ sep # s)"

definition anchored_line :: "anchor_scheme \<Rightarrow> rstr list \<Rightarrow> nat \<times> rune \<times> rstr \<Rightarrow> rstr" where
  "anchored_line sc ls h = (case h of (n, sep, s) \<Rightarrow> anchor_render (sc_generate sc ls ! (n - 1)) @ sep # s)"

text \<open>A match or a context line of a file with \<open>len\<close> lines, whose text does not end in \<open>>\<close>.\<close>

definition hit_ok :: "nat \<Rightarrow> nat \<times> rune \<times> rstr \<Rightarrow> bool" where
  "hit_ok len h = (case h of (n, sep, s) \<Rightarrow>
     0 < n \<and> n \<le> len \<and> (sep = 58 \<or> sep = 45) \<and> last (sep # s) \<noteq> 10 \<and> last (sep # s) \<noteq> 62)"

definition header_ok :: "rstr \<Rightarrow> bool" where
  "header_ok f \<longleftrightarrow> parse_rg_line f = None \<and> \<not> starts_with f (lit ''Found '') \<and> \<not> starts_with f (lit ''... ['') \<and>
     f \<noteq> lit ''--'' \<and> f \<noteq> [] \<and> last f \<noteq> 10 \<and> last f \<noteq> 62"

definition cache_ok :: "(component list \<rightharpoonup> bytes) \<Rightarrow> anchor_scheme \<Rightarrow> anchor_cache \<Rightarrow> bool" where
  "cache_ok m sc cache \<longleftrightarrow>
     (\<forall>p as. cache p = Some as \<longrightarrow> (\<exists>d. m p = Some d \<and> as = sc_generate sc (anchor_lines (from_utf8_lossy d))))"

lemma cache_empty: "cache_ok m sc Map.empty"
  by (simp add: cache_ok_def)

lemma parse_found_line:
  "n < 2 ^ 64 \<Longrightarrow> sep = 58 \<or> sep = 45 \<Longrightarrow> parse_rg_line (found_line (n, sep, s)) = Some (n, sep, s)"
proof -
  assume *: "n < 2 ^ 64" "sep = 58 \<or> sep = 45"
  have "\<forall>c \<in> set (show_nat n). is_digit c" using show_nat_digits [of n] by (simp add: is_digit_def)
  moreover have "\<not> is_digit sep" using *(2) by (auto simp: is_digit_def)
  ultimately have "takeWhile is_digit (show_nat n @ sep # s) = show_nat n" "dropWhile is_digit (show_nat n @ sep # s) = sep # s"
    by (simp_all add: takeWhile_append dropWhile_append)
  then show ?thesis using * parse_show_nat [OF *(1)] by (auto simp: parse_rg_line_def found_line_def)
qed

lemma get_or_generate_ok:
  assumes "shows_files ops fs m" "cache_ok m sc cache" "m (components p) = Some d"
  shows "\<exists>cache'. get_or_generate ops fs sc p cache = (Some (sc_generate sc (anchor_lines (from_utf8_lossy d))), cache')
    \<and> cache_ok m sc cache'"
proof (cases "components p \<in> dom cache")
  case True
  then show ?thesis using assms(2,3) by (fastforce simp: get_or_generate_def cache_ok_def)
next
  case False
  have "file_contents ops fs p = Some d" using assms(1,3) by (simp add: shows_files_def)
  then have "read_file ops fs p = Inr d" by (auto simp: file_contents_def split: sum.splits)
  then show ?thesis using False assms(2,3) by (auto simp: get_or_generate_def cache_ok_def)
qed

lemma anchored_last:
  "hit_ok len h \<Longrightarrow> \<not> ends_with (r @ anchored_line sc ls h) [10] \<and> \<not> ends_with (r @ anchored_line sc ls h) [62]"
proof -
  have *: "ends_with (xs @ ys) [c] \<longleftrightarrow> last ys = c" if "ys \<noteq> []" for xs ys :: rstr and c
    using that by (cases ys rule: rev_cases) (auto simp: ends_with_def starts_with_def)
  assume "hit_ok len h"
  then show ?thesis
    using * [of "anchored_line sc ls h" r] by (cases h) (auto simp: hit_ok_def anchored_line_def split: if_splits)
qed

context anchor_laws
begin

text \<open>One numbered line, after the newline that may be missing.\<close>

lemma inject_found:
  assumes "shows_files ops fs m" "cache_ok m sc (is_cache st)" "is_current st = Some f" "m (components f) = Some d"
    "hit_ok (length ls) h" "length ls < 2 ^ 64" "ls = anchor_lines (from_utf8_lossy d)"
  shows "\<exists>cache. inject_step ops fs cwd sc (found_line h) st = Some (st\<lparr>is_cache := cache, is_result :=
      (if \<not> ends_with (is_result st) [10] \<and> \<not> ends_with (is_result st) [62] then is_result st @ [10]
       else is_result st) @ anchored_line sc ls h\<rparr>) \<and> cache_ok m sc cache"
proof -
  obtain n sep s where h: "h = (n, sep, s)" by (cases h)
  have n: "0 < n" "n - 1 < length ls" "sep = 58 \<or> sep = 45" "n < 2 ^ 64"
    using assms(5,6) by (auto simp: hit_ok_def h)
  obtain cache where cache: "get_or_generate ops fs sc f (is_cache st) = (Some (sc_generate sc ls), cache)"
      "cache_ok m sc cache"
    using get_or_generate_ok [OF assms(1,2,4)] assms(7) by blast
  have line: "found_line h \<noteq> lit ''--''"
    using show_nat_digits [of n] by (cases "show_nat n") (auto simp: found_line_def h str_simps)
  have render: "anchored_line sc ls h = show_nat n @ [58] @ anchor_suffix (sc_generate sc ls ! (n - 1)) @ [sep] @ s"
    using n by (simp add: anchored_line_def h anchor_render_suffix generate_line)
  show ?thesis unfolding render
    using cache n line parse_found_line [OF n(4,3), of s] assms(3)
    by (intro exI [of _ cache]) (simp add: inject_step_def Let_def checked_sub_def nth_opt_def h)
qed

lemma inject_all_found:
  assumes "shows_files ops fs m" "m (components f) = Some d" "length ls < 2 ^ 64" "ls = anchor_lines (from_utf8_lossy d)"
  shows "cache_ok m sc (is_cache st) \<Longrightarrow> is_current st = Some f \<Longrightarrow>
    \<not> ends_with (is_result st) [10] \<Longrightarrow> \<not> ends_with (is_result st) [62] \<Longrightarrow> \<forall>h \<in> set hits. hit_ok (length ls) h \<Longrightarrow>
    \<exists>cache. inject_lines ops fs cwd sc (map found_line hits) st
      = Some (st\<lparr>is_cache := cache, is_result := is_result st @ concat (map (\<lambda>h. 10 # anchored_line sc ls h) hits)\<rparr>)"
proof (induction hits arbitrary: st)
  case Nil
  then show ?case by (intro exI [of _ "is_cache st"]) simp
next
  case (Cons h hits)
  let ?r = "is_result st @ 10 # anchored_line sc ls h"
  obtain cache where cache: "inject_step ops fs cwd sc (found_line h) st
      = Some (st\<lparr>is_cache := cache, is_result := ?r\<rparr>)" "cache_ok m sc cache"
    using inject_found [OF assms(1) Cons.prems(1,2) assms(2) _ assms(3,4), of h cwd] Cons.prems(3-5) by auto
  have "\<not> ends_with ?r [10]" "\<not> ends_with ?r [62]"
    using anchored_last [of "length ls" h "is_result st @ [10]"] Cons.prems(5) by auto
  then show ?case
    using Cons.IH [of "st\<lparr>is_cache := cache, is_result := ?r\<rparr>"] Cons.prems cache by simp
qed

end

lemma join_concat: "join [c] (x # xs) = x @ concat (map ((#) c) xs)"
  by (induction xs arbitrary: x) auto



text \<open>
  Where the code is wrong: a text that ends in \<open>>\<close> is not followed by a newline, so that the next
  line is glued to it; and a line that is numbered zero, such as the header of a file \<open>0-notes\<close>, makes
  the search panic when it comes after another file.
\<close>

lemma newline_lost_after_angle:
  assumes "ends_with (is_result st) [62]"
  shows "inject_step ops fs cwd sc (lit ''--'') st = Some (st\<lparr>is_result := is_result st @ lit ''--''\<rparr>)"
  using assms by (simp add: inject_step_def)

lemma line_zero_panics:
  assumes "is_current st = Some p" "get_or_generate ops fs sc p (is_cache st) = (Some (a # as), cache)"
  shows "inject_step ops fs cwd sc (lit ''0-notes'') st = None"
proof -
  have "parse_rg_line (lit ''0-notes'') = Some (0, 45, lit ''notes'')"
    by (simp add: parse_rg_line_def str_simps is_digit_def parse_unsigned_def digits_value_def)
  moreover have "lit ''0-notes'' \<noteq> lit ''--''" by (simp add: str_simps)
  ultimately show ?thesis using assms by (simp add: inject_step_def Let_def checked_sub_def)
qed

end
