(* ===== verification/Confusables.thy ===== *)
theory Confusables
  imports ByteText
begin

text \<open>
  Characters that look like ASCII (\<^verbatim>\<open>ds-tools/src/util/unicode_confusables.rs\<close>): the table, the text with
  every such character replaced, their places, and the map from byte offsets of the replaced text
  back to byte offsets of the text.
\<close>

section \<open>The table\<close>

definition CONFUSABLE_MAP :: "(rune \<times> rstr) list" where
  "CONFUSABLE_MAP =
     [(8220, [34]), (8221, [34]), (8216, [39]), (8217, [39]), (8212, [45, 45]), (8211, [45]),
      (8230, [46, 46, 46]), (160, [32])]"

record confusable_hit =
  ch_byte_offset :: nat
  ch_char :: rune
  ch_ascii :: rstr
  ch_line :: nat

definition lookup_confusable :: "rune \<Rightarrow> rstr option" where
  "lookup_confusable c = map_option snd (List.find (\<lambda>(ch, r). ch = c) CONFUSABLE_MAP)"

definition has_confusables :: "rstr \<Rightarrow> bool" where
  "has_confusables s \<longleftrightarrow> list_ex (\<lambda>c. lookup_confusable c \<noteq> None) s"

definition push_normal :: "rune \<Rightarrow> rstr" where
  "push_normal c = (case lookup_confusable c of Some r \<Rightarrow> r | None \<Rightarrow> [c])"

definition normalize_confusables :: "rstr \<Rightarrow> rstr" where
  "normalize_confusables s = concat (map push_normal s)"

fun detect_loop :: "nat \<Rightarrow> nat \<Rightarrow> rstr \<Rightarrow> confusable_hit list" where
  "detect_loop off line [] = []"
| "detect_loop off line (c # s) =
     (case lookup_confusable c of
        Some r \<Rightarrow> [\<lparr>ch_byte_offset = off, ch_char = c, ch_ascii = r, ch_line = line\<rparr>]
      | None \<Rightarrow> []) @ detect_loop (off + len_utf8 c) (if c = 10 then line + 1 else line) s"

definition detect_confusables :: "rstr \<Rightarrow> confusable_hit list" where
  "detect_confusables s = detect_loop 0 1 s"

fun offset_loop :: "nat \<Rightarrow> rstr \<Rightarrow> rstr \<Rightarrow> nat list \<Rightarrow> rstr \<times> nat list" where
  "offset_loop off [] normalized offset_map = (normalized, offset_map)"
| "offset_loop off (c # s) normalized offset_map =
     (case lookup_confusable c of
        Some r \<Rightarrow> offset_loop (off + len_utf8 c) s (normalized @ r) (offset_map @ replicate (str_len r) off)
      | None \<Rightarrow> offset_loop (off + len_utf8 c) s (normalized @ [c]) (offset_map @ map ((+) off) [0..<len_utf8 c]))"

definition build_offset_map :: "rstr \<Rightarrow> rstr \<times> nat list" where
  "build_offset_map s = (case offset_loop 0 s [] [] of (normalized, offset_map) \<Rightarrow> (normalized, offset_map @ [str_len s]))"

section \<open>Replaced text\<close>

lemma lookup_cases:
  "lookup_confusable c = None \<or> (128 \<le> c \<and> (\<exists>r. lookup_confusable c = Some r \<and> r \<noteq> [] \<and> (\<forall>x \<in> set r. x < 128 \<and> x \<noteq> 10)))"
  by (simp add: lookup_confusable_def CONFUSABLE_MAP_def) 

lemma push_normal_ne [simp]: "push_normal c \<noteq> []"
  using lookup_cases [of c] by (auto simp: push_normal_def)

lemma push_normal_ascii: "c < 128 \<Longrightarrow> push_normal c = [c]"
  using lookup_cases [of c] by (auto simp: push_normal_def)

lemma normalize_simps [simp]:
  "normalize_confusables [] = []" "normalize_confusables (c # s) = push_normal c @ normalize_confusables s"
  "normalize_confusables (s @ t) = normalize_confusables s @ normalize_confusables t"
  by (simp_all add: normalize_confusables_def)

lemma normalize_Nil_iff [simp]: "normalize_confusables s = [] \<longleftrightarrow> s = []"
  by (cases s) auto

lemma normalize_no_confusables: "\<not> has_confusables s \<longleftrightarrow> (\<forall>c \<in> set s. lookup_confusable c = None)"
  by (auto simp: has_confusables_def list_ex_iff)

lemma lookup_replacement: "lookup_confusable c = Some r \<Longrightarrow> x \<in> set r \<Longrightarrow> lookup_confusable x = None"
  using lookup_cases [of c] lookup_cases [of x] by (auto simp: not_le)

lemma no_confusables_normalize: "\<not> has_confusables (normalize_confusables s)"
  unfolding normalize_no_confusables
  by (induction s) (auto simp: push_normal_def lookup_replacement split: option.splits)

lemma normalize_id: "\<not> has_confusables s \<Longrightarrow> normalize_confusables s = s"
  unfolding normalize_no_confusables by (induction s) (auto simp: push_normal_def)

section \<open>The map of offsets\<close>

text \<open>The entries for one character at an offset, and for a text from an offset on.\<close>

definition char_entries :: "nat \<Rightarrow> rune \<Rightarrow> nat list" where
  "char_entries off c =
     (case lookup_confusable c of Some r \<Rightarrow> replicate (str_len r) off | None \<Rightarrow> map ((+) off) [0..<len_utf8 c])"

fun entries :: "nat \<Rightarrow> rstr \<Rightarrow> nat list" where
  "entries off [] = []"
| "entries off (c # s) = char_entries off c @ entries (off + len_utf8 c) s"

lemma offset_loop_entries:
  "offset_loop off s normalized offset_map = (normalized @ normalize_confusables s, offset_map @ entries off s)"
  by (induction off s normalized offset_map rule: offset_loop.induct)
    (auto simp: char_entries_def push_normal_def split: option.splits)

lemma build_offset_map_eq: "build_offset_map s = (normalize_confusables s, entries 0 s @ [str_len s])"
  by (simp add: build_offset_map_def offset_loop_entries)

lemma length_char_entries: "length (char_entries off c) = str_len (push_normal c)"
  by (simp add: char_entries_def push_normal_def split: option.splits)

lemma entries_append: "entries off (s @ t) = entries off s @ entries (off + str_len s) t"
  by (induction s arbitrary: off) (simp_all add: add.assoc)

lemma length_entries [simp]: "length (entries off s) = str_len (normalize_confusables s)"
  by (induction s arbitrary: off) (simp_all add: length_char_entries)

lemma char_entries_nth:
  assumes "i < str_len (push_normal c)"
  shows "char_entries off c ! i = off + (if lookup_confusable c = None then i else 0)"
  using assms by (auto simp: char_entries_def push_normal_def split: option.splits)

lemma entries_range: "x \<in> set (entries off s) \<Longrightarrow> off \<le> x \<and> x < off + str_len s"
proof (induction s arbitrary: off)
  case (Cons c s)
  have "off \<le> x \<and> x < off + len_utf8 c" if "x \<in> set (char_entries off c)"
    using that len_utf8_bounds(1) [of c] by (auto simp: char_entries_def split: option.splits)
  then show ?case using Cons.prems Cons.IH [of "off + len_utf8 c"] len_utf8_bounds(1) [of c] by fastforce
qed simp

lemma entries_sorted: "sorted (entries off s @ [off + str_len s])"
proof (induction s arbitrary: off)
  case (Cons c s)
  have "sorted (char_entries off c)"
    by (auto simp: char_entries_def sorted_iff_nth_mono split: option.splits)
  moreover have "x \<le> off + len_utf8 c" if "x \<in> set (char_entries off c)" for x
    using that by (auto simp: char_entries_def split: option.splits)
  moreover have "off + len_utf8 c \<le> y" if "y \<in> set (entries (off + len_utf8 c) s @ [off + len_utf8 c + str_len s])" for y
    using that entries_range [of y "off + len_utf8 c" s] by auto
  ultimately show ?case
    using Cons [of "off + len_utf8 c"] by (fastforce simp: sorted_append add.assoc intro: order_trans)
qed simp

text \<open>
  Where an offset between two characters of the replaced text goes: to the start of the character
  of the text inside whose replacement it lies.
\<close>

lemma offset_at_boundary:
  assumes "normalize_confusables s = x @ y"
  shows "\<exists>u v z. s = u @ v \<and> x = normalize_confusables u @ z \<and>
    (entries off s @ [off + str_len s]) ! str_len x = off + str_len u \<and>
    (z = [] \<or> (\<exists>c w. v = c # w \<and> lookup_confusable c \<noteq> None \<and> strict_prefix z (push_normal c)))"
  using assms
proof (induction s arbitrary: off x)
  case (Cons c s)
  consider (within) "strict_prefix x (push_normal c)" | (behind) x' where "x = push_normal c @ x'" "x' @ y = normalize_confusables s"
    using Cons.prems by (cases "prefix (push_normal c) x")
      (auto simp: append_eq_append_conv2 strict_prefix_def prefix_def)
  then show ?case
  proof cases
    case within
    then obtain w where w: "push_normal c = x @ w" "w \<noteq> []" by (auto simp: strict_prefix_def prefix_def)
    then have "str_len x < str_len (push_normal c)" by simp
    moreover have "x = []" if "lookup_confusable c = None" using w that by (cases x) (auto simp: push_normal_def)
    ultimately have "(entries off (c # s) @ [off + str_len (c # s)]) ! str_len x = off"
      by (auto simp: nth_append length_char_entries char_entries_nth)
    then show ?thesis
      using within \<open>lookup_confusable c = None \<Longrightarrow> x = []\<close>
      by (intro exI [of _ "[]"] exI [of _ "c # s"] exI [of _ x]) auto
  next
    case behind
    obtain u v z where uv: "s = u @ v" "x' = normalize_confusables u @ z"
      "(entries (off + len_utf8 c) s @ [off + len_utf8 c + str_len s]) ! str_len x' = off + len_utf8 c + str_len u"
      "z = [] \<or> (\<exists>d w. v = d # w \<and> lookup_confusable d \<noteq> None \<and> strict_prefix z (push_normal d))"
      using Cons.IH [of x' "off + len_utf8 c"] behind(2) by metis
    have "(entries off (c # s) @ [off + str_len (c # s)]) ! str_len x = off + str_len (c # u)"
      using uv(3) by (simp add: behind(1) nth_append length_char_entries add.assoc)
    then show ?thesis
      using uv behind(1) by (intro exI [of _ "c # u"] exI [of _ v] exI [of _ z]) auto
  qed
qed simp

lemmas confusable_eval = char_entries_def push_normal_def lookup_confusable_def CONFUSABLE_MAP_def len_utf8_def numeral_2_eq_2
  numeral_3_eq_3

text \<open>C28: the map of offsets is what its consumers rely on: it has an entry for every offset of the replaced text and one
  past it, starts at 0, ends at the length of the text, never decreases, and takes the place between two characters of the
  text to that place, so that a span of whole characters is found again.
\<close>

theorem offset_map_sound:
  assumes "build_offset_map s = (normalized, offset_map)"
  shows "normalized = normalize_confusables s \<and> length offset_map = str_len normalized + 1 \<and> hd offset_map = 0 \<and>
    last offset_map = str_len s \<and> sorted offset_map \<and>
    (\<forall>u r v. s = u @ r @ v \<longrightarrow>
       str_slice s (offset_map ! str_len (normalize_confusables u)) (offset_map ! str_len (normalize_confusables (u @ r))) = Some r)"
proof -
  have om: "normalized = normalize_confusables s" "offset_map = entries 0 s @ [str_len s]"
    using assms by (simp_all add: build_offset_map_eq)
  have place: "offset_map ! str_len (normalize_confusables u) = str_len u" if "s = u @ v" for u v
  proof (cases v)
    case (Cons c w)
    then show ?thesis
      using that char_entries_nth [of 0 c "str_len u"] by (simp add: om(2) entries_append nth_append length_char_entries)
  qed (use that in \<open>simp add: om(2) nth_append\<close>)
  have "str_slice s (offset_map ! str_len (normalize_confusables u)) (offset_map ! str_len (normalize_confusables (u @ r))) = Some r"
    if "s = u @ r @ v" for u r v
    using place [of u "r @ v"] place [of "u @ r" v] that str_slice_middle [of u r v] by simp
  moreover have "hd offset_map = 0" using place [of "[]" s] by (simp add: om(2) hd_conv_nth)
  ultimately show ?thesis using entries_sorted [of 0 s] by (simp add: om)
qed

lemma offset_map_sound_witness:
  "str_slice [97, 8212, 98] ([0, 1, 1, 4, 5] ! str_len (normalize_confusables [97]))
     ([0, 1, 1, 4, 5] ! str_len (normalize_confusables ([97] @ [8212]))) = Some [8212]"
proof -
  have "build_offset_map [97, 8212, 98] = ([97, 45, 45, 98], [0, 1, 1, 4, 5])"
    by (simp add: build_offset_map_eq confusable_eval)
  from offset_map_sound [OF this, THEN conjunct2, THEN conjunct2, THEN conjunct2, THEN conjunct2, THEN conjunct2,
      THEN spec [of _ "[97]"], THEN spec [of _ "[8212]"], THEN spec [of _ "[98]"]]
  show ?thesis by (rule mp) simp
qed

end
