(* ===== verification/SearchReplace.thy ===== *)
theory SearchReplace
  imports Confusables EditOutput ModelPath PatchTool "HOL-Library.Monad_Syntax"
begin

text \<open>
  Editing by text (\<^verbatim>\<open>ds_build/search_replace/mod.rs\<close>, \<^verbatim>\<open>helpers.rs\<close>, \<^verbatim>\<open>versions/legacy_0_4_10.rs\<close>): the text
  to replace is looked up exactly, and if that fails and the parameter allows it, up to characters
  that look alike; it must occur once unless every occurrence is to be replaced. An empty text to
  replace writes the whole file. \<open>None\<close> is a panic. A call returns its result, the file system and the
  notifications it sent; the template renderer, the file filter and the services around paths are
  arguments.
\<close>

section \<open>Input and resources\<close>

record search_replace_input =
  si_file_path :: rstr
  si_old_string :: rstr
  si_new_string :: rstr
  si_replace_all :: bool

record search_replace_params =
  sp_skip_read_before_edit :: bool
  sp_empty_old_string_does_not_override :: bool
  sp_unicode_normalized_fallback :: bool
  sp_include_user_edit_hint :: bool

datatype search_replace_version = CurrentVersion | Legacy0_4_10

definition from_contract :: "rstr option \<Rightarrow> search_replace_version" where
  "from_contract v = (if v = Some (lit ''legacy-0.4.10'') then Legacy0_4_10 else CurrentVersion)"

definition is_legacy :: "search_replace_version \<Rightarrow> bool" where
  "is_legacy v \<longleftrightarrow> v = Legacy0_4_10"

record query_tools =
  qt_jq :: "rstr option"
  qt_python :: "rstr option"
  qt_sed :: "rstr option"
  qt_cut :: "rstr option"

definition wrap_tools :: "rstr option list \<Rightarrow> rstr list" where
  "wrap_tools tools = map (\<lambda>t. [96] @ t @ [96]) (List.map_filter id tools)"

definition edit_tools :: "query_tools \<Rightarrow> rstr list" where
  "edit_tools q = wrap_tools [qt_python q, qt_sed q]"

definition examples_clause :: "rstr list \<Rightarrow> rstr" where
  "examples_clause tools =
     (case tools of
        [] \<Rightarrow> []
      | [a] \<Rightarrow> lit '' (e.g. '' @ a @ lit '')''
      | [a, b] \<Rightarrow> lit '' (e.g. '' @ a @ lit '' or '' @ b @ lit '')''
      | _ \<Rightarrow> lit '' (e.g. '' @ join (lit '', '') (butlast tools) @ lit '', or '' @ last tools @ lit '')'')"

record 'fs edit_services =
  es_paths :: "'fs path_services"
  es_canonicalize :: "'fs \<Rightarrow> rstr \<Rightarrow> io_error_kind + rstr"
  es_is_dir :: "'fs \<Rightarrow> rstr \<Rightarrow> bool"
  es_exists :: "'fs \<Rightarrow> rstr \<Rightarrow> bool"
  es_mkdirs :: "'fs mkdirs"
  es_query_tools :: query_tools

record replace_context = edit_context +
  rc_cwd_override :: "rstr option"
  rc_version :: "rstr option"
  rc_call_id :: rstr
  rc_params :: "search_replace_params option"
  rc_renderer :: "(rstr \<Rightarrow> rstr + rstr) option"
  rc_respect_gitignore :: "bool option"
  rc_gitignore :: "(rstr \<Rightarrow> bool) option"

text \<open>\<^verbatim>\<open>TemplateRenderer::resolve\<close>.\<close>

definition resolve_template :: "replace_context \<Rightarrow> string \<Rightarrow> edit_tool_error + rstr" where
  "resolve_template ctx template =
     (case rc_renderer ctx of
        None \<Rightarrow> Inl (MissingResource (lit ''TemplateRenderer''))
      | Some render \<Rightarrow> (case render (lit template) of Inl e \<Rightarrow> Inl (InvalidArguments e) | Inr t \<Rightarrow> Inr t))"

section \<open>Helpers\<close>

definition CONTEXT_LINES :: nat where
  "CONTEXT_LINES = 3"

record line_range =
  lr_start_line :: nat
  lr_end_line :: nat

definition compute_line_range :: "rstr \<Rightarrow> nat \<Rightarrow> rstr \<Rightarrow> line_range option" where
  "compute_line_range whole start_pos inserted =
     map_option (\<lambda>before.
       let start_line = count_char 10 before;
           lines_in_inserted = max (length (split_inclusive 10 inserted)) 1
       in \<lparr>lr_start_line = start_line, lr_end_line = start_line + lines_in_inserted - 1\<rparr>)
     (str_slice_to whole start_pos)"

definition number_lines :: "rstr list \<Rightarrow> rstr list" where
  "number_lines ls = map (\<lambda>(n, l). show_nat (n + 1) @ [8594] @ l) (enumerate 0 ls)"

definition render_snippet :: "rstr \<Rightarrow> rstr \<Rightarrow> nat \<Rightarrow> nat \<Rightarrow> (rstr \<times> rstr \<times> rstr) option" where
  "render_snippet whole new_string start_pos context_size = do {
     range \<leftarrow> compute_line_range whole start_pos new_string;
     let start_line = lr_start_line range;
     let end_line = lr_end_line range;
     let ls = split_inclusive 10 whole;
     let snippet_start = start_line - context_size;
     let snippet_end = min (end_line + context_size) (length ls - 1);
     before_context \<leftarrow> (if snippet_start < start_line then map_option concat (slice_opt ls snippet_start start_line)
                        else Some []);
     after_context \<leftarrow> (if end_line < snippet_end then map_option concat (slice_opt ls (end_line + 1) (snippet_end + 1))
                       else Some []);
     n \<leftarrow> checked_sub snippet_end snippet_start;
     Some (concat (take (n + 1) (drop snippet_start (number_lines ls))), before_context, after_context)
   }"

fun replace_loop :: "rstr \<Rightarrow> rstr \<Rightarrow> rstr \<Rightarrow> nat list \<Rightarrow> nat \<Rightarrow> rstr \<Rightarrow> nat list \<Rightarrow> (rstr \<times> nat list) option" where
  "replace_loop whole old_string new_string [] last_end acc new_positions =
     map_option (\<lambda>rest. (acc @ rest, new_positions)) (str_slice_from whole last_end)"
| "replace_loop whole old_string new_string (pos # positions) last_end acc new_positions = do {
     piece \<leftarrow> str_slice whole last_end pos;
     let acc = acc @ piece;
     replace_loop whole old_string new_string positions (pos + str_len old_string) (acc @ new_string)
       (new_positions @ [str_len acc])
   }"

definition replace_using_positions :: "rstr \<Rightarrow> nat list \<Rightarrow> rstr \<Rightarrow> rstr \<Rightarrow> (rstr \<times> nat list) option" where
  "replace_using_positions whole positions old_string new_string = replace_loop whole old_string new_string positions 0 [] []"

definition edit_detail :: "rstr \<Rightarrow> rstr \<Rightarrow> rstr \<Rightarrow> nat \<Rightarrow> nat \<Rightarrow> search_replace_edit_detail option" where
  "edit_detail whole old_string new_string context_lines start_pos = do {
     (snippet, context_before, context_after) \<leftarrow> render_snippet whole new_string start_pos context_lines;
     range \<leftarrow> compute_line_range whole start_pos new_string;
     before \<leftarrow> str_slice_to whole start_pos;
     let line_start = (case str_rfind before [10] of Some i \<Rightarrow> i + 1 | None \<Rightarrow> 0);
     line_prefix \<leftarrow> str_slice whole line_start start_pos;
     Some \<lparr>sd_old_string = old_string, sd_old_line = lr_start_line range + 1, sd_new_string = new_string,
           sd_new_line = lr_start_line range + 1, sd_context_before = context_before,
           sd_context_after = context_after, sd_line_prefix = line_prefix\<rparr>
   }"

definition build_edit_details :: "rstr \<Rightarrow> rstr \<Rightarrow> rstr \<Rightarrow> nat list \<Rightarrow> nat \<Rightarrow> search_replace_edit_detail list option" where
  "build_edit_details whole old_string new_string new_positions context_lines =
     those (map (edit_detail whole old_string new_string context_lines) new_positions)"

section \<open>Matching up to characters that look alike\<close>

record normalized_match =
  nm_original_start :: nat
  nm_original_len :: nat

datatype normalized_match_result = NoMatch | Matches "normalized_match list" | Ambiguous

fun validate_loop :: "rstr \<Rightarrow> nat list \<Rightarrow> rstr \<Rightarrow> nat list \<Rightarrow> normalized_match list \<Rightarrow> bool
    \<Rightarrow> (normalized_match list \<times> bool) option" where
  "validate_loop whole offset_map norm_pattern [] validated rejected = Some (validated, rejected)"
| "validate_loop whole offset_map norm_pattern (norm_start # starts) validated rejected = do {
     orig_start \<leftarrow> nth_opt offset_map norm_start;
     orig_end \<leftarrow> nth_opt offset_map (norm_start + str_len norm_pattern);
     if orig_end \<le> orig_start then validate_loop whole offset_map norm_pattern starts validated True
     else do {
       orig_slice \<leftarrow> str_slice whole orig_start orig_end;
       if normalize_confusables orig_slice \<noteq> norm_pattern
       then validate_loop whole offset_map norm_pattern starts validated True
       else validate_loop whole offset_map norm_pattern starts
              (validated @ [\<lparr>nm_original_start = orig_start, nm_original_len = orig_end - orig_start\<rparr>]) rejected
     }
   }"

fun windows_overlap :: "normalized_match list \<Rightarrow> bool" where
  "windows_overlap (m # n # ms) \<longleftrightarrow>
     nm_original_start n < nm_original_start m + nm_original_len m \<or> windows_overlap (n # ms)"
| "windows_overlap ms \<longleftrightarrow> False"

definition find_normalized_match_positions :: "rstr \<Rightarrow> rstr \<Rightarrow> normalized_match_result option" where
  "find_normalized_match_positions whole pattern =
     (case build_offset_map whole of
        (norm_text, offset_map) \<Rightarrow>
          (let norm_pattern = normalize_confusables pattern
           in if norm_pattern = [] then Some NoMatch
              else do {
                (validated, rejected) \<leftarrow>
                  validate_loop whole offset_map norm_pattern (match_indices norm_text norm_pattern) [] False;
                Some (if validated = [] then (if rejected then Ambiguous else NoMatch)
                      else if windows_overlap validated then Ambiguous
                      else Matches validated)
              }))"

fun replace_normalized_loop :: "rstr \<Rightarrow> rstr \<Rightarrow> normalized_match list \<Rightarrow> nat \<Rightarrow> rstr \<Rightarrow> nat list
    \<Rightarrow> (rstr \<times> nat list) option" where
  "replace_normalized_loop whole new_string [] last_end acc new_positions =
     map_option (\<lambda>rest. (acc @ rest, new_positions)) (str_slice_from whole last_end)"
| "replace_normalized_loop whole new_string (m # ms) last_end acc new_positions = do {
     piece \<leftarrow> str_slice whole last_end (nm_original_start m);
     let acc = acc @ piece;
     replace_normalized_loop whole new_string ms (nm_original_start m + nm_original_len m) (acc @ new_string)
       (new_positions @ [str_len acc])
   }"

definition replace_normalized_matches :: "rstr \<Rightarrow> normalized_match list \<Rightarrow> rstr \<Rightarrow> (rstr \<times> nat list) option" where
  "replace_normalized_matches whole matches new_string = replace_normalized_loop whole new_string matches 0 [] []"

section \<open>Hints\<close>

definition TRUNCATION_MARKER :: rstr where
  "TRUNCATION_MARKER = [8230]"

definition truncate_str :: "rstr \<Rightarrow> nat \<Rightarrow> rstr option" where
  "truncate_str s max_bytes =
     (if str_len s \<le> max_bytes then Some s else str_slice_to s (floor_loop s max_bytes))"

definition truncate_str_with_marker :: "rstr \<Rightarrow> nat \<Rightarrow> rstr option" where
  "truncate_str_with_marker s max_bytes =
     (if str_len s \<le> max_bytes then Some s
      else if max_bytes < str_len TRUNCATION_MARKER then truncate_str s max_bytes
      else map_option (\<lambda>p. p @ TRUNCATION_MARKER)
             (str_slice_to s (floor_loop s (max_bytes - str_len TRUNCATION_MARKER))))"

text \<open>\<^verbatim>\<open>max_by_key\<close>: the last of the longest.\<close>

definition longest_word :: "rstr list \<Rightarrow> rstr option" where
  "longest_word ws =
     foldl (\<lambda>best w. case best of None \<Rightarrow> Some w | Some b \<Rightarrow> if str_len b \<le> str_len w then Some w else best) None ws"

definition build_nearest_match_hint :: "rstr \<Rightarrow> rstr \<Rightarrow> rstr option" where
  "build_nearest_match_hint file old_string =
     (let first = (case lines old_string of l # _ \<Rightarrow> l | [] \<Rightarrow> []);
          keyword = (case longest_word (split_whitespace first) of Some w \<Rightarrow> w | None \<Rightarrow> [])
      in if keyword = [] then Some []
         else (case position (\<lambda>l. str_contains l keyword) (lines file) of
                 None \<Rightarrow> Some []
               | Some i \<Rightarrow>
                   truncate_str_with_marker
                     ([10, 10] @ lit ''Nearest match: line '' @ show_nat (i + 1) @ lit '': '' @ trim_end (lines file ! i))
                     200))"

definition MAX_LISTED_LINES :: nat where
  "MAX_LISTED_LINES = 8"

definition line_summary :: "nat list \<Rightarrow> rstr" where
  "line_summary affected =
     (if length affected \<le> MAX_LISTED_LINES then join (lit '', '') (map show_nat affected)
      else join (lit '', '') (map show_nat (take MAX_LISTED_LINES affected)) @ lit '' (and '' @
           show_nat (length affected - MAX_LISTED_LINES) @ lit '' more)'')"

definition build_confusable_hint :: "rstr \<Rightarrow> rstr \<Rightarrow> query_tools \<Rightarrow> rstr \<Rightarrow> rstr \<Rightarrow> rstr \<Rightarrow> rstr option option" where
  "build_confusable_hint file old_string tools read_tool_name old_string_param execute_tool_name =
     (if \<not> has_confusables file then Some None
      else (case build_offset_map file of
              (norm_file, offset_map) \<Rightarrow>
                (let norm_old = normalize_confusables old_string
                 in case str_find norm_file norm_old of
                      None \<Rightarrow> Some None
                    | Some norm_start \<Rightarrow> do {
                        orig_start \<leftarrow> nth_opt offset_map norm_start;
                        orig_end \<leftarrow> nth_opt offset_map (norm_start + str_len norm_old);
                        before_start \<leftarrow> str_slice_to file orig_start;
                        before_end \<leftarrow> str_slice_to file orig_end;
                        let match_start_line = count_char 10 before_start + 1;
                        let match_end_line = count_char 10 before_end + 1;
                        let affected = remdups_adj (map ch_line (filter (\<lambda>h.
                              match_start_line \<le> ch_line h \<and> ch_line h \<le> match_end_line) (detect_confusables file)));
                        Some (if affected = [] then None
                              else Some ([10, 10] @ lit ''The nearest matching region contains Unicode typography characters '' @
                                lit ''(smart quotes, em-dashes, etc.) on lines '' @ line_summary affected @
                                lit '' that look identical to ASCII'' @
                                (if read_tool_name = [] then [] else lit '' in '' @ read_tool_name @ lit '' output'') @
                                lit '' but differ at the byte level. Re-read the file and use a shorter '' @
                                (if old_string_param = [] then lit ''old_string'' else old_string_param) @
                                lit '' anchored on nearby ASCII-only context'' @
                                (if edit_tools tools = [] \<or> execute_tool_name = [] then []
                                 else lit '', or use '' @ execute_tool_name @ lit '' with a short script'' @
                                      examples_clause (edit_tools tools) @ lit '' to edit the file directly'') @
                                lit ''.''))
                      })))"

section \<open>The tool\<close>

type_synonym 'fs edit_run = "(edit_tool_error + search_replace_output) \<times> 'fs \<times> file_written list"

definition NAME_MAX :: nat where
  "NAME_MAX = 255"

definition validate_path_length :: "rstr \<Rightarrow> search_replace_output option" where
  "validate_path_length p =
     map_option (\<lambda>n. FilenameTooLong (lit ''Error: file name exceeds the '' @ show_nat NAME_MAX @
         lit ''-character limit ('' @ show_nat n @ lit '' characters). Please use a shorter file name.''))
       (List.find (\<lambda>n. NAME_MAX < n)
         (List.map_filter (\<lambda>c. case c of Normal name \<Rightarrow> Some (str_len name) | _ \<Rightarrow> None) (components p)))"

definition name_too_long :: search_replace_output where
  "name_too_long = FilenameTooLong (lit ''Error: file name exceeds the '' @ show_nat NAME_MAX @
     lit ''-character limit. Please use a shorter file name.'')"

definition not_found_output :: "'fs edit_services \<Rightarrow> 'fs \<Rightarrow> replace_context \<Rightarrow> rstr \<Rightarrow> search_replace_input \<Rightarrow> rstr
    \<Rightarrow> search_replace_output" where
  "not_found_output sv fs ctx cwd input target =
     (let display_dcwd = display_cwd_or_cwd cwd (ec_display_cwd ctx)
      in TargetNotFound (format_not_found_error (es_paths sv) fs (path_join display_dcwd (si_file_path input)) target
                           cwd display_dcwd (ec_hints ctx)))"

text \<open>The answers to a failed write, of a new file and of an edited one.\<close>

definition create_failure :: "'fs edit_services \<Rightarrow> 'fs \<Rightarrow> replace_context \<Rightarrow> rstr \<Rightarrow> search_replace_input \<Rightarrow> rstr
    \<Rightarrow> computer_error \<Rightarrow> search_replace_output" where
  "create_failure sv fs ctx cwd input target e =
     (if io_error_kind_of e = Some io_error_kind.NotFound then not_found_output sv fs ctx cwd input target
      else if io_error_kind_of e = Some io_error_kind.AlreadyExists then
        InvalidInput (lit ''Error: cannot create '' @ si_file_path input @
          lit ''. A component of the path already exists as a file where a directory is expected.'')
      else if io_error_kind_of e = Some io_error_kind.InvalidFilename then name_too_long
      else InvalidInput (lit ''Error: failed to write '' @ si_file_path input @ lit '': '' @ show_computer_error e))"

definition update_failure :: "search_replace_input \<Rightarrow> computer_error \<Rightarrow> search_replace_output" where
  "update_failure input e =
     (if io_error_kind_of e = Some io_error_kind.AlreadyExists then
        InvalidInput (lit ''Error: cannot write '' @ si_file_path input @
          lit ''. A component of the path already exists as a file where a directory is expected.'')
      else if io_error_kind_of e = Some io_error_kind.InvalidFilename then name_too_long
      else InvalidInput (lit ''Error: failed to write '' @ si_file_path input @ lit '': '' @ show_computer_error e))"

text \<open>The detail of a file that is written as a whole.\<close>

definition created_detail :: "rstr \<Rightarrow> rstr \<Rightarrow> search_replace_edit_detail" where
  "created_detail old_string new_string =
     \<lparr>sd_old_string = old_string, sd_old_line = 1, sd_new_string = new_string, sd_new_line = 1,
      sd_context_before = [], sd_context_after = [], sd_line_prefix = []\<rparr>"

definition handle_new_file_creation :: "'fs async_file_system \<Rightarrow> 'fs edit_services \<Rightarrow> replace_context \<Rightarrow> rstr
    \<Rightarrow> search_replace_input \<Rightarrow> rstr \<Rightarrow> bool \<Rightarrow> 'fs \<Rightarrow> 'fs edit_run" where
  "handle_new_file_creation ops sv ctx cwd input target no_override fs =
     (let file_exists = (case read_file ops fs target of Inr bs \<Rightarrow> bs \<noteq> [] | Inl _ \<Rightarrow> False);
          old = (case read_file ops fs target of Inr bs \<Rightarrow> Some (from_utf8_lossy bs) | Inl _ \<Rightarrow> None)
      in if file_exists \<and> no_override then
           (case resolve_template ctx ''${{ params.edit.old_string }}'' of
              Inl e \<Rightarrow> (Inl e, fs, [])
            | Inr old_string_name \<Rightarrow>
                (Inr (FileAlreadyExists (old_string_name @
                   lit '' is empty, which is only allowed when creating a new file or when the file is empty.'')), fs, []))
         else
           (case write_file ops fs target (as_bytes (si_new_string input)) of
              (Inl e, fs') \<Rightarrow> (Inr (create_failure sv fs' ctx cwd input target e), fs', [])
            | (Inr _, fs') \<Rightarrow>
                (let note = (if old \<noteq> None \<and> file_exists \<and> no_override
                             then \<lparr>tool_call_id = rc_call_id ctx, absolute_path = target, content = si_new_string input,
                                   previous_content = old, is_new_file = False\<rparr>
                             else \<lparr>tool_call_id = rc_call_id ctx, absolute_path = target, content = si_new_string input,
                                   previous_content = None, is_new_file = True\<rparr>)
                 in (Inr (EditsApplied
                       \<lparr>sa_old_string = si_old_string input, sa_new_string = si_new_string input,
                        sa_prompt = lit ''The file '' @ si_file_path input @ lit '' has been created successfully.'',
                        sa_prompt_concise = Some (lit ''The file '' @ si_file_path input @ lit '' has been created.''),
                        sa_path = target, sa_details = [created_detail (si_old_string input) (si_new_string input)],
                        sa_patch = None, sa_unicode_normalized = False\<rparr>), fs', [note]))))"

definition read_failure :: "'fs edit_services \<Rightarrow> 'fs \<Rightarrow> replace_context \<Rightarrow> rstr \<Rightarrow> search_replace_input \<Rightarrow> rstr
    \<Rightarrow> computer_error \<Rightarrow> edit_tool_error + search_replace_output" where
  "read_failure sv fs ctx cwd input target e =
     (case io_error_kind_of e of
        Some io_error_kind.NotFound \<Rightarrow> Inr (not_found_output sv fs ctx cwd input target)
      | Some io_error_kind.IsADirectory \<Rightarrow> Inr (InvalidInput (lit ''Error: '' @ si_file_path input @ lit '' is a directory, not a file.''))
      | Some io_error_kind.InvalidFilename \<Rightarrow> Inr name_too_long
      | Some io_error_kind.PermissionDenied \<Rightarrow>
          Inr (InvalidInput (lit ''Error: permission denied reading '' @ si_file_path input @ lit ''.''))
      | _ \<Rightarrow> Inl (ExecutionError (lit ''search_replace'') (show_computer_error e)))"

text \<open>
  The way to replace, or the answer that ends the call: exact matches first, then, when there is none and
  the parameter is set, matches up to characters that look alike.
\<close>

datatype replace_plan = Exact "nat list" | NormalizedFallback | Refused "edit_tool_error + search_replace_output"

definition several_matches :: "replace_context \<Rightarrow> string \<Rightarrow> edit_tool_error + search_replace_output" where
  "several_matches ctx how =
     (case resolve_template ctx ''${{ params.edit.replace_all }}'' of
        Inl e \<Rightarrow> Inl e
      | Inr name \<Rightarrow> Inr (MultipleMatchesFound (lit ''The string to replace was found multiple times in the file'' @ lit how @
          lit ''. Use '' @ name @ lit '' to replace all occurrences, or include more context to only edit one occurrence.'')))"

definition ambiguous_match :: "replace_context \<Rightarrow> edit_tool_error + search_replace_output" where
  "ambiguous_match ctx =
     (case resolve_template ctx ''${{ params.edit.old_string }}'' of
        Inl e \<Rightarrow> Inl e
      | Inr name \<Rightarrow>
          Inr (MultipleMatchesFound (lit ''The string to replace was found via Unicode normalization but the '' @
            lit ''match is ambiguous (partial or overlapping). Use a more specific '' @ name @
            lit '' that avoids lines with Unicode typography characters.'')))"

definition no_match_output :: "'fs edit_services \<Rightarrow> replace_context \<Rightarrow> search_replace_input \<Rightarrow> rstr \<Rightarrow> rstr
    \<Rightarrow> (edit_tool_error + search_replace_output) option" where
  "no_match_output sv ctx input target match_text =
     (case resolve_template ctx ''${{ tools.by_kind.read }}'' of
        Inl e \<Rightarrow> Some (Inl e)
      | Inr read_name \<Rightarrow>
     (case resolve_template ctx ''${{ params.edit.old_string }}'' of
        Inl e \<Rightarrow> Some (Inl e)
      | Inr old_string_param \<Rightarrow>
     (case resolve_template ctx ''${{ tools.by_kind.execute }}'' of
        Inl e \<Rightarrow> Some (Inl e)
      | Inr execute_name \<Rightarrow> do {
          let legacy = is_legacy (from_contract (rc_version ctx));
          hint \<leftarrow> (if legacy then Some [] else build_nearest_match_hint match_text (si_old_string input));
          confusable_hint \<leftarrow>
            (if legacy then Some []
             else map_option (\<lambda>h. case h of Some t \<Rightarrow> t | None \<Rightarrow> [])
                    (build_confusable_hint match_text (si_old_string input) (es_query_tools sv) read_name old_string_param
                       execute_name));
          let user_edit_hint =
            (if (case rc_params ctx of Some p \<Rightarrow> sp_include_user_edit_hint p | None \<Rightarrow> True)
             then lit '' The user may have changed the file since you last read it.'' else []);
          Some (Inr (NoMatchesFound
            \<lparr>nm_message = lit ''The string to replace was not found in the file, use the '' @ read_name @
                 lit '' tool to see the correct string.'' @ user_edit_hint @ hint @ confusable_hint,
             nm_path = target, nm_snapshot = None\<rparr>))
        })))"

definition plan_replacement :: "'fs edit_services \<Rightarrow> replace_context \<Rightarrow> search_replace_input \<Rightarrow> rstr \<Rightarrow> rstr
    \<Rightarrow> replace_plan option" where
  "plan_replacement sv ctx input target match_text =
     (let positions = match_indices match_text (si_old_string input);
          fallback = (case rc_params ctx of Some p \<Rightarrow> sp_unicode_normalized_fallback p | None \<Rightarrow> False);
          none_found = map_option Refused (no_match_output sv ctx input target match_text)
      in if positions \<noteq> [] then
           Some (if 1 < length positions \<and> \<not> si_replace_all input then Refused (several_matches ctx [])
                 else Exact positions)
         else if \<not> fallback then none_found
         else do {
           found \<leftarrow> find_normalized_match_positions match_text (si_old_string input);
           (case found of
              Matches ms \<Rightarrow>
                Some (if 1 < length ms \<and> \<not> si_replace_all input
                      then Refused (several_matches ctx '' (via Unicode normalization)'') else NormalizedFallback)
            | Ambiguous \<Rightarrow> Some (Refused (ambiguous_match ctx))
            | NoMatch \<Rightarrow> none_found)
         })"

definition unify_newlines :: "rstr \<Rightarrow> rstr" where
  "unify_newlines s = replace_all [13, 10] [10] s"

definition restore_crlf :: "rstr \<Rightarrow> rstr" where
  "restore_crlf s = replace_all [10] [13, 10] (unify_newlines s)"

definition updated_output :: "search_replace_input \<Rightarrow> rstr \<Rightarrow> nat list \<Rightarrow> search_replace_edit_detail list \<Rightarrow> bool
    \<Rightarrow> search_replace_output" where
  "updated_output input target new_positions details normalized =
     EditsApplied
       \<lparr>sa_old_string = si_old_string input, sa_new_string = si_new_string input,
        sa_prompt = (if length new_positions = 1
                     then lit ''The file '' @ si_file_path input @ lit '' has been updated successfully.''
                     else lit ''The file '' @ si_file_path input @
                          lit '' has been updated. All occurrences were successfully replaced.''),
        sa_prompt_concise = Some (if length new_positions = 1
                     then lit ''The file '' @ si_file_path input @ lit '' has been updated.''
                     else lit ''The file '' @ si_file_path input @ lit '' has been updated. All occurrences were replaced.''),
        sa_path = target, sa_details = details, sa_patch = None, sa_unicode_normalized = normalized\<rparr>"

text \<open>Writing the new text: the endings of lines, the notification, and the answer.\<close>

definition commit_edit :: "'fs async_file_system \<Rightarrow> replace_context \<Rightarrow> search_replace_input \<Rightarrow> rstr \<Rightarrow> rstr \<Rightarrow> bool
    \<Rightarrow> rstr \<times> nat list \<Rightarrow> bool \<Rightarrow> 'fs \<Rightarrow> 'fs edit_run option" where
  "commit_edit ops ctx input target old has_crlf edited normalized fs =
     (case edited of
        (new, new_positions) \<Rightarrow>
          (let written = (if has_crlf then restore_crlf new else new)
           in case write_file ops fs target (as_bytes written) of
                (Inl e, fs') \<Rightarrow> Some (Inr (update_failure input e), fs', [])
              | (Inr _, fs') \<Rightarrow>
                  map_option (\<lambda>details.
                    (Inr (updated_output input target new_positions details normalized), fs',
                     [\<lparr>tool_call_id = rc_call_id ctx, absolute_path = target, content = written,
                       previous_content = Some old, is_new_file = False\<rparr>]))
                   (build_edit_details new (si_old_string input) (si_new_string input) new_positions CONTEXT_LINES)))"

definition handle_replacement :: "'fs async_file_system \<Rightarrow> 'fs edit_services \<Rightarrow> replace_context \<Rightarrow> rstr
    \<Rightarrow> search_replace_input \<Rightarrow> rstr \<Rightarrow> 'fs \<Rightarrow> 'fs edit_run option" where
  "handle_replacement ops sv ctx cwd input target fs =
     (case read_file ops fs target of
        Inl e \<Rightarrow> Some (read_failure sv fs ctx cwd input target e, fs, [])
      | Inr file_bytes \<Rightarrow>
          (let old = from_utf8_lossy file_bytes;
               has_crlf = str_contains old [13, 10];
               match_text = (if has_crlf then unify_newlines old else old)
           in do {
             plan \<leftarrow> plan_replacement sv ctx input target match_text;
             (case plan of
                Refused answer \<Rightarrow> Some (answer, fs, [])
              | Exact positions \<Rightarrow> do {
                  edited \<leftarrow> replace_using_positions match_text positions (si_old_string input) (si_new_string input);
                  commit_edit ops ctx input target old has_crlf edited False fs
                }
              | NormalizedFallback \<Rightarrow> do {
                  found \<leftarrow> find_normalized_match_positions match_text (si_old_string input);
                  (case found of
                     Matches ms \<Rightarrow> do {
                       edited \<leftarrow> replace_normalized_matches match_text ms (si_new_string input);
                       commit_edit ops ctx input target old has_crlf edited True fs
                     }
                   | _ \<Rightarrow> Some (Inr (NoMatchesFound
                       \<lparr>nm_message = lit ''Internal error: normalized match disappeared on re-evaluation'',
                        nm_path = target, nm_snapshot = None\<rparr>), fs, []))
                })
           }))"

definition resolve_target :: "'fs edit_services \<Rightarrow> 'fs \<Rightarrow> replace_context \<Rightarrow> rstr \<Rightarrow> rstr \<Rightarrow> rstr" where
  "resolve_target sv fs ctx cwd requested =
     (let resolved = resolve_model_path (ps_tilde (es_paths sv)) cwd (ec_display_cwd ctx) requested
      in case es_canonicalize sv fs resolved of
           Inr p \<Rightarrow> p
         | Inl kind \<Rightarrow>
             (if kind = io_error_kind.NotFound then
                (case ps_unicode_match (es_paths sv) fs resolved of Some p \<Rightarrow> p | None \<Rightarrow> resolved)
              else resolved))"

definition run_search_replace :: "'fs async_file_system \<Rightarrow> 'fs edit_services \<Rightarrow> replace_context \<Rightarrow> search_replace_input
    \<Rightarrow> 'fs \<Rightarrow> 'fs edit_run option" where
  "run_search_replace ops sv ctx input fs =
     (case (case rc_cwd_override ctx of Some d \<Rightarrow> Some d | None \<Rightarrow> ec_cwd ctx) of
        None \<Rightarrow> Some (Inl (MissingResource (lit ''Cwd'')), fs, [])
      | Some cwd \<Rightarrow>
          (let target = resolve_target sv fs ctx cwd (si_file_path input);
               refuse = (\<lambda>answer. Some (Inr answer, fs, []))
           in case validate_path_length (si_file_path input) of
                Some answer \<Rightarrow> refuse answer
              | None \<Rightarrow>
                  (if es_is_dir sv fs target then refuse (InvalidInput (lit ''File path is a directory''))
                   else if \<not> is_legacy (from_contract (rc_version ctx)) \<and>
                           (case rc_respect_gitignore ctx of Some b \<Rightarrow> b | None \<Rightarrow> True) \<and>
                           (case rc_gitignore ctx of Some ignored \<Rightarrow> ignored target | None \<Rightarrow> False) then
                     refuse (InvalidInput (lit ''Error: '' @ si_file_path input @
                       lit '' is ignored by .gitignore and cannot be edited.''))
                   else if si_old_string input = si_new_string input then
                     refuse (InvalidInput (lit ''Old string and new string are the same''))
                   else if si_old_string input = [] then
                     Some (handle_new_file_creation ops sv ctx cwd input target
                             (case rc_params ctx of Some p \<Rightarrow> sp_empty_old_string_does_not_override p | None \<Rightarrow> False) fs)
                   else handle_replacement ops sv ctx cwd input target fs)))"

section \<open>The legacy contract\<close>

record render_context =
  rx_file_path :: rstr
  rx_read_tool_name :: rstr
  rx_replace_all_param_name :: rstr
  rx_old_string_param_name :: rstr

datatype legacy_error_kind = KFileAlreadyExists | KFileNotFound | KMultipleMatchesFound | KNoMatchesFound

fun render_error :: "legacy_error_kind \<Rightarrow> render_context \<Rightarrow> rstr" where
  "render_error KFileAlreadyExists rx =
     rx_old_string_param_name rx @ lit '' is empty, which is only allowed when creating a new file or when the file is empty.''"
| "render_error KFileNotFound rx =
     lit ''File not found: '' @ rx_file_path rx @ lit ''. Please check the path and try again.''"
| "render_error KMultipleMatchesFound rx =
     lit ''The string to replace was found multiple times in the file. Use '' @ rx_replace_all_param_name rx @
     lit '' to replace all occurrences, or include more context to only edit one occurrence.''"
| "render_error KNoMatchesFound rx =
     lit ''The string to replace was not found in the file, use the '' @ rx_read_tool_name rx @
     lit '' tool to see the correct string.''"

definition build_render_context :: "replace_context \<Rightarrow> rstr \<Rightarrow> edit_tool_error + render_context" where
  "build_render_context ctx requested =
     (case resolve_template ctx ''${{ tools.by_kind.read }}'' of
        Inl e \<Rightarrow> Inl e
      | Inr read_name \<Rightarrow>
     (case resolve_template ctx ''${{ params.edit.replace_all }}'' of
        Inl e \<Rightarrow> Inl e
      | Inr replace_all_name \<Rightarrow>
     (case resolve_template ctx ''${{ params.edit.old_string }}'' of
        Inl e \<Rightarrow> Inl e
      | Inr old_string_name \<Rightarrow>
          Inr \<lparr>rx_file_path = requested, rx_read_tool_name = read_name, rx_replace_all_param_name = replace_all_name,
               rx_old_string_param_name = old_string_name\<rparr>)))"

definition downgrade_structured_errors :: "replace_context \<Rightarrow> rstr \<Rightarrow> search_replace_output
    \<Rightarrow> edit_tool_error + search_replace_output" where
  "downgrade_structured_errors ctx requested res =
     (case build_render_context ctx requested of
        Inl e \<Rightarrow> Inl e
      | Inr rx \<Rightarrow>
          Inr (case res of
                 FileAlreadyExists _ \<Rightarrow> InvalidInput (render_error KFileAlreadyExists rx)
               | TargetNotFound _ \<Rightarrow> InvalidInput (render_error KFileNotFound rx)
               | FilenameTooLong msg \<Rightarrow> InvalidInput msg
               | MultipleMatchesFound _ \<Rightarrow> InvalidInput (render_error KMultipleMatchesFound rx)
               | NoMatchesFound _ \<Rightarrow> InvalidInput (render_error KNoMatchesFound rx)
               | other \<Rightarrow> other))"

definition search_replace_tool :: "'fs async_file_system \<Rightarrow> 'fs edit_services \<Rightarrow> replace_context \<Rightarrow> search_replace_input
    \<Rightarrow> 'fs \<Rightarrow> 'fs edit_run option" where
  "search_replace_tool ops sv ctx input fs =
     map_option (\<lambda>(answer, fs', notes).
       (case answer of
          Inl e \<Rightarrow> Inl e
        | Inr res \<Rightarrow>
            (if is_legacy (from_contract (rc_version ctx))
             then downgrade_structured_errors ctx (si_file_path input) res else Inr res), fs', notes))
     (run_search_replace ops sv ctx input fs)"

end
