(* ===== verification/SearchReplaceLemmas.thy ===== *)
theory SearchReplaceLemmas
  imports SearchReplace
begin

text \<open>
  Lemmas on editing by text: replacing at offsets is replacing pieces, matches up to characters that
  look alike are pieces of the text, and the helpers that slice and index never panic.
\<close>

section \<open>Replacing pieces\<close>

definition with_new :: "rstr \<Rightarrow> pieces \<Rightarrow> pieces" where
  "with_new r ps = map (\<lambda>(g, m). (g, r)) ps"

definition region :: "nat \<times> nat \<Rightarrow> normalized_match" where
  "region r = \<lparr>nm_original_start = fst r, nm_original_len = snd r\<rparr>"

lemma region_simps [simp]: "nm_original_start (region r) = fst r" "nm_original_len (region r) = snd r"
  by (simp_all add: region_def)

lemma with_new_simps [simp]: "with_new r [] = []" "with_new r ((g, m) # ps) = (g, r) # with_new r ps"
  "length (with_new r ps) = length ps"
  by (simp_all add: with_new_def)

lemma put_new_text: "put_new r ps = pieces_text (with_new r ps)"
  by (induction ps) auto

lemma replace_loop_normalized:
  "replace_loop whole old_string new_string positions last_end acc np =
   replace_normalized_loop whole new_string (map (\<lambda>p. region (p, str_len old_string)) positions) last_end acc np"
  by (induction positions arbitrary: last_end acc np) simp_all

lemma replace_pieces:
  "replace_normalized_loop (pre @ pieces_text ps @ t) r (map region (piece_offsets (str_len pre) ps)) (str_len pre) acc np
   = Some (acc @ put_new r ps @ t, np @ map fst (piece_offsets (str_len acc) (with_new r ps)))"
proof (induction ps arbitrary: pre acc np)
  case Nil
  then show ?case by (simp add: str_slice_from_suffix)
next
  case (Cons p ps)
  obtain g m where p: "p = (g, m)" by fastforce
  have "str_slice (pre @ g @ m @ pieces_text ps @ t) (str_len pre) (str_len pre + str_len g) = Some g"
    using str_slice_middle [of pre g "m @ pieces_text ps @ t"] by simp
  moreover have "replace_normalized_loop ((pre @ g @ m) @ pieces_text ps @ t) r
      (map region (piece_offsets (str_len (pre @ g @ m)) ps)) (str_len (pre @ g @ m)) (acc @ g @ r) (np @ [str_len (acc @ g)])
      = Some ((acc @ g @ r) @ put_new r ps @ t,
          (np @ [str_len (acc @ g)]) @ map fst (piece_offsets (str_len (acc @ g @ r)) (with_new r ps)))"
    by (rule Cons.IH)
  ultimately show ?case by (simp add: p add.assoc)
qed

lemma piece_regions:
  "\<forall>(g, m) \<in> set ps. m = pat \<Longrightarrow>
   map (\<lambda>p. region (p, str_len pat)) (map fst (piece_offsets off ps)) = map region (piece_offsets off ps)"
  by (induction off ps rule: piece_offsets.induct) auto

text \<open>Replacing at the matches of a pattern is \<^verbatim>\<open>str::replace\<close>.\<close>

lemma replace_at_matches:
  assumes "match_pieces old_string [] s = (ps, t)"
  shows "replace_using_positions s (match_indices s old_string) old_string new_string
    = Some (put_new new_string ps @ t, map fst (piece_offsets 0 (with_new new_string ps)))"
    and "replace_all old_string new_string s = put_new new_string ps @ t"
    and "s = pieces_text ps @ t"
    and "match_indices s old_string = map fst (piece_offsets 0 ps)"
    and "\<forall>(g, m) \<in> set ps. m = old_string"
proof -
  show pat: "\<forall>(g, m) \<in> set ps. m = old_string" and s: "s = pieces_text ps @ t"
    using match_pieces_text [OF assms] by simp_all
  show ix: "match_indices s old_string = map fst (piece_offsets 0 ps)"
    using match_offsets_pieces [OF assms, of 0] by (simp add: match_indices_def)
  show "replace_all old_string new_string s = put_new new_string ps @ t"
    using replace_all_pieces [OF assms] by simp
  show "replace_using_positions s (match_indices s old_string) old_string new_string
    = Some (put_new new_string ps @ t, map fst (piece_offsets 0 (with_new new_string ps)))"
    unfolding replace_using_positions_def replace_loop_normalized ix piece_regions [OF pat]
    using replace_pieces [of "[]" ps t new_string "[]" "[]"] by (simp add: s)
qed

lemma match_indices_occurrence:
  assumes "i \<in> set (match_indices s pat)"
  shows "\<exists>u v. s = u @ pat @ v \<and> i = str_len u"
proof -
  have occ: "\<exists>u v. pieces_text ps @ t = u @ pat @ v \<and> i = off + str_len u"
    if "\<forall>(g, m) \<in> set ps. m = pat" "i \<in> fst ` set (piece_offsets off ps)" for off ps t
    using that
  proof (induction off ps rule: piece_offsets.induct)
    case (2 off g m ps)
    show ?case
    proof (cases "i = off + str_len g")
      case True
      then show ?thesis using "2.prems"(1) by (intro exI [of _ g] exI [of _ "pieces_text ps @ t"]) auto
    next
      case False
      then have "i \<in> fst ` set (piece_offsets (off + str_len g + str_len m) ps)" using "2.prems"(2) by simp
      then obtain u v where "pieces_text ps @ t = u @ pat @ v" "i = off + str_len g + str_len m + str_len u"
        using "2.IH" "2.prems"(1) by auto
      then show ?thesis by (intro exI [of _ "g @ m @ u"] exI [of _ v]) simp
    qed
  qed simp
  obtain ps t where ps: "match_pieces pat [] s = (ps, t)" by fastforce
  have "i \<in> fst ` set (piece_offsets 0 ps)" using assms replace_at_matches(4) [OF ps] by simp
  from occ [OF replace_at_matches(5) [OF ps] this, of t] show ?thesis
    using replace_at_matches(3) [OF ps] by simp
qed

lemma no_matches_iff:
  assumes "pat \<noteq> []"
  shows "match_indices s pat = [] \<longleftrightarrow> \<not> (\<exists>u v. s = u @ pat @ v)"
proof -
  have "match_offsets off pat (u @ pat @ v) \<noteq> []" for off u v
    using assms by (induction u arbitrary: off) (auto simp: neq_Nil_conv)
  moreover have "\<exists>u v. s = u @ pat @ v" if "match_indices s pat \<noteq> []"
    using match_indices_occurrence [of "hd (match_indices s pat)" s pat] that by auto
  ultimately show ?thesis by (auto simp: match_indices_def)
qed

section \<open>Lines around an edit\<close>

lemma split_inclusive_append:
  "u = [] \<or> last u = c \<Longrightarrow> split_inclusive c (u @ w) = split_inclusive c u @ split_inclusive c w"
proof (induction u)
  case (Cons x u)
  then have IH: "split_inclusive c (u @ w) = split_inclusive c u @ split_inclusive c w" by (cases u) auto
  show ?case
  proof (cases "x = c")
    case False
    then have "u \<noteq> []" using Cons.prems by auto
    then have "split_inclusive c u \<noteq> []" by (cases u) (auto split: list.splits)
    then show ?thesis using False by (auto simp: IH neq_Nil_conv)
  qed (simp add: IH)
qed simp

lemma length_split_inclusive:
  "length (split_inclusive c s) = count_char c s + (if s = [] \<or> last s = c then 0 else 1)"
proof (induction s)
  case (Cons x s)
  show ?case
  proof (cases "split_inclusive c s")
    case Nil
    then have "s = []" by (cases s) (auto split: list.splits if_splits)
    then show ?thesis by simp
  next
    case (Cons l ls)
    then have "s \<noteq> []" by auto
    then show ?thesis using Cons Cons.IH by auto
  qed
qed simp

text \<open>
  What precedes a place, cut at its last newline, and the line that an edit ends in: the offsets into the lines
  are in range, and the context is the text around the place.
\<close>

lemma last_line_split:
  obtains u1 u2 where "u = u1 @ u2" "10 \<notin> set u2" "u1 = [] \<or> last u1 = (10 :: rune)"
proof (cases "10 \<in> set u")
  case True
  then obtain a b where "u = a @ 10 # b" "10 \<notin> set b" by (meson split_list_last)
  then show thesis using that [of "a @ [10]" b] by simp
qed (use that [of "[]" u] in simp)

lemma rfind_newline:
  assumes "u = u1 @ u2" "10 \<notin> set u2" "u1 = [] \<or> last u1 = (10 :: rune)"
  shows "(case str_rfind u [10] of Some i \<Rightarrow> i + 1 | None \<Rightarrow> 0) = str_len u1"
proof -
  have none: "rfind_sub [10] u2 = None" using assms(2) by (induction u2) (auto simp: starts_with_def)
  have some: "rfind_sub [10] (a @ 10 # u2) = Some (length a)" for a
    using none by (induction a) (auto simp: starts_with_def)
  show ?thesis
  proof (cases u1 rule: rev_cases)
    case (snoc a x)
    then show ?thesis using assms some [of a] by (simp add: str_rfind_def len_utf8_def)
  qed (use assms none in \<open>simp add: str_rfind_def\<close>)
qed

lemma first_line_split:
  obtains r v1 where "v = r @ v1" "v1 = [] \<or> (r \<noteq> [] \<and> last r = (10 :: rune))" "count_char 10 r \<le> 1"
    "v1 \<noteq> [] \<Longrightarrow> count_char 10 r = 1" "count_char 10 r = 1 \<Longrightarrow> last r = 10"
proof (cases "10 \<in> set v")
  case True
  then obtain a b where "v = a @ 10 # b" "10 \<notin> set a" by (meson split_list_first)
  then show thesis using that [of "a @ [10]" b] by simp
next
  case False
  then show thesis using that [of v "[]"] by simp
qed

lemma line_newlines: "l \<in> set (split_inclusive c s) \<Longrightarrow> count_char c l \<le> 1"
  by (induction s arbitrary: l) (fastforce split: list.splits if_splits)+

lemma concat_newlines: "\<forall>l \<in> set ls. count_char c l \<le> 1 \<Longrightarrow> count_char c (concat ls) \<le> length ls"
  by (induction ls) fastforce+

lemma lines_before:
  assumes "u = u1 @ u2" "10 \<notin> set u2" "u1 = [] \<or> last u1 = (10 :: rune)"
  shows "split_inclusive 10 (u @ w) = split_inclusive 10 u1 @ split_inclusive 10 (u2 @ w)"
    "length (split_inclusive 10 u1) = count_char 10 u"
  using split_inclusive_append [OF assms(3), of "u2 @ w"] assms by (auto simp: length_split_inclusive)

lemma lines_behind:
  fixes new_string v :: rstr
  defines "n \<equiv> max (length (split_inclusive 10 new_string)) 1"
  obtains r v1 where "v = r @ v1" "count_char 10 r \<le> 1"
    "v1 \<noteq> [] \<Longrightarrow> split_inclusive 10 (u @ new_string @ v) = split_inclusive 10 (u @ new_string @ r) @ split_inclusive 10 v1 \<and>
       length (split_inclusive 10 (u @ new_string @ r)) = count_char 10 u + n"
    "v1 = [] \<Longrightarrow> length (split_inclusive 10 (u @ new_string @ v)) \<le> count_char 10 u + n"
proof (cases "new_string \<noteq> [] \<and> last new_string = 10")
  case True
  then have "0 < count_char 10 new_string" using last_in_set [of new_string] by (auto intro: count_char_pos)
  then have "n = count_char 10 new_string" using True by (simp add: n_def length_split_inclusive)
  then show thesis
    using that [of "[]" v] True split_inclusive_append [of "u @ new_string" 10 v]
    by (auto simp: length_split_inclusive)
next
  case False
  then have n: "n = count_char 10 new_string + 1" by (auto simp: n_def length_split_inclusive)
  obtain r v1 where r: "v = r @ v1" "v1 = [] \<or> (r \<noteq> [] \<and> last r = 10)" "count_char 10 r \<le> 1"
    "v1 \<noteq> [] \<Longrightarrow> count_char 10 r = 1" "count_char 10 r = 1 \<Longrightarrow> last r = 10"
    using first_line_split [of v] by blast
  show thesis
  proof (rule that [OF r(1) r(3)])
    assume v1: "v1 \<noteq> []"
    then have "last (u @ new_string @ r) = 10" using r(2) by auto
    then show "split_inclusive 10 (u @ new_string @ v) = split_inclusive 10 (u @ new_string @ r) @ split_inclusive 10 v1 \<and>
       length (split_inclusive 10 (u @ new_string @ r)) = count_char 10 u + n"
      using split_inclusive_append [of "u @ new_string @ r" 10 v1] r(1,4) v1 n by (simp add: length_split_inclusive)
  next
    assume "v1 = []"
    then have v: "v = r" using r(1) by simp
    show "length (split_inclusive 10 (u @ new_string @ v)) \<le> count_char 10 u + n"
    proof (cases "count_char 10 r = 1")
      case True
      then have "r \<noteq> []" "last r = 10" using r(5) by auto
      then show ?thesis using True n by (simp add: v length_split_inclusive)
    next
      case False
      then show ?thesis using n r(3) by (simp add: v length_split_inclusive)
    qed
  qed
qed

text \<open>The detail of an edit: its line in the new text, and the text around it.\<close>

lemma render_snippet_eq:
  assumes before: "str_slice_to whole start_pos = Some u" and k: "count_char 10 u = k"
    and n: "max (length (split_inclusive 10 new_string)) 1 = n"
    and stop: "min (k + n - 1 + ctx) (length (split_inclusive 10 whole) - 1) = stop"
    and b: "(if k - ctx < k then map_option concat (slice_opt (split_inclusive 10 whole) (k - ctx) k) else Some []) = Some b"
    and a: "(if k + n - 1 < stop then map_option concat (slice_opt (split_inclusive 10 whole) (k + n) (stop + 1))
             else Some []) = Some a"
    and le: "k - ctx \<le> stop"
  shows "\<exists>snippet. render_snippet whole new_string start_pos ctx = Some (snippet, b, a)"
proof -
  have range: "compute_line_range whole start_pos new_string = Some \<lparr>lr_start_line = k, lr_end_line = k + n - 1\<rparr>"
    by (simp only: compute_line_range_def before option.map Let_def k n)
  have next_line: "k + n - 1 + 1 = k + n" using n by linarith
  show ?thesis
    by (simp only: render_snippet_def range Option.bind.simps Let_def line_range.select_convs stop b next_line a checked_sub_def le
        if_True option.inject prod.inject simp_thms ex_simps)
qed

lemma render_snippet_at:
  assumes whole: "whole = u @ new_string @ v" and u: "u = u1 @ u2" "10 \<notin> set u2" "u1 = [] \<or> last u1 = (10 :: rune)"
  obtains snippet before after h r t where
    "render_snippet whole new_string (str_len u) CONTEXT_LINES = Some (snippet, before, after)"
    "u1 = h @ before" "v = r @ after @ t" "count_char 10 before \<le> 3" "count_char 10 after \<le> 3" "count_char 10 r \<le> 1"
proof -
  let ?L = "split_inclusive 10" and ?k = "count_char 10 u"
  obtain n where n: "n = max (length (split_inclusive 10 new_string)) 1" "1 \<le> n" by simp
  define stop where "stop = min (?k + n - 1 + 3) (length (?L whole) - 1)"
  have before: "?L whole = ?L u1 @ ?L (u2 @ new_string @ v)" "length (?L u1) = ?k"
    using lines_before(1) [OF u, of "new_string @ v"] lines_before(2) [OF u] by (simp_all add: whole)
  obtain r v1 where r: "v = r @ v1" "count_char 10 r \<le> 1"
    "v1 \<noteq> [] \<Longrightarrow> ?L whole = ?L (u @ new_string @ r) @ ?L v1 \<and> length (?L (u @ new_string @ r)) = ?k + n"
    "v1 = [] \<Longrightarrow> length (?L whole) \<le> ?k + n"
    unfolding whole n(1) by (rule lines_behind [where u = u and new_string = new_string and v = v]) blast
  define bs where "bs = drop (?k - 3) (?L u1)"
  define as where "as = (if ?k + n - 1 < stop then take (stop + 1 - (?k + n)) (?L v1) else [])"
  have "slice_opt (?L whole) (?k - 3) ?k = Some bs" using before by (simp add: slice_opt_def bs_def)
  moreover have "bs = []" if "\<not> ?k - 3 < ?k"
  proof -
    have "?k = 0" using that by linarith
    then show ?thesis using before(2) by (simp add: bs_def)
  qed
  ultimately have b: "(if ?k - 3 < ?k then map_option concat (slice_opt (?L whole) (?k - 3) ?k) else Some []) = Some (concat bs)"
    by auto
  have "slice_opt (?L whole) (?k + n) (stop + 1) = Some as" if lt: "?k + n - 1 < stop"
  proof -
    have "?k + n < length (?L whole)" using lt n(2) unfolding stop_def by linarith
    then have "v1 \<noteq> []" using r(4) by auto
    then have "?L whole = ?L (u @ new_string @ r) @ ?L v1" "length (?L (u @ new_string @ r)) = ?k + n" using r(3) by simp_all
    moreover have "?k + n \<le> stop + 1" "stop + 1 \<le> length (?L whole)"
      using lt n(2) \<open>?k + n < length (?L whole)\<close> unfolding stop_def by linarith+
    ultimately show ?thesis using lt by (simp add: slice_opt_def as_def)
  qed
  then have a: "(if ?k + n - 1 < stop then map_option concat (slice_opt (?L whole) (?k + n) (stop + 1)) else Some [])
      = Some (concat as)" by (simp add: as_def)
  have "?k \<le> length (?L whole)" using before by simp
  then have le: "?k - 3 \<le> stop" unfolding stop_def by linarith
  have at: "str_slice_to whole (str_len u) = Some u" unfolding whole by (rule str_slice_to_prefix)
  have stop: "min (?k + n - 1 + 3) (length (?L whole) - 1) = stop" unfolding stop_def by (rule refl)
  obtain snippet where "render_snippet whole new_string (str_len u) CONTEXT_LINES = Some (snippet, concat bs, concat as)"
    using render_snippet_eq [OF at refl n(1) [symmetric] stop b a le] unfolding CONTEXT_LINES_def by blast
  moreover have "u1 = concat (take (?k - 3) (?L u1)) @ concat bs"
    unfolding bs_def concat_append [symmetric] append_take_drop_id by (simp add: concat_split_inclusive)
  moreover have "v1 = concat as @ (if as = [] then v1 else concat (drop (stop + 1 - (?k + n)) (?L v1)))"
    unfolding as_def by (simp add: concat_append [symmetric] concat_split_inclusive del: concat_append)
  then have "v = r @ concat as @ (if as = [] then v1 else concat (drop (stop + 1 - (?k + n)) (?L v1)))" using r(1) by simp
  moreover have "count_char 10 (concat bs) \<le> 3"
    using concat_newlines [of bs 10] line_newlines [of _ 10 u1] before(2) by (fastforce simp: bs_def dest: in_set_dropD)
  moreover have "count_char 10 (concat as) \<le> 3"
  proof -
    have "\<forall>l \<in> set as. count_char 10 l \<le> 1" using line_newlines [of _ 10 v1] by (auto simp: as_def dest: in_set_takeD)
    moreover have "length as \<le> stop + 1 - (?k + n)" by (simp add: as_def)
    then have "length as \<le> 3" using n(2) unfolding stop_def by linarith
    ultimately show ?thesis using concat_newlines [of as 10] by linarith
  qed
  ultimately show thesis using that r(2) by blast
qed

lemma edit_detail_at:
  assumes "whole = u @ new_string @ v"
  obtains d h r t where "edit_detail whole old_string new_string CONTEXT_LINES (str_len u) = Some d"
    "sd_old_string d = old_string" "sd_new_string d = new_string" "sd_new_line d = count_char 10 u + 1"
    "sd_old_line d = sd_new_line d" "u = h @ sd_context_before d @ sd_line_prefix d" "10 \<notin> set (sd_line_prefix d)"
    "v = r @ sd_context_after d @ t" "count_char 10 (sd_context_before d) \<le> 3" "count_char 10 (sd_context_after d) \<le> 3"
    "count_char 10 r \<le> 1"
proof -
  obtain u1 u2 where u: "u = u1 @ u2" "10 \<notin> set u2" "u1 = [] \<or> last u1 = (10 :: rune)" by (rule last_line_split)
  obtain snippet before after h r t where sn: "render_snippet whole new_string (str_len u) CONTEXT_LINES = Some (snippet, before, after)"
    "u1 = h @ before" "v = r @ after @ t" "count_char 10 before \<le> 3" "count_char 10 after \<le> 3" "count_char 10 r \<le> 1"
    by (rule render_snippet_at [OF assms u])
  have "str_slice whole (str_len u1) (str_len u) = Some u2"
    using str_slice_middle [of u1 u2 "new_string @ v"] by (simp add: assms u(1))
  then have "edit_detail whole old_string new_string CONTEXT_LINES (str_len u) =
      Some \<lparr>sd_old_string = old_string, sd_old_line = count_char 10 u + 1, sd_new_string = new_string,
            sd_new_line = count_char 10 u + 1, sd_context_before = before, sd_context_after = after, sd_line_prefix = u2\<rparr>"
    using sn(1) str_slice_to_prefix [of u "new_string @ v"] rfind_newline [OF u]
    by (simp add: edit_detail_def compute_line_range_def assms Let_def)
  from that [OF this] show thesis using sn(2-6) u by (auto simp: append_assoc)
qed

section \<open>Matches up to characters that look alike\<close>

lemma prefix_by_len:
  assumes "pre @ x = u @ y" "str_len pre \<le> str_len u"
  obtains g where "u = pre @ g"
  using assms by (auto simp: append_eq_append_conv2)

text \<open>A match names a span of the text that becomes the pattern when its characters are replaced.\<close>

definition names_span :: "rstr \<Rightarrow> rstr \<Rightarrow> normalized_match \<Rightarrow> bool" where
  "names_span whole pat m \<longleftrightarrow>
     (\<exists>u r v. whole = u @ r @ v \<and> m = region (str_len u, str_len r) \<and> normalize_confusables r = pat)"

lemma offset_lookup:
  assumes "normalize_confusables whole = x @ y"
  obtains u v where "whole = u @ v" "nth_opt (snd (build_offset_map whole)) (str_len x) = Some (str_len u)"
proof -
  obtain u v where "whole = u @ v" "(entries 0 whole @ [str_len whole]) ! str_len x = str_len u"
    using offset_at_boundary [OF assms, of 0] by auto
  moreover have "str_len x < length (entries 0 whole @ [str_len whole])" by (simp add: assms)
  ultimately show thesis using that [of u v] by (simp only: nth_opt_def build_offset_map_eq snd_conv if_True)
qed

lemma validate_loop_total:
  assumes "\<forall>i \<in> set starts. \<exists>x y. normalize_confusables whole = x @ pat @ y \<and> i = str_len x"
  shows "\<exists>vs rejected'. validate_loop whole (snd (build_offset_map whole)) pat starts validated rejected = Some (validated @ vs, rejected')
    \<and> (\<forall>m \<in> set vs. names_span whole pat m)"
  using assms
proof (induction starts arbitrary: validated rejected)
  case (Cons i starts)
  let ?om = "snd (build_offset_map whole)"
  have IH: "\<exists>vs rejected'. validate_loop whole ?om pat starts validated rejected = Some (validated @ vs, rejected')
    \<and> (\<forall>m \<in> set vs. names_span whole pat m)" for validated rejected
    using Cons.prems by (intro Cons.IH) simp
  obtain x y where x: "normalize_confusables whole = x @ pat @ y" "i = str_len x" using Cons.prems by auto
  obtain u v where u: "whole = u @ v" "nth_opt ?om (str_len x) = Some (str_len u)" by (rule offset_lookup [OF x(1)])
  have xp: "normalize_confusables whole = (x @ pat) @ y" using x(1) by simp
  obtain w z where w: "whole = w @ z" "nth_opt ?om (str_len x + str_len pat) = Some (str_len w)"
    using offset_lookup [OF xp] by (metis str_len_append)
  show ?case
  proof (cases "str_len w \<le> str_len u")
    case True
    then show ?thesis using IH [of validated True] by (simp add: x(2) u(2) w(2))
  next
    case False
    then obtain r where r: "w = u @ r" using prefix_by_len [of u v w z] u(1) w(1) by auto
    then have sl: "str_slice whole (str_len u) (str_len u + str_len r) = Some r" "str_len r > 0"
      using str_slice_middle [of u r z] w(1) False by auto
    show ?thesis
    proof (cases "normalize_confusables r = pat")
      case True
      have m: "names_span whole pat (region (str_len u, str_len r))"
        using True w(1) r by (auto simp: names_span_def)
      obtain vs rejected' where "validate_loop whole ?om pat starts (validated @ [region (str_len u, str_len r)]) rejected
          = Some ((validated @ [region (str_len u, str_len r)]) @ vs, rejected')" "\<forall>m \<in> set vs. names_span whole pat m"
        using IH [of "validated @ [region (str_len u, str_len r)]" rejected] by blast
      then show ?thesis
        using True sl m by (intro exI [of _ "region (str_len u, str_len r) # vs"] exI [of _ rejected'])
          (simp add: x(2) u(2) w(2) r region_def)
    next
      case False
      then show ?thesis using IH [of validated True] sl by (simp add: x(2) u(2) w(2) r)
    qed
  qed
qed simp

lemma spans_pieces:
  assumes "\<forall>m \<in> set ms. names_span (pre @ rest) pat m" "\<not> windows_overlap ms"
    and "ms \<noteq> [] \<Longrightarrow> str_len pre \<le> nm_original_start (hd ms)"
  shows "\<exists>ps t. rest = pieces_text ps @ t \<and> map region (piece_offsets (str_len pre) ps) = ms
    \<and> (\<forall>(g, m) \<in> set ps. normalize_confusables m = pat)"
  using assms
proof (induction ms arbitrary: pre rest)
  case Nil
  then show ?case by (intro exI [of _ "[]"] exI [of _ rest]) simp
next
  case (Cons m ms)
  obtain u r v where m: "pre @ rest = u @ r @ v" "m = region (str_len u, str_len r)" "normalize_confusables r = pat"
    using Cons.prems(1) by (auto simp: names_span_def)
  have "str_len pre \<le> str_len u" using Cons.prems(3) by (simp add: m(2))
  then obtain g where g: "u = pre @ g" using prefix_by_len m(1) by blast
  have rest: "rest = g @ r @ v" using m(1) by (simp add: g)
  have "\<exists>ps t. v = pieces_text ps @ t \<and> map region (piece_offsets (str_len (u @ r)) ps) = ms
    \<and> (\<forall>(g, m) \<in> set ps. normalize_confusables m = pat)"
  proof (rule Cons.IH)
    show "\<forall>m \<in> set ms. names_span ((u @ r) @ v) pat m" using Cons.prems(1) m(1) by simp
    show "\<not> windows_overlap ms" using Cons.prems(2) by (cases ms) auto
    show "str_len (u @ r) \<le> nm_original_start (hd ms)" if "ms \<noteq> []"
      using Cons.prems(2) that by (cases ms) (auto simp: m(2) not_less)
  qed
  then obtain ps t where ps: "v = pieces_text ps @ t" "map region (piece_offsets (str_len (u @ r)) ps) = ms"
    "\<forall>(g, m) \<in> set ps. normalize_confusables m = pat" by blast
  then show ?case
    by (intro exI [of _ "(g, r) # ps"] exI [of _ t]) (simp add: rest m(2,3) g add.assoc)
qed

text \<open>The search never panics, and what it finds are disjoint pieces of the text.\<close>

lemma find_normalized_total:
  "\<exists>res. find_normalized_match_positions whole pattern = Some res \<and>
     (\<forall>ms. res = Matches ms \<longrightarrow> ms \<noteq> [] \<and>
        (\<exists>ps t. whole = pieces_text ps @ t \<and> map region (piece_offsets 0 ps) = ms \<and>
           (\<forall>(g, m) \<in> set ps. normalize_confusables m = normalize_confusables pattern)))"
proof (cases "normalize_confusables pattern = []")
  case False
  let ?pat = "normalize_confusables pattern"
  have "\<forall>i \<in> set (match_indices (normalize_confusables whole) ?pat). \<exists>x y. normalize_confusables whole = x @ ?pat @ y \<and> i = str_len x"
    using match_indices_occurrence by blast
  from validate_loop_total [OF this, of "[]" False] obtain vs rejected where vs:
    "validate_loop whole (snd (build_offset_map whole)) ?pat (match_indices (normalize_confusables whole) ?pat) [] False = Some (vs, rejected)"
    "\<forall>m \<in> set vs. names_span whole ?pat m" by auto
  have "\<exists>ps t. whole = pieces_text ps @ t \<and> map region (piece_offsets 0 ps) = vs \<and>
      (\<forall>(g, m) \<in> set ps. normalize_confusables m = ?pat)" if "\<not> windows_overlap vs"
    using spans_pieces [of vs "[]" whole ?pat] vs(2) that by simp
  then show ?thesis using False vs(1)
    by (simp add: find_normalized_match_positions_def build_offset_map_eq)
qed (simp add: find_normalized_match_positions_def build_offset_map_eq)

lemma replace_normalized_pieces:
  assumes "whole = pieces_text ps @ t" "map region (piece_offsets 0 ps) = ms"
  shows "replace_normalized_matches whole ms new_string
    = Some (put_new new_string ps @ t, map fst (piece_offsets 0 (with_new new_string ps)))"
  using replace_pieces [of "[]" ps t new_string "[]" "[]"] assms by (simp add: replace_normalized_matches_def)

section \<open>Hints\<close>

lemma truncate_with_marker_bound:
  assumes "3 \<le> max_bytes"
  shows "\<exists>p. truncate_str_with_marker s max_bytes = Some p \<and> str_len p \<le> max_bytes"
proof -
  have marker: "str_len TRUNCATION_MARKER = 3" by (simp add: TRUNCATION_MARKER_def len_utf8_def)
  obtain p where p: "str_slice_to s (floor_loop s (max_bytes - 3)) = Some p"
    using floor_loop_boundary [of s "max_bytes - 3"] by (auto simp: is_char_boundary_def)
  then have "str_len p + 3 \<le> max_bytes" using assms str_slice_to_Some [OF p] floor_loop_le [of s "max_bytes - 3"] by auto
  then show ?thesis using assms p by (simp add: truncate_str_with_marker_def marker)
qed

lemma nearest_match_hint_bound: "\<exists>h. build_nearest_match_hint file old_string = Some h \<and> str_len h \<le> 200"
  using truncate_with_marker_bound [of 200]
  by (simp add: build_nearest_match_hint_def Let_def del: append_Cons append_Nil split: option.split)

lemma confusable_hint_total: "build_confusable_hint file old_string tools read_name param execute \<noteq> None"
proof (cases "str_find (normalize_confusables file) (normalize_confusables old_string)")
  case None
  then show ?thesis by (simp add: build_confusable_hint_def build_offset_map_eq)
next
  case (Some i)
  let ?old = "normalize_confusables old_string"
  obtain x y where x: "normalize_confusables file = x @ ?old @ y" "i = str_len x" using str_find_Some [OF Some] by blast
  obtain u v where u: "file = u @ v" "nth_opt (snd (build_offset_map file)) (str_len x) = Some (str_len u)"
    by (rule offset_lookup [OF x(1)])
  have xp: "normalize_confusables file = (x @ ?old) @ y" using x(1) by simp
  obtain w z where w: "file = w @ z" "nth_opt (snd (build_offset_map file)) (str_len x + str_len ?old) = Some (str_len w)"
    using offset_lookup [OF xp] by (metis str_len_append)
  have "str_slice_to file (str_len u) = Some u" "str_slice_to file (str_len w) = Some w"
    using str_slice_to_prefix u(1) w(1) by metis+
  then show ?thesis using Some u(2) w(2) x(2)
    by (simp add: build_confusable_hint_def build_offset_map_eq Let_def)
qed

end
