(* ===== verification/SearchReplaceProps.thy ===== *)
theory SearchReplaceProps
  imports SearchReplaceLemmas
begin

text \<open>
  What editing by text promises: a call always answers, it writes at most the file it names, an
  edit replaces exactly the matches that the rules for uniqueness allow, the endings of lines are kept, and a
  refused call changes nothing.
\<close>

section \<open>A call always answers\<close>

lemma piece_details:
  "those (map (edit_detail (pre @ pieces_text (with_new r ps) @ t) old_string r CONTEXT_LINES)
     (map fst (piece_offsets (str_len pre) (with_new r ps)))) \<noteq> None"
proof (induction ps arbitrary: pre)
  case (Cons p ps)
  obtain g m where p: "p = (g, m)" by fastforce
  obtain d where "edit_detail ((pre @ g) @ r @ pieces_text (with_new r ps) @ t) old_string r CONTEXT_LINES (str_len (pre @ g)) = Some d"
    by (rule edit_detail_at [OF refl])
  then show ?case using Cons.IH [of "pre @ g @ r"] by (simp add: p add.assoc)
qed simp

lemma build_edit_details_total:
  obtains ds where "build_edit_details (put_new r ps @ t) old_string r (map fst (piece_offsets 0 (with_new r ps))) CONTEXT_LINES = Some ds"
  using piece_details [of "[]" r ps t old_string] that by (auto simp: build_edit_details_def put_new_text)

lemma no_match_output_total: "no_match_output sv ctx input target match_text \<noteq> None"
proof -
  obtain h where "build_nearest_match_hint match_text (si_old_string input) = Some h" using nearest_match_hint_bound by blast
  then show ?thesis
    by (intro notI) (auto simp: no_match_output_def Let_def bind_eq_None_conv split: sum.splits if_splits
        elim: confusable_hint_total [THEN notE])
qed

lemma plan_replacement_total: "plan_replacement sv ctx input target match_text \<noteq> None"
  using no_match_output_total find_normalized_total [of match_text "si_old_string input"]
  by (auto simp: plan_replacement_def Let_def split: normalized_match_result.splits)

text \<open>The text that is searched, and the text that is written for a new text.\<close>

definition match_view :: "rstr \<Rightarrow> rstr" where
  "match_view old = (if str_contains old [13, 10] then unify_newlines old else old)"

definition write_view :: "rstr \<Rightarrow> rstr \<Rightarrow> rstr" where
  "write_view old new = (if str_contains old [13, 10] then restore_crlf new else new)"

text \<open>
  What it means to replace: the text is taken apart at matches, one unless all are to be replaced, and
  every match becomes the new text. Without the fallback the matches are the text to replace,
  and the result is that of \<^verbatim>\<open>str::replace\<close>.
\<close>

definition replaces_text :: "search_replace_input \<Rightarrow> bool \<Rightarrow> rstr \<Rightarrow> rstr \<Rightarrow> bool" where
  "replaces_text input normalized s s' \<longleftrightarrow>
     (\<exists>ps t. s = pieces_text ps @ t \<and> s' = put_new (si_new_string input) ps @ t \<and> ps \<noteq> [] \<and>
        (si_replace_all input \<or> length ps = 1) \<and>
        (\<forall>(g, m) \<in> set ps. if normalized then normalize_confusables m = normalize_confusables (si_old_string input)
                           else m = si_old_string input)) \<and>
     (normalized \<or> s' = replace_all (si_old_string input) (si_new_string input) s)"

definition applied :: "edit_tool_error + search_replace_output \<Rightarrow> bool" where
  "applied answer \<longleftrightarrow> (case answer of Inr (EditsApplied _) \<Rightarrow> True | _ \<Rightarrow> False)"

definition normalized_answer :: "edit_tool_error + search_replace_output \<Rightarrow> bool" where
  "normalized_answer answer \<longleftrightarrow> (case answer of Inr (EditsApplied a) \<Rightarrow> sa_unicode_normalized a | _ \<Rightarrow> False)"

text \<open>The three ways a call can end: nothing done, a write that failed, a write and its notification.\<close>

definition written_note :: "replace_context \<Rightarrow> rstr \<Rightarrow> rstr \<Rightarrow> rstr option \<Rightarrow> file_written" where
  "written_note ctx target written old =
     \<lparr>tool_call_id = rc_call_id ctx, absolute_path = target, content = written, previous_content = old, is_new_file = (old = None)\<rparr>"

definition call_outcome :: "'fs async_file_system \<Rightarrow> replace_context \<Rightarrow> rstr \<Rightarrow> 'fs \<Rightarrow> (rstr \<Rightarrow> rstr option \<Rightarrow> bool \<Rightarrow> bool)
    \<Rightarrow> 'fs edit_run \<Rightarrow> bool" where
  "call_outcome ops ctx target fs good res \<longleftrightarrow>
     (case res of (answer, fs', notes) \<Rightarrow>
        (\<not> applied answer \<and> notes = [] \<and> (fs' = fs \<or> (\<exists>d e. write_file ops fs target d = (Inl e, fs')))) \<or>
        (applied answer \<and> (\<exists>written old. write_file ops fs target (as_bytes written) = (Inr (), fs') \<and>
           notes = [written_note ctx target written old] \<and> good written old (normalized_answer answer))))"

definition good_replacement :: "'fs async_file_system \<Rightarrow> search_replace_input \<Rightarrow> rstr \<Rightarrow> 'fs \<Rightarrow> rstr \<Rightarrow> rstr option \<Rightarrow> bool \<Rightarrow> bool" where
  "good_replacement ops input target fs written old normalized \<longleftrightarrow>
     (\<exists>bs new. read_file ops fs target = Inr bs \<and> old = Some (from_utf8_lossy bs) \<and>
        replaces_text input normalized (match_view (from_utf8_lossy bs)) new \<and> written = write_view (from_utf8_lossy bs) new)"

text \<open>The call once the file is read and the way to replace is chosen.\<close>

lemma handle_replacement_plan:
  assumes "read_file ops fs target = Inr bs" "old = from_utf8_lossy bs" "s = match_view old"
    and "plan_replacement sv ctx input target s = Some plan"
  shows "handle_replacement ops sv ctx cwd input target fs =
     (case plan of
        Refused answer \<Rightarrow> Some (answer, fs, [])
      | Exact positions \<Rightarrow>
          Option.bind (replace_using_positions s positions (si_old_string input) (si_new_string input))
            (\<lambda>edited. commit_edit ops ctx input target old (str_contains old [13, 10]) edited False fs)
      | NormalizedFallback \<Rightarrow>
          Option.bind (find_normalized_match_positions s (si_old_string input)) (\<lambda>found.
            case found of
              Matches ms \<Rightarrow> Option.bind (replace_normalized_matches s ms (si_new_string input))
                (\<lambda>edited. commit_edit ops ctx input target old (str_contains old [13, 10]) edited True fs)
            | _ \<Rightarrow> Some (Inr (NoMatchesFound \<lparr>nm_message = lit ''Internal error: normalized match disappeared on re-evaluation'',
                     nm_path = target, nm_snapshot = None\<rparr>), fs, [])))"
  by (simp only: handle_replacement_def assms(1) sum.case Let_def assms(2) [symmetric] match_view_def [symmetric]
      assms(3) [symmetric] assms(4) Option.bind.simps)

lemma commit_edit_eq:
  "commit_edit ops ctx input target old (str_contains old [13, 10]) (new, new_positions) normalized fs =
     (case write_file ops fs target (as_bytes (write_view old new)) of
        (Inl e, fs') \<Rightarrow> Some (Inr (update_failure input e), fs', [])
      | (Inr _, fs') \<Rightarrow>
          map_option (\<lambda>details. (Inr (updated_output input target new_positions details normalized), fs',
              [written_note ctx target (write_view old new) (Some old)]))
            (build_edit_details new (si_old_string input) (si_new_string input) new_positions CONTEXT_LINES))"
  by (simp add: commit_edit_def write_view_def [symmetric] written_note_def Let_def split: prod.split sum.split)

lemma commit_outcome:
  assumes "read_file ops fs target = Inr bs" "edited = (put_new (si_new_string input) ps @ t, map fst (piece_offsets 0 (with_new (si_new_string input) ps)))"
    and "replaces_text input normalized (match_view (from_utf8_lossy bs)) (fst edited)"
  shows "\<exists>res. commit_edit ops ctx input target (from_utf8_lossy bs) (str_contains (from_utf8_lossy bs) [13, 10]) edited normalized fs = Some res
    \<and> call_outcome ops ctx target fs (good_replacement ops input target fs) res"
proof -
  obtain ds where ds: "build_edit_details (put_new (si_new_string input) ps @ t) (si_old_string input) (si_new_string input)
      (map fst (piece_offsets 0 (with_new (si_new_string input) ps))) CONTEXT_LINES = Some ds" by (rule build_edit_details_total)
  let ?written = "write_view (from_utf8_lossy bs) (fst edited)"
  obtain r fs' where w: "write_file ops fs target (as_bytes ?written) = (r, fs')" by fastforce
  show ?thesis
  proof (cases r)
    case (Inl e)
    have "\<not> applied (Inr (update_failure input e))" by (simp add: applied_def update_failure_def name_too_long_def)
    then show ?thesis using w Inl assms(2)
      by (auto simp: commit_edit_def call_outcome_def write_view_def)
  next
    case (Inr x)
    have "good_replacement ops input target fs ?written (Some (from_utf8_lossy bs)) normalized"
      using assms(1,3) by (auto simp: good_replacement_def)
    then show ?thesis using w Inr assms(2) ds
      by (auto simp: commit_edit_def call_outcome_def write_view_def applied_def normalized_answer_def updated_output_def written_note_def)
  qed
qed

lemma one_or_all:
  assumes "length xs = length ys" "ys \<noteq> []" "all \<or> \<not> 1 < length ys"
  shows "xs \<noteq> []" "all \<or> length xs = 1"
proof -
  have "0 < length ys" using assms(2) by blast
  then show "xs \<noteq> []" "all \<or> length xs = 1" using assms(1,3) by (cases xs; auto)+
qed

lemma handle_replacement_outcome:
  assumes "si_old_string input \<noteq> []"
  shows "\<exists>res. handle_replacement ops sv ctx cwd input target fs = Some res
    \<and> call_outcome ops ctx target fs (good_replacement ops input target fs) res"
proof (cases "read_file ops fs target")
  case (Inl e)
  have "\<not> applied (read_failure sv fs ctx cwd input target e)"
    by (simp add: applied_def read_failure_def not_found_output_def name_too_long_def Let_def split: option.split io_error_kind.split)
  then show ?thesis by (simp add: handle_replacement_def Inl call_outcome_def)
next
  case (Inr bs)
  define s where "s = match_view (from_utf8_lossy bs)"
  have quiet: "\<not> applied answer" if "plan_replacement sv ctx input target s = Some (Refused answer)" for answer
    using that by (auto simp: plan_replacement_def several_matches_def ambiguous_match_def no_match_output_def applied_def Let_def
        split: if_splits normalized_match_result.splits sum.splits bind_splits)
  obtain plan where plan: "plan_replacement sv ctx input target s = Some plan" using plan_replacement_total by fastforce
  note step = handle_replacement_plan [OF Inr refl s_def plan, of cwd]
  show ?thesis
  proof (cases plan)
    case (Refused answer)
    then show ?thesis using step quiet plan by (simp add: call_outcome_def)
  next
    case (Exact positions)
    obtain ps t where ps: "match_pieces (si_old_string input) [] s = (ps, t)" by fastforce
    have pos: "positions = match_indices s (si_old_string input)" "positions \<noteq> []" "si_replace_all input \<or> \<not> 1 < length positions"
      using plan Exact by (auto simp: plan_replacement_def Let_def split: if_splits normalized_match_result.splits bind_splits)
    have "length ps = length positions" using replace_at_matches(4) [OF ps] pos(1) by simp
    note cnt = one_or_all [OF this pos(2,3)]
    from cnt have "replaces_text input False s (put_new (si_new_string input) ps @ t)"
      using replace_at_matches(2,3,5) [OF ps] by (auto simp: replaces_text_def)
    then show ?thesis
      using commit_outcome [OF Inr refl, where normalized = False and input = input and ps = ps and t = t] replace_at_matches(1) [OF ps]
      by (simp add: step Exact pos(1) s_def)
  next
    case NormalizedFallback
    then obtain ms where ms: "find_normalized_match_positions s (si_old_string input) = Some (Matches ms)"
        "si_replace_all input \<or> \<not> 1 < length ms"
      using plan by (auto simp: plan_replacement_def Let_def split: if_splits normalized_match_result.splits bind_splits)
    then obtain ps t where ps: "ms \<noteq> []" "s = pieces_text ps @ t" "map region (piece_offsets 0 ps) = ms"
        "\<forall>(g, m) \<in> set ps. normalize_confusables m = normalize_confusables (si_old_string input)"
      using find_normalized_total [of s "si_old_string input"] by auto
    then have len: "length ps = length ms" by auto
    note cnt = one_or_all [OF this ps(1) ms(2)]
    from cnt have "replaces_text input True s (put_new (si_new_string input) ps @ t)"
      using ps(2,4) by (auto simp: replaces_text_def)
    then show ?thesis
      using commit_outcome [OF Inr refl, where normalized = True and input = input and ps = ps and t = t] replace_normalized_pieces [OF ps(2,3)]
      by (simp add: step NormalizedFallback ms(1) s_def [symmetric])
  qed
qed

lemma create_outcome:
  assumes "si_old_string input = []"
  shows "call_outcome ops ctx target fs (\<lambda>written old normalized. written = si_new_string input \<and> old = None \<and> \<not> normalized)
     (handle_new_file_creation ops sv ctx cwd input target no_override fs)"
proof -
  obtain r fs' where w: "write_file ops fs target (as_bytes (si_new_string input)) = (r, fs')" by fastforce
  have "\<not> applied (Inr (create_failure sv fs' ctx cwd input target e))" for e
    by (simp add: applied_def create_failure_def not_found_output_def name_too_long_def Let_def)
  then show ?thesis using w
    by (auto simp: handle_new_file_creation_def call_outcome_def applied_def normalized_answer_def written_note_def Let_def split: sum.splits)
qed

text \<open>The directory of a call and the file it names.\<close>

definition call_cwd :: "replace_context \<Rightarrow> rstr option" where
  "call_cwd ctx = (case rc_cwd_override ctx of Some d \<Rightarrow> Some d | None \<Rightarrow> ec_cwd ctx)"

definition call_target :: "'fs edit_services \<Rightarrow> 'fs \<Rightarrow> replace_context \<Rightarrow> search_replace_input \<Rightarrow> rstr" where
  "call_target sv fs ctx input = resolve_target sv fs ctx (case call_cwd ctx of Some d \<Rightarrow> d | None \<Rightarrow> []) (si_file_path input)"

definition good_call :: "'fs async_file_system \<Rightarrow> search_replace_input \<Rightarrow> rstr \<Rightarrow> 'fs \<Rightarrow> rstr \<Rightarrow> rstr option \<Rightarrow> bool \<Rightarrow> bool" where
  "good_call ops input target fs written old normalized \<longleftrightarrow>
     (if si_old_string input = [] then written = si_new_string input \<and> old = None \<and> \<not> normalized
      else good_replacement ops input target fs written old normalized)"

lemma run_outcome:
  "\<exists>res. run_search_replace ops sv ctx input fs = Some res
    \<and> call_outcome ops ctx (call_target sv fs ctx input) fs (good_call ops input (call_target sv fs ctx input) fs) res"
proof (cases "call_cwd ctx")
  case None
  then show ?thesis by (simp add: run_search_replace_def call_cwd_def [symmetric] call_outcome_def applied_def)
next
  case (Some cwd)
  define target where "target = resolve_target sv fs ctx cwd (si_file_path input)"
  have quiet: "call_outcome ops ctx target fs good (Inr answer, fs, [])" if "\<not> applied (Inr answer)" for answer good
    using that by (simp add: call_outcome_def)
  have long: "\<not> applied (Inr answer)" if "validate_path_length p = Some answer" for p answer
    using that by (auto simp: validate_path_length_def applied_def)
  have "call_target sv fs ctx input = target" by (simp add: call_target_def Some target_def)
  moreover have "call_outcome ops ctx target fs (good_call ops input target fs) res" if "si_old_string input \<noteq> []"
      "call_outcome ops ctx target fs (good_replacement ops input target fs) res" for res
    using that by (simp add: call_outcome_def good_call_def)
  moreover have "call_outcome ops ctx target fs (good_call ops input target fs)
      (handle_new_file_creation ops sv ctx cwd input target no_override fs)" if "si_old_string input = []" for no_override
    using create_outcome [OF that] that by (simp add: good_call_def [abs_def])
  ultimately show ?thesis
    using handle_replacement_outcome [of input ops sv ctx cwd target fs] quiet long
    by (auto simp: run_search_replace_def call_cwd_def [symmetric] Some Let_def target_def [symmetric] applied_def simp del: split_paired_Ex split: option.split)
qed

text \<open>C19: editing by text always answers: whatever the file holds, whatever is looked for and however the
  services answer, no slice is cut inside a character, no index is out of range and no difference
  is negative, in the edit, in its details and in the hints of an error.
\<close>

theorem search_replace_answers: "\<exists>answer fs' notes. search_replace_tool ops sv ctx input fs = Some (answer, fs', notes)"
  using run_outcome [of ops sv ctx input fs] by (auto simp: search_replace_tool_def)

text \<open>C18: a call reads and writes only the file that its path resolves to. It announces exactly the writes
  that succeeded, with the text that is now in the file; a call that is refused leaves the files as they
  are, unless the write itself failed.
\<close>

theorem search_replace_effect:
  assumes "file_store ops" "run_search_replace ops sv ctx input fs = Some (answer, fs', notes)"
    and "target = call_target sv fs ctx input"
  shows "(\<forall>q. components q \<noteq> components target \<longrightarrow> file_contents ops fs' q = file_contents ops fs q) \<and>
    (if applied answer
     then \<exists>n. notes = [n] \<and> absolute_path n = target \<and> file_contents ops fs' target = Some (as_bytes (content n))
     else notes = [] \<and> (fs' = fs \<or> (\<exists>d e. write_file ops fs target d = (Inl e, fs'))))"
proof -
  have out: "call_outcome ops ctx target fs (good_call ops input target fs) (answer, fs', notes)"
    using run_outcome [of ops sv ctx input fs] assms(2,3) by auto
  have frame: "fs' = fs \<or> (\<exists>d r. write_file ops fs target d = (r, fs'))" using out by (auto simp: call_outcome_def)
  then have "file_contents ops fs' q = file_contents ops fs q" if "components q \<noteq> components target" for q
    using file_store.write_frame [OF assms(1)] that by blast
  moreover have "\<exists>n. notes = [n] \<and> absolute_path n = target \<and> file_contents ops fs' target = Some (as_bytes (content n))" if "applied answer"
    using out that file_store.write_contents [OF assms(1)] by (fastforce simp: call_outcome_def written_note_def)
  moreover have "notes = [] \<and> (fs' = fs \<or> (\<exists>d e. write_file ops fs target d = (Inl e, fs')))" if "\<not> applied answer"
    using out that by (auto simp: call_outcome_def)
  ultimately show ?thesis by auto
qed

text \<open>C10: an edit that is reported as applied has replaced matches of the text and nothing else: the file's
  text, with the endings of its lines set aside, is taken apart at matches, one unless all were asked for, and every
  match became the new text; the result was written and announced together with the text before.
\<close>

theorem search_replace_replaces:
  assumes "file_store ops" "run_search_replace ops sv ctx input fs = Some (Inr (EditsApplied a), fs', notes)"
    and "si_old_string input \<noteq> []" "target = call_target sv fs ctx input"
  shows "\<exists>bs new. read_file ops fs target = Inr bs \<and>
    replaces_text input (sa_unicode_normalized a) (match_view (from_utf8_lossy bs)) new \<and>
    file_contents ops fs' target = Some (as_bytes (write_view (from_utf8_lossy bs) new)) \<and>
    notes = [written_note ctx target (write_view (from_utf8_lossy bs) new) (Some (from_utf8_lossy bs))]"
proof -
  have "call_outcome ops ctx target fs (good_call ops input target fs) (Inr (EditsApplied a), fs', notes)"
    using run_outcome [of ops sv ctx input fs] assms(2,4) by auto
  then obtain written old where w: "write_file ops fs target (as_bytes written) = (Inr (), fs')"
      "notes = [written_note ctx target written old]" "good_replacement ops input target fs written old (sa_unicode_normalized a)"
    using assms(3) by (auto simp: call_outcome_def applied_def normalized_answer_def good_call_def)
  moreover have "file_contents ops fs' target = Some (as_bytes written)"
    using file_store.write_contents [OF assms(1) w(1)] by simp
  ultimately show ?thesis by (auto simp: good_replacement_def)
qed

section \<open>When a call is decided how\<close>

text \<open>The conditions under which a call gets to the contents of the file.\<close>

definition admitted :: "'fs edit_services \<Rightarrow> 'fs \<Rightarrow> replace_context \<Rightarrow> search_replace_input \<Rightarrow> bool" where
  "admitted sv fs ctx input \<longleftrightarrow>
     call_cwd ctx \<noteq> None \<and> validate_path_length (si_file_path input) = None \<and>
     \<not> es_is_dir sv fs (call_target sv fs ctx input) \<and>
     (is_legacy (from_contract (rc_version ctx)) \<or> rc_respect_gitignore ctx = Some False \<or>
      (case rc_gitignore ctx of Some ignored \<Rightarrow> \<not> ignored (call_target sv fs ctx input) | None \<Rightarrow> True)) \<and>
     si_old_string input \<noteq> si_new_string input"

lemma run_admitted:
  assumes "admitted sv fs ctx input" "si_old_string input \<noteq> []"
  shows "run_search_replace ops sv ctx input fs =
    handle_replacement ops sv ctx (the (call_cwd ctx)) input (call_target sv fs ctx input) fs"
  using assms
  by (auto simp: run_search_replace_def admitted_def call_cwd_def [symmetric] call_target_def split: option.splits)

lemma exact_edit_runs:
  assumes "admitted sv fs ctx input" "si_old_string input \<noteq> []" "target = call_target sv fs ctx input"
    and "read_file ops fs target = Inr bs" "old = from_utf8_lossy bs"
    and "n = length (match_indices (match_view old) (si_old_string input))" "n = 1 \<or> 1 < n \<and> si_replace_all input"
    and "written = write_view old (replace_all (si_old_string input) (si_new_string input) (match_view old))"
    and "write_file ops fs target (as_bytes written) = (Inr (), fs')"
  shows "\<exists>a. run_search_replace ops sv ctx input fs =
    Some (Inr (EditsApplied a), fs', [written_note ctx target written (Some old)]) \<and> \<not> sa_unicode_normalized a"
proof -
  let ?s = "match_view old"
  let ?ix = "match_indices ?s (si_old_string input)"
  have "?ix \<noteq> []" using assms(6,7) by auto
  then have p: "plan_replacement sv ctx input target ?s = Some (Exact ?ix)"
    using assms(6,7) by (auto simp: plan_replacement_def)
  obtain ps t where ps: "match_pieces (si_old_string input) [] ?s = (ps, t)" by fastforce
  obtain ds where ds: "build_edit_details (put_new (si_new_string input) ps @ t) (si_old_string input) (si_new_string input)
      (map fst (piece_offsets 0 (with_new (si_new_string input) ps))) CONTEXT_LINES = Some ds" by (rule build_edit_details_total)
  have new: "replace_all (si_old_string input) (si_new_string input) ?s = put_new (si_new_string input) ps @ t"
    by (rule replace_at_matches(2) [OF ps])
  have run: "run_search_replace ops sv ctx input fs = handle_replacement ops sv ctx (the (call_cwd ctx)) input target fs"
    using run_admitted [OF assms(1,2)] assms(3) by simp
  show ?thesis
    unfolding run handle_replacement_plan [OF assms(4,5) refl p]
    using assms(8,9) by (simp add: replace_at_matches(1) [OF ps] commit_edit_eq new ds updated_output_def)
qed


section \<open>Endings of lines\<close>

definition to_crlf :: "rstr \<Rightarrow> rstr" where
  "to_crlf w = replace_all [10] [13, 10] w"

lemma to_crlf_simps [simp]:
  "to_crlf [] = []" "to_crlf (c # w) = (if c = 10 then 13 # 10 # to_crlf w else c # to_crlf w)"
  by (auto simp: to_crlf_def)

lemma to_crlf_append: "to_crlf (u @ v) = to_crlf u @ to_crlf v"
  by (induction u) auto

lemma unify_simps:
  "unify_newlines [] = []" "unify_newlines (13 # 10 # s) = 10 # unify_newlines s"
  "c \<noteq> 13 \<Longrightarrow> unify_newlines (c # s) = c # unify_newlines s"
  by (simp_all add: unify_newlines_def)

lemma unify_to_crlf: "13 \<notin> set w \<Longrightarrow> unify_newlines (to_crlf w) = w"
  by (induction w) (auto simp: unify_simps)

lemma unify_id: "13 \<notin> set w \<Longrightarrow> unify_newlines w = w"
  by (induction w) (auto simp: unify_simps)

lemma contains_to_crlf: "10 \<in> set w \<Longrightarrow> str_contains (to_crlf w) [13, 10]"
proof -
  assume "10 \<in> set w"
  then obtain u v where "w = u @ 10 # v" by (meson split_list)
  then have "to_crlf w = to_crlf u @ [13, 10] @ to_crlf v" by (simp add: to_crlf_append)
  then show ?thesis unfolding str_contains_def find_sub_None by blast
qed

lemma valid_to_crlf: "valid_str w \<Longrightarrow> valid_str (to_crlf w)"
  by (induction w) (auto simp: valid_rune_def)

lemma set_replace_all: fixes w :: rstr shows "set (replace_all pat r w) \<subseteq> set r \<union> set w"
proof (induction pat r w rule: replace_all.induct)
  case (2 pat r c s)
  show ?case
  proof (cases "pat \<noteq> [] \<and> prefix pat (c # s)")
    case True
    then show ?thesis using "2.IH"(1) set_drop_subset [of "length pat" "c # s"] by auto
  next
    case False
    then show ?thesis using "2.IH"(2) [OF False] unfolding match_pieces_miss(3) [OF False] by auto
  qed
qed simp

lemma replace_all_no_cr: fixes w :: rstr shows "13 \<notin> set w \<Longrightarrow> 13 \<notin> set r \<Longrightarrow> 13 \<notin> set (replace_all pat r w)"
  using set_replace_all [of pat r w] by auto

text \<open>C27: a file whose lines end in carriage return and newline can be edited as it is shown, without the carriage
  returns, and keeps them: the edited file is the edited text with every ending restored.
\<close>

theorem crlf_file_edit:
  assumes "file_store ops" "run_search_replace ops sv ctx input fs = Some (Inr (EditsApplied a), fs', notes)"
    and "si_old_string input \<noteq> []" "\<not> sa_unicode_normalized a" "target = call_target sv fs ctx input"
    and "read_file ops fs target = Inr (as_bytes (to_crlf w))" "valid_str w" "13 \<notin> set w" "10 \<in> set w"
    and "13 \<notin> set (si_new_string input)"
  shows "file_contents ops fs' target = Some (as_bytes (to_crlf (replace_all (si_old_string input) (si_new_string input) w)))"
proof -
  have "call_outcome ops ctx target fs (good_call ops input target fs) (Inr (EditsApplied a), fs', notes)"
    using run_outcome [of ops sv ctx input fs] assms(2,5) by auto
  then obtain written old where w: "write_file ops fs target (as_bytes written) = (Inr (), fs')"
      "good_replacement ops input target fs written old False"
    using assms(3,4) by (auto simp: call_outcome_def applied_def normalized_answer_def good_call_def)
  have bytes: "from_utf8_lossy (as_bytes (to_crlf w)) = to_crlf w" using assms(7) by (simp add: from_utf8_lossy_as_bytes valid_to_crlf)
  have view: "match_view (to_crlf w) = w" using assms(8,9) by (simp add: match_view_def contains_to_crlf unify_to_crlf)
  let ?new = "replace_all (si_old_string input) (si_new_string input) w"
  have "written = restore_crlf ?new"
    using w(2) assms(6,9) by (auto simp: good_replacement_def bytes view replaces_text_def write_view_def contains_to_crlf)
  also have "\<dots> = to_crlf ?new" using assms(8,10) by (simp add: restore_crlf_def unify_id replace_all_no_cr to_crlf_def)
  finally show ?thesis using file_store.write_contents [OF assms(1) w(1)] by simp
qed

section \<open>The answers of the legacy contract\<close>

lemma downgrade_flat: "downgrade_structured_errors ctx p r = Inr res \<Longrightarrow> \<exists>a msg. res = EditsApplied a \<or> res = InvalidInput msg"
  by (auto simp: downgrade_structured_errors_def split: sum.splits search_replace_output.splits)


section \<open>Details of an edit\<close>

definition locates :: "rstr \<Rightarrow> rstr \<Rightarrow> search_replace_edit_detail \<Rightarrow> bool" where
  "locates whole r d \<longleftrightarrow>
     (\<exists>u x y. whole = u @ sd_context_before d @ sd_line_prefix d @ r @ x @ sd_context_after d @ y \<and>
        sd_new_line d = count_char 10 (u @ sd_context_before d @ sd_line_prefix d) + 1 \<and> 10 \<notin> set (sd_line_prefix d) \<and>
        count_char 10 (sd_context_before d) \<le> CONTEXT_LINES \<and> count_char 10 (sd_context_after d) \<le> CONTEXT_LINES \<and>
        count_char 10 x \<le> 1)"

lemma piece_details_locate:
  "those (map (edit_detail (pre @ pieces_text (with_new r ps) @ t) old_string r CONTEXT_LINES)
     (map fst (piece_offsets (str_len pre) (with_new r ps)))) = Some ds \<Longrightarrow>
   length ds = length ps \<and> (\<forall>d \<in> set ds. locates (pre @ pieces_text (with_new r ps) @ t) r d)"
proof (induction ps arbitrary: pre ds)
  case (Cons p ps)
  obtain g m where p: "p = (g, m)" by fastforce
  let ?whole = "(pre @ g) @ r @ pieces_text (with_new r ps) @ t"
  obtain d h x y where d: "edit_detail ?whole old_string r CONTEXT_LINES (str_len (pre @ g)) = Some d"
      "sd_new_line d = count_char 10 (pre @ g) + 1" "pre @ g = h @ sd_context_before d @ sd_line_prefix d"
      "10 \<notin> set (sd_line_prefix d)" "pieces_text (with_new r ps) @ t = x @ sd_context_after d @ y"
      "count_char 10 (sd_context_before d) \<le> 3" "count_char 10 (sd_context_after d) \<le> 3" "count_char 10 x \<le> 1"
    by (rule edit_detail_at [OF refl])
  from d(1) obtain ds' where ds: "ds = d # ds'"
      "those (map (edit_detail ((pre @ g @ r) @ pieces_text (with_new r ps) @ t) old_string r CONTEXT_LINES)
         (map fst (piece_offsets (str_len (pre @ g @ r)) (with_new r ps)))) = Some ds'"
    using Cons.prems by (auto simp: p add.assoc)
  have "?whole = h @ sd_context_before d @ sd_line_prefix d @ r @ x @ sd_context_after d @ y"
    unfolding d(3,5) by simp
  then have "locates ?whole r d"
    using d(2,4,6-8) unfolding locates_def d(3) CONTEXT_LINES_def by blast
  then show ?case using Cons.IH [OF ds(2)] by (simp add: ds(1) p)
qed simp

text \<open>The details of an exact edit find it again: each names the line of the new text on which its
  replacement starts, and the context it quotes, at most three lines on either side, is the text around that
  replacement.
\<close>

theorem edit_details_locate:
  assumes "replace_using_positions s (match_indices s old_string) old_string new_string = Some (s', new_positions)"
  shows "\<exists>ds. build_edit_details s' old_string new_string new_positions CONTEXT_LINES = Some ds \<and>
    length ds = length (match_indices s old_string) \<and> (\<forall>d \<in> set ds. locates s' new_string d)"
proof -
  obtain ps t where ps: "match_pieces old_string [] s = (ps, t)" by fastforce
  have s': "s' = put_new new_string ps @ t" "new_positions = map fst (piece_offsets 0 (with_new new_string ps))"
    using assms replace_at_matches(1) [OF ps, of new_string] by simp_all
  obtain ds where ds: "build_edit_details (put_new new_string ps @ t) old_string new_string
      (map fst (piece_offsets 0 (with_new new_string ps))) CONTEXT_LINES = Some ds" by (rule build_edit_details_total)
  then show ?thesis
    using piece_details_locate [of "[]" new_string ps t old_string ds] replace_at_matches(4) [OF ps]
    by (simp add: s' build_edit_details_def put_new_text)
qed

section \<open>Examples\<close>

text \<open>A call in a directory with one file, a services record that finds this file under every path.\<close>

definition sample_services :: "mock_fs edit_services" where
  "sample_services =
     \<lparr>es_paths = \<lparr>ps_tilde = id, ps_canonicalize = (\<lambda>fs p. Some p), ps_unicode_match = (\<lambda>fs p. None),
                  ps_not_found_hint = (\<lambda>fs p c d. [])\<rparr>,
      es_canonicalize = (\<lambda>fs p. Inr (lit ''/f'')), es_is_dir = (\<lambda>fs p. False), es_exists = (\<lambda>fs p. True),
      es_mkdirs = (\<lambda>cs fs. (Inr (), fs)), es_query_tools = \<lparr>qt_jq = None, qt_python = None, qt_sed = None, qt_cut = None\<rparr>\<rparr>"

definition sample_context :: replace_context where
  "sample_context =
     \<lparr>ec_cwd = Some (lit ''/''), ec_display_cwd = None, ec_hints = False, rc_cwd_override = None, rc_version = None,
      rc_call_id = lit ''1'', rc_params = None, rc_renderer = Some Inr, rc_respect_gitignore = None, rc_gitignore = None\<rparr>"

definition sample_input :: "rstr \<Rightarrow> rstr \<Rightarrow> bool \<Rightarrow> search_replace_input" where
  "sample_input old_string new_string all =
     \<lparr>si_file_path = lit ''f'', si_old_string = old_string, si_new_string = new_string, si_replace_all = all\<rparr>"

definition sample_file :: "rstr \<Rightarrow> mock_fs" where
  "sample_file s = [components (lit ''/f'') \<mapsto> as_bytes s]"

lemma sample_target: "call_target sample_services fs sample_context (sample_input old_string new_string all) = lit ''/f''"
  by (simp add: call_target_def resolve_target_def sample_services_def)

lemma sample_path_ok: "validate_path_length (lit ''f'') = None"
proof -
  have "components (lit ''f'') = [Normal [102]]" by (simp add: components_def to_component_def starts_with_def str_simps)
  then show ?thesis by (simp add: validate_path_length_def List.map_filter_def NAME_MAX_def len_utf8_def)
qed

lemma sample_admitted:
  "old_string \<noteq> new_string \<Longrightarrow> admitted sample_services fs sample_context (sample_input old_string new_string all)"
  by (simp add: admitted_def sample_target sample_path_ok sample_input_def)
    (simp add: sample_context_def sample_services_def call_cwd_def)

lemma sample_file_read: "read_file mock_ops (sample_file s) (lit ''/f'') = Inr (as_bytes s)"
  by (simp add: mock_ops_def sample_file_def)

lemma sample_runs:
  assumes "old_string \<noteq> []" "old_string \<noteq> new_string" "valid_str s"
    and "length (match_indices (match_view s) old_string) = 1"
    and "written = write_view s (replace_all old_string new_string (match_view s))"
  shows "\<exists>a. run_search_replace mock_ops sample_services sample_context (sample_input old_string new_string False) (sample_file s) =
    Some (Inr (EditsApplied a), (sample_file s)(components (lit ''/f'') \<mapsto> as_bytes written),
      [written_note sample_context (lit ''/f'') written (Some s)]) \<and> \<not> sa_unicode_normalized a"
  by (rule exact_edit_runs [OF sample_admitted [OF assms(2)] _ sample_target [symmetric] sample_file_read])
    (use assms in \<open>simp_all add: sample_input_def from_utf8_lossy_as_bytes mock_write\<close>)

text \<open>The text \<open>ab\<close> in which \<open>b\<close> becomes \<open>c\<close>, and the same in a file with carriage returns.\<close>

lemma sample_ab:
  "\<exists>a. run_search_replace mock_ops sample_services sample_context (sample_input [98] [99] False) (sample_file [97, 98]) =
    Some (Inr (EditsApplied a), (sample_file [97, 98])(components (lit ''/f'') \<mapsto> as_bytes [97, 99]),
      [written_note sample_context (lit ''/f'') [97, 99] (Some [97, 98])]) \<and> \<not> sa_unicode_normalized a"
  by (rule sample_runs)
    (simp_all add: valid_rune_def match_view_def write_view_def str_contains_def starts_with_def match_indices_def)

lemma search_replace_effect_witness:
  "\<exists>answer fs' notes. run_search_replace mock_ops sample_services sample_context (sample_input [98] [99] False) (sample_file [97, 98])
     = Some (answer, fs', notes) \<and> (\<forall>q. components q \<noteq> components (lit ''/f'') \<longrightarrow>
       file_contents mock_ops fs' q = file_contents mock_ops (sample_file [97, 98]) q)"
proof -
  obtain a fs' ns where "run_search_replace mock_ops sample_services sample_context (sample_input [98] [99] False) (sample_file [97, 98])
      = Some (Inr (EditsApplied a), fs', ns)" using sample_ab by blast
  from search_replace_effect [OF mock.file_store_axioms this sample_target [symmetric]] this show ?thesis by blast
qed

lemma search_replace_replaces_witness:
  "\<exists>a fs' notes. run_search_replace mock_ops sample_services sample_context (sample_input [98] [99] False) (sample_file [97, 98])
     = Some (Inr (EditsApplied a), fs', notes) \<and> (\<exists>bs. read_file mock_ops (sample_file [97, 98]) (lit ''/f'') = Inr bs)"
proof -
  obtain a fs' ns where run: "run_search_replace mock_ops sample_services sample_context (sample_input [98] [99] False) (sample_file [97, 98])
      = Some (Inr (EditsApplied a), fs', ns)" using sample_ab by blast
  have "si_old_string (sample_input [98] [99] False) \<noteq> []" by (simp add: sample_input_def)
  from search_replace_replaces [OF mock.file_store_axioms run this sample_target [symmetric]] run show ?thesis by blast
qed


lemma crlf_file_edit_witness:
  "\<exists>a fs' notes. run_search_replace mock_ops sample_services sample_context (sample_input [98] [99] False) (sample_file [97, 13, 10, 98])
     = Some (Inr (EditsApplied a), fs', notes) \<and> file_contents mock_ops fs' (lit ''/f'') = Some (as_bytes [97, 13, 10, 99])"
proof -
  have "\<exists>a. run_search_replace mock_ops sample_services sample_context (sample_input [98] [99] False) (sample_file [97, 13, 10, 98]) =
    Some (Inr (EditsApplied a), (sample_file [97, 13, 10, 98])(components (lit ''/f'') \<mapsto> as_bytes [97, 13, 10, 99]),
      [written_note sample_context (lit ''/f'') [97, 13, 10, 99] (Some [97, 13, 10, 98])]) \<and> \<not> sa_unicode_normalized a"
    by (rule sample_runs)
      (simp_all add: valid_rune_def match_view_def write_view_def str_contains_def starts_with_def match_indices_def
        unify_newlines_def restore_crlf_def)
  then obtain a fs' ns where run: "run_search_replace mock_ops sample_services sample_context (sample_input [98] [99] False)
      (sample_file [97, 13, 10, 98]) = Some (Inr (EditsApplied a), fs', ns)" "\<not> sa_unicode_normalized a" by blast
  have "read_file mock_ops (sample_file [97, 13, 10, 98]) (lit ''/f'') = Inr (as_bytes (to_crlf [97, 10, 98]))"
    by (simp add: sample_file_read)
  from crlf_file_edit [OF mock.file_store_axioms run(1) _ run(2) sample_target [symmetric] this] run(1) show ?thesis
    by (auto simp: sample_input_def valid_rune_def)
qed


lemma edit_details_locate_witness:
  "\<exists>ds. build_edit_details [97, 99] [98] [99] [1] CONTEXT_LINES = Some ds \<and> (\<forall>d \<in> set ds. locates [97, 99] [99] d)"
proof -
  have "replace_using_positions [97, 98] (match_indices [97, 98] [98]) [98] [99] = Some ([97, 99], [1])"
    using replace_at_matches(1) [of "[98]" "[97, 98]" "[([97], [98])]" "[]" "[99]"] by (simp add: len_utf8_def)
  from edit_details_locate [OF this] show ?thesis by blast
qed

section \<open>Where the code departs from its description\<close>

text \<open>Two overlapping occurrences count as one: \<open>aa\<close> is found once in \<open>aaa\<close>, and the edit goes through.\<close>

lemma overlapping_match_edited:
  "[97, 97, 97] = [] @ [97, 97] @ [97]" "[97, 97, 97] = [97] @ [97, 97] @ []"
  "\<exists>a. run_search_replace mock_ops sample_services sample_context (sample_input [97, 97] [98] False) (sample_file [97, 97, 97]) =
    Some (Inr (EditsApplied a), (sample_file [97, 97, 97])(components (lit ''/f'') \<mapsto> as_bytes [98, 97]),
      [written_note sample_context (lit ''/f'') [98, 97] (Some [97, 97, 97])]) \<and> \<not> sa_unicode_normalized a"
proof -
  show "\<exists>a. run_search_replace mock_ops sample_services sample_context (sample_input [97, 97] [98] False) (sample_file [97, 97, 97]) =
    Some (Inr (EditsApplied a), (sample_file [97, 97, 97])(components (lit ''/f'') \<mapsto> as_bytes [98, 97]),
      [written_note sample_context (lit ''/f'') [98, 97] (Some [97, 97, 97])]) \<and> \<not> sa_unicode_normalized a"
    by (rule sample_runs)
      (simp_all add: valid_rune_def match_view_def write_view_def str_contains_def starts_with_def match_indices_def)
qed simp_all

text \<open>
  A candidate that is refused hides the match it overlaps: the text has two em-dashes that both read as the pattern, but
  the hyphen before the first is taken with half of it, and the second is reported as the only match.
\<close>

lemma refused_candidate_hides_match:
  "find_normalized_match_positions [45, 8212, 32, 8212] [45, 45] = Some (Matches [region (5, 3)])"
  "normalize_confusables [8212] = normalize_confusables [45, 45]"
proof -
  have om: "build_offset_map [45, 8212, 32, 8212] = ([45, 45, 45, 32, 45, 45], [0, 1, 1, 4, 5, 5, 8])"
    by (simp add: build_offset_map_eq confusable_eval)
  have pat: "normalize_confusables [45, 45] = [45, 45]" by (simp add: confusable_eval)
  have "match_indices [45, 45, 45, 32, 45, 45] [45, 45] = [0, 4]" by (simp add: match_indices_def len_utf8_def)
  moreover have "str_slice [45, 8212, 32, 8212] 0 1 = Some [45]"
    using str_slice_middle [of "[]" "[45]" "[8212, 32, 8212]"] by (simp add: len_utf8_def)
  moreover have "str_slice [45, 8212, 32, 8212] 5 8 = Some [8212]"
    using str_slice_middle [of "[45, 8212, 32]" "[8212]" "[]"] by (simp add: len_utf8_def)
  ultimately show "find_normalized_match_positions [45, 8212, 32, 8212] [45, 45] = Some (Matches [region (5, 3)])"
    by (simp add: find_normalized_match_positions_def om pat nth_opt_def region_def confusable_eval)
  show "normalize_confusables [8212] = normalize_confusables [45, 45]" by (simp add: confusable_eval)
qed

text \<open>Offsets inside a replacement do not map back: the first half of an em-dash is the empty slice.\<close>

lemma half_replacement_maps_to_nothing:
  "build_offset_map [8212] = ([45, 45], [0, 0, 3])" "str_slice [8212] 0 0 = Some []" "normalize_confusables [] \<noteq> [45]"
  by (simp_all add: build_offset_map_eq confusable_eval str_slice_def str_slice_from_def)

text \<open>\<open>old_line\<close> is the line in the new text: both lines of the file become two, and the second edit is said to have been on line 3.\<close>

lemma old_line_counts_new_lines:
  "match_indices [98, 10, 98] [98] = [0, 2]"
  "map_option (map sd_old_line) (Option.bind (replace_using_positions [98, 10, 98] [0, 2] [98] [120, 10, 121])
     (\<lambda>(new, ps). build_edit_details new [98] [120, 10, 121] ps CONTEXT_LINES)) = Some [1, 3]"
  by code_simp+

text \<open>A file that is overwritten is announced as new, without the text it had.\<close>

lemma overwritten_file_announced_as_new:
  assumes "read_file ops fs target = Inr bs" "bs \<noteq> []" "write_file ops fs target (as_bytes (si_new_string input)) = (Inr (), fs')"
  shows "snd (snd (handle_new_file_creation ops sv ctx cwd input target False fs))
    = [written_note ctx target (si_new_string input) None]"
  using assms by (simp add: handle_new_file_creation_def written_note_def Let_def)

text \<open>A carriage return before the ending of a line is lost when any other line is edited.\<close>

lemma carriage_return_lost:
  "\<exists>a. run_search_replace mock_ops sample_services sample_context (sample_input [98] [99] False) (sample_file [97, 13, 13, 10, 98]) =
    Some (Inr (EditsApplied a), (sample_file [97, 13, 13, 10, 98])(components (lit ''/f'') \<mapsto> as_bytes [97, 13, 10, 99]),
      [written_note sample_context (lit ''/f'') [97, 13, 10, 99] (Some [97, 13, 13, 10, 98])]) \<and> \<not> sa_unicode_normalized a"
  by (rule sample_runs)
    (simp_all add: valid_rune_def match_view_def write_view_def str_contains_def starts_with_def match_indices_def
      unify_newlines_def restore_crlf_def)

end
