(* ===== verification/OpencodeEdit.thy ===== *)
theory OpencodeEdit
  imports SearchReplaceProps
begin

text \<open>
  The tools \<open>edit\<close> and \<open>write\<close> of the other tool set (\<^verbatim>\<open>opencode/edit/mod.rs\<close>, \<^verbatim>\<open>opencode/write/mod.rs\<close>): they
  share the helpers and the answers of \<open>search_replace\<close>, with rules of their own for new files, line endings and
  errors. \<^verbatim>\<open>tokio::fs::create_dir_all\<close> and \<^verbatim>\<open>Path::exists\<close> are in the record of services.
\<close>

section \<open>Tools\<close>

record edit_input =
  ei_file_path :: rstr
  ei_old_string :: rstr
  ei_new_string :: rstr
  ei_replace_all :: "bool option"

record write_input =
  wi_file_path :: rstr
  wi_content :: rstr

definition resolve_cwd :: "replace_context \<Rightarrow> edit_tool_error + rstr" where
  "resolve_cwd ctx =
     (case rc_cwd_override ctx of
        Some d \<Rightarrow> Inr d
      | None \<Rightarrow>
          (case ec_cwd ctx of
             Some d \<Rightarrow> Inr d
           | None \<Rightarrow> Inl (CustomError (lit ''missing_cwd'') (lit ''Cwd not available in Resources''))))"

text \<open>The directories above a file; \<open>Inl\<close> is the message of a failed \<^verbatim>\<open>create_dir_all\<close>.\<close>

definition make_parents :: "'fs edit_services \<Rightarrow> rstr \<Rightarrow> 'fs \<Rightarrow> (rstr + unit) \<times> 'fs" where
  "make_parents sv p fs =
     (case path_parent p of
        None \<Rightarrow> (Inr (), fs)
      | Some parent \<Rightarrow> if parent = [] then (Inr (), fs) else es_mkdirs sv parent fs)"

definition edit_new_file :: "'fs async_file_system \<Rightarrow> 'fs edit_services \<Rightarrow> replace_context \<Rightarrow> edit_input \<Rightarrow> rstr \<Rightarrow> 'fs
    \<Rightarrow> 'fs edit_run" where
  "edit_new_file ops sv ctx input target fs =
     (if (case read_file ops fs target of Inr bs \<Rightarrow> bs \<noteq> [] | Inl _ \<Rightarrow> False) then
        (Inr (FileAlreadyExists (lit ''oldString is empty, which is only allowed when creating a new file or when the file is empty.'')),
         fs, [])
      else
        (case make_parents sv target fs of
           (Inl e, fs') \<Rightarrow> (Inl (ExecutionError (lit ''edit'') e), fs', [])
         | (Inr _, fs') \<Rightarrow>
             (case write_file ops fs' target (as_bytes (ei_new_string input)) of
                (Inl e, fs'') \<Rightarrow> (Inl (ExecutionError (lit ''edit'') (show_computer_error e)), fs'', [])
              | (Inr _, fs'') \<Rightarrow>
                  (Inr (EditsApplied
                     \<lparr>sa_old_string = ei_old_string input, sa_new_string = ei_new_string input,
                      sa_prompt = lit ''The file '' @ ei_file_path input @ [32] @
                        lit ''has been created. Here'' @ [39] @ lit ''s the content:'' @ [10, 10] @
                        concat (number_lines (split_inclusive 10 (ei_new_string input))),
                      sa_prompt_concise = Some (lit ''The file '' @ ei_file_path input @ lit '' has been created.''),
                      sa_path = target, sa_details = [created_detail (ei_old_string input) (ei_new_string input)],
                      sa_patch = None, sa_unicode_normalized = False\<rparr>), fs'',
                   [\<lparr>tool_call_id = rc_call_id ctx, absolute_path = target, content = ei_new_string input,
                     previous_content = None, is_new_file = True\<rparr>]))))"

definition edit_updated :: "edit_input \<Rightarrow> rstr \<Rightarrow> rstr \<Rightarrow> nat list \<Rightarrow> search_replace_edit_detail list
    \<Rightarrow> search_replace_output option" where
  "edit_updated input target new new_positions details =
     map_option (\<lambda>(prompt, concise).
       EditsApplied
         \<lparr>sa_old_string = ei_old_string input, sa_new_string = ei_new_string input, sa_prompt = prompt,
          sa_prompt_concise = Some concise, sa_path = target, sa_details = details, sa_patch = None,
          sa_unicode_normalized = False\<rparr>)
     (case new_positions of
        [pos] \<Rightarrow>
          map_option (\<lambda>(snippet, _, _).
            (lit ''The file '' @ ei_file_path input @ lit '' has been updated. Here'' @ [39] @
               lit ''s a relevant snippet of the edited file:'' @ [10, 10] @ snippet,
             lit ''The file '' @ ei_file_path input @ lit '' has been updated.''))
          (render_snippet new (ei_new_string input) pos CONTEXT_LINES)
      | _ \<Rightarrow>
          Some (lit ''All '' @ show_nat (length new_positions) @ lit '' occurrences of the specified string were successfully replaced in '' @
                  ei_file_path input @ lit ''.'',
                lit ''The file '' @ ei_file_path input @ lit '' has been updated. All occurrences were successfully replaced.''))"

definition edit_replacement :: "'fs async_file_system \<Rightarrow> 'fs edit_services \<Rightarrow> replace_context \<Rightarrow> edit_input \<Rightarrow> rstr \<Rightarrow> bool \<Rightarrow> 'fs
    \<Rightarrow> 'fs edit_run option" where
  "edit_replacement ops sv ctx input target all fs =
     (case read_file ops fs target of
        Inl e \<Rightarrow>
          Some (if \<not> es_exists sv fs target then
                  Inr (TargetNotFound (lit ''File not found: '' @ ei_file_path input @ lit ''. Please check the path and try again.''))
                else Inl (ExecutionError (lit ''edit'') (show_computer_error e)), fs, [])
      | Inr file_bytes \<Rightarrow>
          (let old = from_utf8_lossy file_bytes;
               positions = match_indices old (ei_old_string input)
           in if positions = [] then
                Some (Inr (NoMatchesFound
                  \<lparr>nm_message = lit ''The string to replace was not found in the file. Make sure it matches exactly, including whitespace and indentation.'',
                   nm_path = target, nm_snapshot = Some old\<rparr>), fs, [])
              else if 1 < length positions \<and> \<not> all then Some (several_matches ctx [], fs, [])
              else do {
                chosen \<leftarrow> (if all then Some positions else slice_opt positions 0 1);
                (new, new_positions) \<leftarrow> replace_using_positions old chosen (ei_old_string input) (ei_new_string input);
                (case write_file ops fs target (as_bytes new) of
                   (Inl e, fs') \<Rightarrow> Some (Inl (ExecutionError (lit ''edit'') (show_computer_error e)), fs', [])
                 | (Inr _, fs') \<Rightarrow> do {
                     details \<leftarrow> build_edit_details new (ei_old_string input) (ei_new_string input) new_positions CONTEXT_LINES;
                     answer \<leftarrow> edit_updated input target new new_positions details;
                     Some (Inr answer, fs',
                       [\<lparr>tool_call_id = rc_call_id ctx, absolute_path = target, content = new, previous_content = Some old,
                         is_new_file = False\<rparr>])
                   })
              }))"

definition edit_run_tool :: "'fs async_file_system \<Rightarrow> 'fs edit_services \<Rightarrow> replace_context \<Rightarrow> edit_input \<Rightarrow> 'fs
    \<Rightarrow> 'fs edit_run option" where
  "edit_run_tool ops sv ctx input fs =
     (case resolve_cwd ctx of
        Inl e \<Rightarrow> Some (Inl e, fs, [])
      | Inr cwd \<Rightarrow>
          (let all = (case ei_replace_all input of Some b \<Rightarrow> b | None \<Rightarrow> False);
               target = resolve_model_path (ps_tilde (es_paths sv)) cwd (ec_display_cwd ctx) (ei_file_path input)
           in if es_is_dir sv fs target then Some (Inr (InvalidInput (lit ''File path is a directory'')), fs, [])
              else if ei_old_string input = ei_new_string input then
                Some (Inr (InvalidInput (lit ''Old string and new string are the same'')), fs, [])
              else if ei_old_string input = [] then Some (edit_new_file ops sv ctx input target fs)
              else edit_replacement ops sv ctx input target all fs))"

definition write_run_tool :: "'fs async_file_system \<Rightarrow> 'fs edit_services \<Rightarrow> replace_context \<Rightarrow> write_input \<Rightarrow> 'fs \<Rightarrow> 'fs edit_run" where
  "write_run_tool ops sv ctx input fs =
     (case resolve_cwd ctx of
        Inl e \<Rightarrow> (Inl e, fs, [])
      | Inr cwd \<Rightarrow>
          (let target = resolve_model_path (ps_tilde (es_paths sv)) cwd (ec_display_cwd ctx) (wi_file_path input);
               old = (case read_file ops fs target of Inr bs \<Rightarrow> Some (from_utf8_lossy bs) | Inl _ \<Rightarrow> None);
               existed = (old \<noteq> None)
           in case make_parents sv target fs of
                (Inl e, fs') \<Rightarrow> (Inl (ExecutionError (lit ''write'') (lit ''IO Error: '' @ e)), fs', [])
              | (Inr _, fs') \<Rightarrow>
                  (case write_file ops fs' target (as_bytes (wi_content input)) of
                     (Inl e, fs'') \<Rightarrow> (Inl (ExecutionError (lit ''write'') (show_computer_error e)), fs'', [])
                   | (Inr _, fs'') \<Rightarrow>
                       (let old_string = (case old of Some t \<Rightarrow> t | None \<Rightarrow> []);
                            prompt = (if existed then lit ''Wrote file successfully to '' @ target @ lit ''.''
                                      else lit ''The file '' @ target @ lit '' has been created.'')
                        in (Inr (EditsApplied
                              \<lparr>sa_old_string = old_string, sa_new_string = wi_content input, sa_prompt = prompt,
                               sa_prompt_concise = Some prompt, sa_path = target,
                               sa_details = [created_detail old_string (wi_content input)], sa_patch = None,
                               sa_unicode_normalized = False\<rparr>), fs'',
                            [\<lparr>tool_call_id = rc_call_id ctx, absolute_path = target, content = wi_content input,
                              previous_content = old, is_new_file = \<not> existed\<rparr>])))))"

end
