(* ===== verification/OpencodeEditProps.thy ===== *)
theory OpencodeEditProps
  imports OpencodeEdit
begin

text \<open>
  What the editing tools have in common: the two tools that replace text agree on every file without carriage
  returns, and a client that replays the announcements of all tools knows the files. The contract of
  a tool that announces its writes is the locale \<open>announcing_tool\<close>; the three tools are its instances.
\<close>

section \<open>Replacing\<close>

lemma edit_updated_total:
  assumes "build_edit_details new (ei_old_string input) (ei_new_string input) new_positions CONTEXT_LINES = Some details"
  shows "\<exists>a. edit_updated input target new new_positions details = Some (EditsApplied a)"
proof (cases "\<exists>pos. new_positions = [pos]")
  case True
  then obtain pos where pos: "new_positions = [pos]" by blast
  then have "render_snippet new (ei_new_string input) pos CONTEXT_LINES \<noteq> None"
    using assms by (auto simp: build_edit_details_def edit_detail_def split: option.splits bind_splits)
  then show ?thesis by (auto simp: edit_updated_def pos)
next
  case False
  then show ?thesis by (auto simp: edit_updated_def split: list.split)
qed

lemma edit_replacement_cases:
  assumes "read_file ops fs target = Inr bs" "old = from_utf8_lossy bs"
    and "n = length (match_indices old (ei_old_string input))"
    and "new = replace_all (ei_old_string input) (ei_new_string input) old"
  shows "n = 0 \<Longrightarrow> \<exists>e. edit_replacement ops sv ctx input target all fs = Some (Inr (NoMatchesFound e), fs, [])"
    and "1 < n \<Longrightarrow> \<not> all \<Longrightarrow> edit_replacement ops sv ctx input target all fs = Some (several_matches ctx [], fs, [])"
    and "n = 1 \<or> 1 < n \<and> all \<Longrightarrow> write_file ops fs target (as_bytes new) = (Inl e, fs') \<Longrightarrow>
      edit_replacement ops sv ctx input target all fs =
        Some (Inl (ExecutionError (lit ''edit'') (show_computer_error e)), fs', [])"
    and "n = 1 \<or> 1 < n \<and> all \<Longrightarrow> write_file ops fs target (as_bytes new) = (Inr (), fs') \<Longrightarrow>
      \<exists>a. edit_replacement ops sv ctx input target all fs =
        Some (Inr (EditsApplied a), fs', [written_note ctx target new (Some old)])"
proof -
  let ?ix = "match_indices old (ei_old_string input)"
  obtain ps t where ps: "match_pieces (ei_old_string input) [] old = (ps, t)" by fastforce
  have new: "put_new (ei_new_string input) ps @ t = new" using replace_at_matches(2) [OF ps] assms(4) by simp
  obtain ds where ds: "build_edit_details (put_new (ei_new_string input) ps @ t) (ei_old_string input) (ei_new_string input)
      (map fst (piece_offsets 0 (with_new (ei_new_string input) ps))) CONTEXT_LINES = Some ds" by (rule build_edit_details_total)
  obtain a where a: "edit_updated input target new (map fst (piece_offsets 0 (with_new (ei_new_string input) ps))) ds = Some (EditsApplied a)"
    using edit_updated_total [OF ds] new by metis
  have chosen: "(if all then Some ?ix else slice_opt ?ix 0 1) = Some ?ix" if "n = 1 \<or> 1 < n \<and> all"
    using that assms(3) by (auto simp: slice_opt_def)
  have go: "edit_replacement ops sv ctx input target all fs =
      (case write_file ops fs target (as_bytes new) of
         (Inl e, fs') \<Rightarrow> Some (Inl (ExecutionError (lit ''edit'') (show_computer_error e)), fs', [])
       | (Inr _, fs') \<Rightarrow> Some (Inr (EditsApplied a), fs', [written_note ctx target new (Some old)]))" if n: "n = 1 \<or> 1 < n \<and> all"
  proof -
    have "?ix \<noteq> []" "\<not> (1 < length ?ix \<and> \<not> all)" using n assms(3) by auto
    then show ?thesis
      using replace_at_matches(1) [OF ps, of "ei_new_string input"] ds a chosen [OF n] new
      by (auto simp: edit_replacement_def assms(1) assms(2) [symmetric] Let_def written_note_def split: prod.split sum.split)
  qed
  show "\<exists>e. edit_replacement ops sv ctx input target all fs = Some (Inr (NoMatchesFound e), fs, [])" if "n = 0"
    using that assms(3) by (simp add: edit_replacement_def assms(1) assms(2) [symmetric] Let_def)
  show "edit_replacement ops sv ctx input target all fs = Some (several_matches ctx [], fs, [])" if "1 < n" "\<not> all"
  proof -
    have "?ix \<noteq> []" using that(1) assms(3) by auto
    then show ?thesis using that assms(3) by (simp add: edit_replacement_def assms(1) assms(2) [symmetric] Let_def)
  qed
  show "edit_replacement ops sv ctx input target all fs =
      Some (Inl (ExecutionError (lit ''edit'') (show_computer_error e)), fs', [])"
    if "n = 1 \<or> 1 < n \<and> all" "write_file ops fs target (as_bytes new) = (Inl e, fs')"
    using go [OF that(1)] that(2) by simp
  show "\<exists>a. edit_replacement ops sv ctx input target all fs =
      Some (Inr (EditsApplied a), fs', [written_note ctx target new (Some old)])"
    if "n = 1 \<or> 1 < n \<and> all" "write_file ops fs target (as_bytes new) = (Inr (), fs')"
    using go [OF that(1)] that(2) by simp
qed

text \<open>The request of one tool as a request of the other.\<close>

definition as_edit_input :: "search_replace_input \<Rightarrow> edit_input" where
  "as_edit_input i =
     \<lparr>ei_file_path = si_file_path i, ei_old_string = si_old_string i, ei_new_string = si_new_string i,
      ei_replace_all = Some (si_replace_all i)\<rparr>"



section \<open>Announcements\<close>

text \<open>What a client that listens to the notifications believes about the files.\<close>

definition replay :: "file_written list \<Rightarrow> (component list \<rightharpoonup> bytes) \<Rightarrow> (component list \<rightharpoonup> bytes)" where
  "replay notes m = foldl (\<lambda>m n. m(components (absolute_path n) \<mapsto> as_bytes (content n))) m notes"

lemma replay_simps [simp]: "replay [] m = m" "replay (ns @ ns') m = replay ns' (replay ns m)"
  "replay [n] m = m(components (absolute_path n) \<mapsto> as_bytes (content n))"
  by (simp_all add: replay_def)

text \<open>A sequence of calls, with the notifications that they send.\<close>

fun run_calls :: "('i \<Rightarrow> 'fs \<Rightarrow> 'fs edit_run option) \<Rightarrow> 'i list \<Rightarrow> 'fs \<Rightarrow> ('fs \<times> file_written list) option" where
  "run_calls call [] fs = Some (fs, [])"
| "run_calls call (i # calls) fs =
     (case call i fs of
        None \<Rightarrow> None
      | Some (answer, fs', notes) \<Rightarrow> map_option (\<lambda>(fs'', notes'). (fs'', notes @ notes')) (run_calls call calls fs'))"

text \<open>A store in which a failed write leaves the files as they are.\<close>

locale reliable_store = file_store +
  assumes failed_write: "write_file ops fs p d = (Inl e, fs') \<Longrightarrow> file_contents ops fs' q = file_contents ops fs q"
begin

lemma shows_failed: "shows_files ops fs m \<Longrightarrow> write_file ops fs p d = (Inl e, fs') \<Longrightarrow> shows_files ops fs' m"
  by (simp add: shows_files_def failed_write)

lemma shows_announced:
  assumes "shows_files ops fs m" "write_file ops fs p (as_bytes s) = (Inr u, fs')" "absolute_path n = p" "content n = s"
  shows "shows_files ops fs' (replay [n] m)"
  using shows_write [OF assms(1,2)] assms(3,4) by simp

end

interpretation mock_store: reliable_store mock_ops
  by unfold_locales (simp add: mock_write)

text \<open>The contract: a call always answers, and its notifications tell all it does to the files.\<close>

locale announcing_tool =
  fixes ops :: "'fs async_file_system"
    and call :: "'i \<Rightarrow> 'fs \<Rightarrow> 'fs edit_run option"
  assumes answers: "call i fs \<noteq> None"
    and announced: "shows_files ops fs m \<Longrightarrow> call i fs = Some (answer, fs', notes) \<Longrightarrow> shows_files ops fs' (replay notes m)"
begin

lemma run_shows:
  "shows_files ops fs m \<Longrightarrow> \<exists>fs' notes. run_calls call calls fs = Some (fs', notes) \<and> shows_files ops fs' (replay notes m)"
proof (induction calls arbitrary: fs m)
  case (Cons i calls)
  obtain answer fs' ns where c: "call i fs = Some (answer, fs', ns)" using answers [of i fs] by (cases "call i fs") auto
  obtain fs'' ns' where "run_calls call calls fs' = Some (fs'', ns')" "shows_files ops fs'' (replay ns' (replay ns m))"
    using Cons.IH [OF announced [OF Cons.prems c]] by blast
  then show ?case by (auto simp: c)
qed simp

end

text \<open>The three tools behind one interface.\<close>

datatype edit_call = SearchReplaceCall search_replace_input | EditCall edit_input | WriteCall write_input

fun edit_call_run :: "'fs async_file_system \<Rightarrow> 'fs edit_services \<Rightarrow> replace_context \<Rightarrow> edit_call \<Rightarrow> 'fs \<Rightarrow> 'fs edit_run option" where
  "edit_call_run ops sv ctx (SearchReplaceCall i) fs = search_replace_tool ops sv ctx i fs"
| "edit_call_run ops sv ctx (EditCall i) fs = edit_run_tool ops sv ctx i fs"
| "edit_call_run ops sv ctx (WriteCall i) fs = Some (write_run_tool ops sv ctx i fs)"

definition dirs_keep_files :: "'fs async_file_system \<Rightarrow> 'fs edit_services \<Rightarrow> bool" where
  "dirs_keep_files ops sv \<longleftrightarrow>
     (\<forall>cs fs q. file_contents ops (snd (es_mkdirs sv cs fs)) q = file_contents ops fs q)"

lemma make_parents_shows:
  assumes "dirs_keep_files ops sv" "shows_files ops fs m" "make_parents sv p fs = (r, fs')"
  shows "shows_files ops fs' m"
proof -
  have "fs' = fs \<or> (\<exists>cs. fs' = snd (es_mkdirs sv cs fs))"
    using assms(3) by (auto simp: make_parents_def split: option.splits if_splits) (metis snd_conv)
  then show ?thesis using assms(1,2) by (auto simp: dirs_keep_files_def shows_files_def)
qed

lemma create_shows:
  assumes "reliable_store ops" "dirs_keep_files ops sv" "shows_files ops fs m" "make_parents sv p fs = (r, fs')"
  shows "shows_files ops fs' m"
    "write_file ops fs' p (as_bytes s) = (Inl e, fs'') \<Longrightarrow> shows_files ops fs'' m"
    "write_file ops fs' p (as_bytes s) = (Inr u, fs'') \<Longrightarrow> shows_files ops fs'' (m(components p \<mapsto> as_bytes s))"
proof -
  show m: "shows_files ops fs' m" by (rule make_parents_shows [OF assms(2-4)])
  show "shows_files ops fs'' m" if "write_file ops fs' p (as_bytes s) = (Inl e, fs'')"
    by (rule reliable_store.shows_failed [OF assms(1) m that])
  show "shows_files ops fs'' (m(components p \<mapsto> as_bytes s))" if "write_file ops fs' p (as_bytes s) = (Inr u, fs'')"
    using reliable_store.axioms(1) [OF assms(1)] m that by (rule file_store.shows_write)
qed

lemma search_replace_announced:
  assumes "reliable_store ops" "shows_files ops fs m" "search_replace_tool ops sv ctx i fs = Some (answer, fs', notes)"
  shows "shows_files ops fs' (replay notes m)"
proof -
  obtain answer' where "call_outcome ops ctx (call_target sv fs ctx i) fs (good_call ops i (call_target sv fs ctx i) fs) (answer', fs', notes)"
    using run_outcome [of ops sv ctx i fs] assms(3) by (auto simp: search_replace_tool_def)
  then consider "fs' = fs" "notes = []" | d e where "write_file ops fs (call_target sv fs ctx i) d = (Inl e, fs')" "notes = []"
    | written old where "write_file ops fs (call_target sv fs ctx i) (as_bytes written) = (Inr (), fs')"
        "notes = [written_note ctx (call_target sv fs ctx i) written old]"
    unfolding call_outcome_def by auto
  then show ?thesis
  proof cases
    case 1
    then show ?thesis using assms(2) by simp
  next
    case 2
    then show ?thesis using reliable_store.shows_failed [OF assms(1,2)] by simp
  next
    case (3 written old)
    then show ?thesis
      using reliable_store.shows_announced [OF assms(1,2) 3(1), of "written_note ctx (call_target sv fs ctx i) written old"]
      by (simp add: written_note_def)
  qed
qed

lemma edit_answers: "edit_run_tool ops sv ctx i fs \<noteq> None"
  and edit_announced: "reliable_store ops \<Longrightarrow> dirs_keep_files ops sv \<Longrightarrow> shows_files ops fs m \<Longrightarrow>
    edit_run_tool ops sv ctx i fs = Some (answer, fs', notes) \<Longrightarrow> shows_files ops fs' (replay notes m)"
proof -
  have new: "shows_files ops fs' (replay ns m)" if "reliable_store ops" "dirs_keep_files ops sv" "shows_files ops fs m"
      "edit_new_file ops sv ctx i target fs = (answer, fs', ns)" for target ns fs' answer
  proof (cases "case read_file ops fs target of Inr bs \<Rightarrow> bs \<noteq> [] | Inl _ \<Rightarrow> False")
    case True
    then show ?thesis using that(3,4) by (simp add: edit_new_file_def)
  next
    case False
    obtain r fs1 where d: "make_parents sv target fs = (r, fs1)" by fastforce
    obtain r2 fs2 where w: "write_file ops fs1 target (as_bytes (ei_new_string i)) = (r2, fs2)" by fastforce
    note seen = create_shows [OF that(1-3) d]
    show ?thesis using that(4) False d w seen
      by (cases r; cases r2) (auto simp: edit_new_file_def)
  qed
  have rep: "\<exists>answer fs' ns. edit_replacement ops sv ctx i target all fs = Some (answer, fs', ns) \<and>
      (reliable_store ops \<longrightarrow> shows_files ops fs m \<longrightarrow> shows_files ops fs' (replay ns m))" for target all
  proof (cases "read_file ops fs target")
    case (Inl e)
    then show ?thesis by (simp add: edit_replacement_def)
  next
    case (Inr bs)
    let ?n = "length (match_indices (from_utf8_lossy bs) (ei_old_string i))"
    let ?new = "replace_all (ei_old_string i) (ei_new_string i) (from_utf8_lossy bs)"
    note cs = edit_replacement_cases [OF Inr refl refl refl, where input = i]
    obtain r fs' where w: "write_file ops fs target (as_bytes ?new) = (r, fs')" by fastforce
    consider (none) "?n = 0" | (several) "1 < ?n" "\<not> all" | (some) "?n = 1 \<or> 1 < ?n \<and> all" by linarith
    then show ?thesis
    proof cases
      case none
      then show ?thesis using cs(1) by fastforce
    next
      case several
      then show ?thesis using cs(2) by fastforce
    next
      case some
      show ?thesis
      proof (cases r)
        case (Inl e)
        then show ?thesis using cs(3) [OF some] w reliable_store.shows_failed by fastforce
      next
        case Inr
        then have w': "write_file ops fs target (as_bytes ?new) = (Inr (), fs')" using w by simp
        obtain a where "edit_replacement ops sv ctx i target all fs
            = Some (Inr (EditsApplied a), fs', [written_note ctx target ?new (Some (from_utf8_lossy bs))])"
          using cs(4) [OF some w'] by blast
        then show ?thesis using reliable_store.shows_announced [OF _ _ w'] by (simp add: written_note_def del: replay_simps(3))
      qed
    qed
  qed
  have "edit_replacement ops sv ctx i target all fs \<noteq> None" for target all using rep [of target all] by auto
  then show "edit_run_tool ops sv ctx i fs \<noteq> None" by (simp add: edit_run_tool_def Let_def del: split_paired_Ex split: sum.split)
  show "shows_files ops fs' (replay notes m)" if "reliable_store ops" "dirs_keep_files ops sv" "shows_files ops fs m"
      "edit_run_tool ops sv ctx i fs = Some (answer, fs', notes)"
  proof -
    have "shows_files ops fs'' (replay ns m)" if "edit_replacement ops sv ctx i target all fs = Some (answer', fs'', ns)"
      for target all answer' fs'' ns
      using rep [of target all] that \<open>reliable_store ops\<close> \<open>shows_files ops fs m\<close> by auto
    then show ?thesis
      using that(3,4) new [OF that(1-3)] by (auto simp: edit_run_tool_def Let_def split: sum.splits if_splits)
  qed
qed

lemma write_announced:
  assumes "reliable_store ops" "dirs_keep_files ops sv" "shows_files ops fs m" "write_run_tool ops sv ctx i fs = (answer, fs', notes)"
  shows "shows_files ops fs' (replay notes m)"
proof (cases "resolve_cwd ctx")
  case (Inl e)
  then show ?thesis using assms(3,4) by (simp add: write_run_tool_def)
next
  case (Inr cwd)
  let ?p = "resolve_model_path (ps_tilde (es_paths sv)) cwd (ec_display_cwd ctx) (wi_file_path i)"
  obtain r fs1 where d: "make_parents sv ?p fs = (r, fs1)" by fastforce
  obtain r2 fs2 where w: "write_file ops fs1 ?p (as_bytes (wi_content i)) = (r2, fs2)" by fastforce
  note seen = create_shows [OF assms(1-3) d]
  show ?thesis using assms(4) Inr d w seen by (cases r; cases r2) (auto simp: write_run_tool_def Let_def)
qed

lemma edit_calls_announce:
  assumes "reliable_store ops" "dirs_keep_files ops sv"
  shows "announcing_tool ops (edit_call_run ops sv ctx)"
proof
  show "edit_call_run ops sv ctx c fs \<noteq> None" for c fs
  proof (cases c)
    case (SearchReplaceCall i)
    then show ?thesis using run_outcome [of ops sv ctx i fs] by (auto simp: search_replace_tool_def)
  qed (simp_all add: edit_answers)
  show "shows_files ops fs' (replay ns m)" if "shows_files ops fs m" "edit_call_run ops sv ctx c fs = Some (answer, fs', ns)"
    for c fs m answer fs' ns
    using that search_replace_announced [OF assms(1)] edit_announced [OF assms] write_announced [OF assms]
    by (cases c) auto
qed

text \<open>On the in-memory file system, where directories need not be made, the tools are such a tool.\<close>

definition mock_services :: "mock_fs edit_services \<Rightarrow> mock_fs edit_services" where
  "mock_services sv = sv\<lparr>es_mkdirs := (\<lambda>cs fs. (Inr (), fs))\<rparr>"

lemma mock_dirs: "dirs_keep_files mock_ops (mock_services sv)"
  by (simp add: dirs_keep_files_def mock_services_def)

interpretation mock_edits: announcing_tool mock_ops "edit_call_run mock_ops (mock_services sv) ctx" for sv ctx
  by (rule edit_calls_announce [OF mock_store.reliable_store_axioms mock_dirs])



text \<open>What \<open>write\<close> announces of the file before is what could be read, unlike \<open>search_replace\<close> with an empty text to replace.\<close>

lemma write_announces_previous:
  assumes "write_run_tool ops sv ctx i fs = (Inr (EditsApplied a), fs', notes)"
  shows "\<exists>n. notes = [n] \<and> is_new_file n = (previous_content n = None) \<and>
    previous_content n = map_option from_utf8_lossy (file_contents ops fs (absolute_path n))"
  using assms
  by (auto simp: write_run_tool_def file_contents_def Let_def split: sum.splits prod.splits)

end
