(* ===== verification/Spec2Isabelle.thy ===== *)
theory Spec2Isabelle
  imports BreakerProps PatchGrammar PatchToolProps ReadFileProps GoalProps SchedulerProps MonitorProps
    PermissionHandle TodoProps InterjectionProps HashlineToolProps OpencodeEditProps
begin

text \<open>
  \<^bold>\<open>DS Build: a verified core.\<close>

  DS Build is a coding agent for the terminal: a language model works in a session, calls tools
  that read and change files, and pursues goals over many turns. This development models the parts
  of it that decide what happens to the user's files, goals, tasks and requests, and proves what
  they promise. Every definition follows the Rust source; the sources are named in each theory.

  \<^bold>\<open>Parts and theories.\<close>

  \<^item> \<open>Prelude\<close>: Rust strings as lists of Unicode scalar values with UTF-8 encoding and lossy
    decoding, the string functions of the standard library, saturating and checked integers, and
    two contracts as locales: \<open>capped_log\<close> (a log that keeps the newest entries) and
    \<open>invariant_machine\<close> (a step function that keeps an invariant).
  \<^item> \<open>Window\<close>, \<open>BreakerConfig\<close>, \<open>Breaker\<close>, \<open>BreakerProps\<close>
    (\<^verbatim>\<open>crates/common/ds-circuit-breaker\<close>): the sliding window of samples with its incremental
    failure count and its error rate in double precision, the configuration and its environment
    variables, the lock-free three-state breaker over its atomics, the retry policy and the
    registry. Shown: the window agrees with its definition from the samples, a breaker never
    strands a recovery, and one probe at a time is admitted.
  \<^item> \<open>PatchParser\<close>, \<open>PatchGrammar\<close>, \<open>PatchApply\<close>, \<open>FileSystem\<close>,
    \<open>PatchTool\<close>, \<open>PatchToolProps\<close> (\<^verbatim>\<open>ds-tools/src/implementations/codex/apply_patch\<close>): the
    patch language and its parser, the fuzzy search for the lines to replace, the replacements,
    and the whole tool over the file system interface (\<open>file_store\<close>, with the in-memory file
    system as its instance). Shown: printed patches are parsed back, the parser advances and never
    slices out of range, the search is sound and complete, replacing from the back equals splicing,
    nothing panics, a failed run writes nothing and a successful one refines the effect of its
    changes on a map of files.
  \<^item> \<open>ReadFile\<close>, \<open>ReadFileProps\<close> (\<^verbatim>\<open>codex/read_file\<close>): slices, blocks by indentation, and
    the tool. Shown: truncation keeps the longest prefix of whole characters, pages concatenate,
    a block is a contiguous run around its anchor above its indentation threshold.
  \<^item> \<open>Goal\<close>, \<open>GoalProps\<close> (\<^verbatim>\<open>ds-shell/src/session/goal_tracker.rs\<close>): the goal tracker with
    all its transitions, counters and logs. Shown: one invariant of all methods, which pauses are
    never undone automatically and the one way round that, the bound on automatic resumes, restart
    safety, exactness of the stall detector.
  \<^item> \<open>Scheduler\<close>, \<open>SchedulerProps\<close> (\<^verbatim>\<open>ds_build/scheduler\<close>): intervals, tasks and the actor.
    Shown: which intervals are accepted, due tasks are not starved, one-shot tasks fire at most
    once, the task limit, and that clients stay in step with the actor.
  \<^item> \<open>Monitor\<close>, \<open>MonitorProps\<close> (\<^verbatim>\<open>ds_build/monitor\<close>, \<^verbatim>\<open>reminders/task_completion.rs\<close>): the monitor
    that turns the output of a background process into events: lines, batches, the token bucket,
    the suppression of overload, the pipeline and the text the model is shown. Shown: the lines do
    not depend on how the output arrives, the rate limit holds for every sequence of events, every byte
    is processed at most once, and two ways in which the end or the stop of a monitor goes wrong.
  \<^item> \<open>PermissionRules\<close>, \<open>BashCommand\<close>, \<open>PermissionPolicy\<close>, \<open>PermissionManager\<close> with
    \<open>PermissionPolicyProps\<close>, \<open>PermissionProps\<close>, \<open>PermissionGrants\<close>, \<open>PermissionHandle\<close>
    (\<^verbatim>\<open>ds-workspace/src/permission\<close>): what a tool call may do. Rule texts; scripts taken apart from
    their syntax tree, with the wrappers around a program peeled off; the managed policy; the
    manager's whole request handler with its modes, grants and safe lists; the handle with its
    atomics. Shown: a deny rule is absolute and is not evaded by chains, wrappers or nested shells,
    what is to be asked is asked, exactly which scripts run unasked, answers grant only what was shown,
    the handle and the actor agree under every interleaving; and where a command does slip through.
  \<^item> \<open>Todo\<close>, \<open>TodoProps\<close> (\<^verbatim>\<open>ds_build/todo\<close>, \<^verbatim>\<open>opencode/todowrite\<close>, \<^verbatim>\<open>ds-shell/src/tools/todo.rs\<close>,
    \<^verbatim>\<open>acp_session_impl/reminders.rs\<close>): the task list with its two tools, the plan the client is shown, and
    the gate that keeps a turn from ending while tasks are open. Shown: the tool refines one
    operation on a list of named tasks, a bad request changes nothing, the plan loses no task, the
    gate fires exactly for open tasks, a bounded number of times, and can always be satisfied; and
    that no setting ever makes it run.
  \<^item> \<open>Interjection\<close>, \<open>InterjectionProps\<close> (\<^verbatim>\<open>crates/common/ds-interjection-core\<close>,
    \<^verbatim>\<open>ds_build/task/types.rs\<close>): the event queue, the messages sent to a running turn, and the buffer of
    monitor events that all sessions share. Shown: a message is cut at a character within three
    bytes of its limit, sessions get their own events once and in order and, while there is room, all
    of them; a busy session pushes out the others' events.
  \<^item> \<open>LineHash\<close>, \<open>AnchorScheme\<close>, \<open>HashlineEdit\<close>, \<open>HashlineTool\<close> with \<open>AnchorSchemeProps\<close>,
    \<open>HashlineEditProps\<close>, \<open>HashlineProps\<close>, \<open>HashlineToolProps\<close>
    (\<^verbatim>\<open>ds_build_hashline\<close>, \<^verbatim>\<open>util/hash.rs\<close>), \<open>EditOutput\<close>, \<open>ModelPath\<close> (\<^verbatim>\<open>types/output.rs\<close>,
    \<^verbatim>\<open>types/resources.rs\<close>): edits by anchors, that is a line number and a short fingerprint of the line and
    its surroundings on 32-bit words. The schemes are values of a record of their methods with the
    contract \<open>anchor_laws\<close>; a batch is resolved, checked for overlaps and spliced in; the tools read,
    search and edit files. Shown: a batch is the simultaneous edit of the lines it names, what was shown
    can be edited by its anchor and nothing else is hit, a suggested anchor works, edits elsewhere keep
    anchors valid, every request is answered and changes at most its file; and where the search tool and
    the write to a new file go wrong.
  \<^item> \<open>ByteText\<close>, \<open>Confusables\<close>, \<open>SearchReplace\<close> with \<open>SearchReplaceLemmas\<close>, \<open>SearchReplaceProps\<close>
    (\<^verbatim>\<open>ds_build/search_replace\<close>, \<^verbatim>\<open>util/unicode_confusables.rs\<close>): edits by text. Strings are sliced and
    searched by byte offsets, where a cut inside a character is a panic; a text is taken apart into gaps
    and matches, and the facts about offsets are facts about these pieces. The tool looks a text up exactly,
    or up to characters that look alike, through a map of offsets. Shown: the number of matches decides, an
    applied edit replaced matches and nothing else, as \<^verbatim>\<open>str::replace\<close> would, line endings
    are kept, no call panics, at most one file is written and every write is announced; and where
    uniqueness, line numbers and announcements are not what they are said to be.
  \<^item> \<open>OpencodeEdit\<close>, \<open>OpencodeEditProps\<close> (\<^verbatim>\<open>opencode/edit\<close>, \<^verbatim>\<open>opencode/write\<close>): two more tools that write files. The
    contract of a tool that announces its writes is the locale \<open>announcing_tool\<close>, and the three tools are its
    instances over a \<open>reliable_store\<close>. Shown: after any sequence of their calls, a client that replays the
    announcements knows all files, and the two tools that replace text agree.
  \<^item> This theory: an edit by the patch tool is what the read tool then shows, and a rule on paths
    does not reach the patch tool.

  \<^bold>\<open>Conventions.\<close> A struct is a record, an enum a datatype, a fallible function returns a sum with
  the error on the left, and a function that may panic returns an option whose \<open>None\<close> is the
  panic. Mutation is state passing. Unsigned integers are naturals; the bounds, the saturation and
  the wrap-around of the source are written out where a value can reach them, and panics on
  overflow in debug builds are modelled as the wrap-around of release builds. Clocks, fresh
  identifiers, file operations and library formatting are arguments. The actor and the breaker
  are runs over the sequence of their events, so that every interleaving is such a sequence.
  Loops are structural recursions or have a termination proof; there is no fuel.

  \<^bold>\<open>Bounds.\<close> Two limits are those of the source and not fuel: a shell command is unwrapped in
  eight rounds, and nested shells are followed eight levels deep, where the code stops as well.

  \<^bold>\<open>Not modelled.\<close> The terminal interface, the session's turn loop and model client, sandboxing,
  MCP, telemetry and the other tools: they are I/O, glue, or left for extension. The local file
  system enters through the contract \<open>file_store\<close>, the calendar through \<open>calendar_laws\<close>, the
  shell parser, globs and URLs through the record \<open>crates\<close>, the ordered map and JSON values of the
  task list through \<open>index_map\<close> and \<open>json_object\<close>, symbolic links and \<open>~\<close> through the records
  \<open>path_services\<close> and \<open>edit_services\<close>, and the template renderer is an argument. Of the permissions, the gate on the files
  that a script touches, the prompt and the classifier are arguments of a request.

  \<^bold>\<open>Plan.\<close> Left for extension are the gate on the files of a script and the merging
  of settings, then the hunk tracker, compaction and the goal driver of the session.
\<close>

section \<open>The patch tool and the read tool\<close>

text \<open>What the read tool sees of a file that the patch tool wrote.\<close>

lemma newline_not_in_as_bytes: "10 \<notin> set l \<Longrightarrow> 10 \<notin> set (as_bytes l)"
  by (induction l) (auto simp: encode_rune_def split: if_splits)

lemma as_bytes_file_text: "as_bytes (file_text ls) = concat (map (\<lambda>l. as_bytes l @ [10]) ls)"
  by (induction ls) (simp_all add: file_text_def encode_rune_def)

lemma split_lines_concat:
  "(\<forall>l \<in> set ls. 10 \<notin> set l) \<Longrightarrow> split_lines (concat (map (\<lambda>l. l @ [10]) ls)) = map strip_cr ls"
proof -
  have "10 \<notin> set l \<Longrightarrow> split_lines_loop cur (l @ 10 # bs) = strip_cr (cur @ l) # split_lines_loop [] bs"
    for cur l bs by (induction l arbitrary: cur) auto
  then show "(\<forall>l \<in> set ls. 10 \<notin> set l) \<Longrightarrow> split_lines (concat (map (\<lambda>l. l @ [10]) ls)) = map strip_cr ls"
    unfolding split_lines_def by (induction ls) simp_all
qed

lemma strip_cr_as_bytes: "strip_cr l = l \<Longrightarrow> strip_cr (as_bytes l) = as_bytes l"
proof (cases l rule: rev_cases)
  case (snoc l' c)
  assume "strip_cr l = l"
  then have "c \<noteq> 13" by (auto simp: snoc strip_cr_def)
  then show ?thesis by (auto simp: snoc strip_cr_def encode_rune_def)
qed (simp add: strip_cr_def)

definition shown_line :: "rstr \<Rightarrow> bool" where
  "shown_line l \<longleftrightarrow> line_text l \<and> valid_str l \<and> str_len l \<le> 500"

lemma split_lines_file_text:
  "\<forall>l \<in> set ls. shown_line l \<Longrightarrow> split_lines (as_bytes (file_text ls)) = map as_bytes ls"
  using split_lines_concat [of "map as_bytes ls"]
  by (simp add: as_bytes_file_text comp_def shown_line_def line_text_def newline_not_in_as_bytes
      strip_cr_as_bytes cong: map_cong)

lemma read_file_text:
  assumes "\<forall>l \<in> set ls. shown_line l" "ls \<noteq> []" "length ls \<le> n"
  shows "read_slice (as_bytes (file_text ls)) 1 n = Inr (map (\<lambda>(k, l). numbered k l) (enumerate 1 ls))"
proof -
  have disp: "format_display (as_bytes l) = l" if "l \<in> set ls" for l
    using assms(1) that by (auto simp: shown_line_def format_display_def from_utf8_lossy_as_bytes MAX_LINE_LENGTH_def)
  have "1 \<le> length ls" "1 \<le> n" using assms(2,3) by (cases ls; simp)+
  moreover have "map show_line (enumerate k (map as_bytes ls)) = map (\<lambda>(k, l). numbered k l) (enumerate k ls)"
    for k using disp by (induction ls arbitrary: k) simp_all
  ultimately show ?thesis
    using assms(3) by (simp add: read_slice_eq split_lines_file_text [OF assms(1)])
qed

lemma total_lines_file_text:
  assumes "\<forall>l \<in> set ls. shown_line l"
  shows "total_lines (as_bytes (file_text ls)) = length ls"
  using length_pieces [of "as_bytes (file_text ls)"] split_lines_pieces [of "as_bytes (file_text ls)"]
    split_lines_file_text [OF assms] by (metis length_map)



section \<open>The patch tool and the permission policy\<close>

text \<open>C32: a deny rule on a path does not stop a patch. The access of a patch is a placeholder that names no
  file. So where the policy denies edits of a file and says nothing about the placeholder, writing
  the file with the write tool is refused in every mode, but in always-approve mode a patch for the
  same file is allowed, and the patch tool then changes the file.\<close>

theorem deny_rule_does_not_stop_patch:
  fixes st :: mock_fs and env :: request_env
  assumes "old = concat (map old_of ds)" "new = concat (map new_of ds)" "after_lines = trim_last (pre @ new @ post)"
    and "wf_op (UpdateOp p None [Change None ds False])" "old \<noteq> []"
    and "\<forall>l \<in> set (pre @ old @ post). 10 \<notin> set l \<and> valid_str l"
    and "\<forall>j < length pre. take (length old) (drop j (pre @ old @ post)) \<noteq> old"
    and "st (components (path_join cwd p)) = Some (as_bytes (file_text (pre @ old @ post)))"
    and "mc_policy cfg = Some policy" "evaluate (mc_crates cfg) policy (Edit (path_join cwd p) :: unit access_kind) = Some (Reject r)"
    and "evaluate (mc_crates cfg) policy (Edit (lit ''apply_patch'') :: unit access_kind) = None" "pm_yolo m"
    and "input_patch = print_patch [UpdateOp p None [Change None ds False]]"
  shows "request cfg env (access_of_input (InWrite (path_join cwd p) :: unit tool_input)) m = (deny_event (PolicyDeny r) POLICY_DENY, m) \<and>
    request cfg env (access_of_input (InApplyPatch input_patch :: unit tool_input)) m = (auto_event Allow YOLO, m) \<and>
    (\<exists>files summary ns. run mock_ops no_mkdirs cwd call_id input_patch st =
       Some (Inr (Success files summary), st(components (path_join cwd p) \<mapsto> as_bytes (file_text after_lines)), ns))"
proof -
  have "policy_decision cfg env (Edit (path_join cwd p) :: unit access_kind) = Some (Reject r)"
    "policy_decision cfg env (Edit (lit ''apply_patch'') :: unit access_kind) = None"
    using assms(9-11) by (simp_all add: policy_decision_def direct_decision_def shell_command_decision_def shell_file_decision_def)
  moreover have "shell_file_decision cfg env (Edit x :: unit access_kind) = None"
      "shell_command_decision cfg (Edit x :: unit access_kind) = None" for x
    by (simp_all add: shell_file_decision_def shell_command_decision_def split: option.split)
  ultimately have
    "request cfg env (access_of_input (InWrite (path_join cwd p) :: unit tool_input)) m = (deny_event (PolicyDeny r) POLICY_DENY, m)"
    "request cfg env (access_of_input (InApplyPatch input_patch :: unit tool_input)) m = (auto_event Allow YOLO, m)"
    using assms(12) by (simp_all add: request_denied) (simp add: request_def)
  moreover from mock_diff_patch [where cwd = cwd and p = p and st = st and call_id = call_id,
      OF assms(1,2) refl assms(4-8)] have "\<exists>files summary ns. run mock_ops no_mkdirs cwd call_id input_patch st =
       Some (Inr (Success files summary), st(components (path_join cwd p) \<mapsto> as_bytes (file_text after_lines)), ns)"
    unfolding assms(3,13) .
  ultimately show ?thesis by blast
qed

definition guarded_policy :: compiled_policy where
  "guarded_policy = compile_policy plain_crates (rules_config [\<lparr>pr_action = RuleDeny, pr_tool = EditTool,
     pr_pattern = Some [119, 47, 97], pr_pattern_mode = Glob\<rparr>])"

definition guarded_config :: manager_config where
  "guarded_config = (spawn_config plain_crates None [] True False)\<lparr>mc_policy := Some guarded_policy\<rparr>"

lemma deny_rule_does_not_stop_patch_witness:
  "\<exists>files summary ns r. let m = fresh_manager\<lparr>pm_yolo := True\<rparr>;
       p = print_patch [UpdateOp [97] None [Change None [Removed [120], Added [121]] False]] in
     request guarded_config quiet_env (Edit [119, 47, 97] :: unit access_kind) m = (deny_event (PolicyDeny r) POLICY_DENY, m) \<and>
     request guarded_config quiet_env (access_of_input (InApplyPatch p :: unit tool_input)) m = (auto_event Allow YOLO, m) \<and>
     run mock_ops no_mkdirs [119] [] p [components [119, 47, 97] \<mapsto> [120, 10]] =
       Some (Inr (Success files summary), [components [119, 47, 97] \<mapsto> [121, 10]], ns)"
proof -
  have wf: "wf_op (UpdateOp [97] None [Change None [Removed [120], Added [121]] False])"
    by (simp add: file_name_def line_text_def strip_cr_id_iff trim_end_id_iff is_whitespace_def)
  have join: "path_join [119] [97] = [119, 47, 97]" by (simp add: path_join_def starts_with_def)
  have cfg: "mc_policy guarded_config = Some guarded_policy" "mc_crates guarded_config = plain_crates"
    by (simp_all add: guarded_config_def spawn_config_def)
  have "evaluate plain_crates guarded_policy (Edit (lit ''apply_patch'') :: unit access_kind) = None" by code_simp
  moreover obtain r where "evaluate plain_crates guarded_policy (Edit [119, 47, 97] :: unit access_kind) = Some (Reject r)"
    using policy_spec_denies [of "\<lparr>pr_action = RuleDeny, pr_tool = EditTool, pr_pattern = Some [119, 47, 97], pr_pattern_mode = Glob\<rparr>"
        "[\<lparr>pr_action = RuleDeny, pr_tool = EditTool, pr_pattern = Some [119, 47, 97], pr_pattern_mode = Glob\<rparr>]"
        plain_crates "Edit [119, 47, 97] :: unit access_kind"]
    by (auto simp: guarded_policy_def evaluate_eq rule_matches_def pattern_matches_def matcher_of_def glob_matches_def plain_crates_def lit_simps)
  ultimately show ?thesis
    using deny_rule_does_not_stop_patch [OF refl refl refl wf, where pre = "[]" and post = "[]" and cwd = "[119]" and cfg = guarded_config
      and policy = guarded_policy and st = "[components [119, 47, 97] \<mapsto> [120, 10]]" and call_id = "[]" and r = r
      and m = "fresh_manager\<lparr>pm_yolo := True\<rparr>" and env = quiet_env, OF _ _ _ _ cfg(1) _ _ _ refl]
    by (simp add: join cfg(2) file_text_def trim_last_def last_empty_def encode_rune_def valid_rune_def Let_def) blast
qed

end
